(* ===== verification/Prelude.thy ===== *)
theory Prelude
  imports Main "HOL-Library.Word"
begin

text \<open>
  What every component of the NAS common library shares: the integer widths of the C
  typedefs, the \<open>t_std_error\<close> return codes, the faults of C and C++ that the code does
  not guard against, the contract of the string copy of the platform library, and the
  ordered containers (\<open>std::set\<close>, \<open>std::map\<close>) as sorted lists.
\<close>

section \<open>Integer types\<close>

type_synonym u8 = "8 word"
type_synonym u16 = "16 word"
type_synonym u32 = "32 word"
type_synonym u64 = "64 word"

text \<open>\<open>int\<close> of C, read with \<open>sint\<close> where its sign matters.\<close>
type_synonym i32 = "32 word"

text \<open>A heap address; a pointer that may be \<open>NULL\<close> is an \<open>addr option\<close>.\<close>
type_synonym addr = nat

section \<open>Return codes\<close>

text \<open>
  \<open>STD_ERR (id, code, private)\<close> packs three numbers into an \<open>int\<close>. The packing belongs to
  the platform library, so a code is kept as the triple the source writes. The private part is
  a number, an \<open>errno\<close> or error-code constant, or another return code.
\<close>

datatype std_err_id = INTERFACE | COM | HALCOM | BOARD | NPU

datatype std_err_code = PARAM | CFG | FAIL | NOMEM | NOTSUPPORTED

datatype t_std_error =
    STD_ERR_OK
  | STD_ERR std_err_id std_err_code err_priv
and err_priv =
    Priv nat
  | Priv_ENOENT
  | Priv_code std_err_code
  | Priv_rc t_std_error

text \<open>The error codes of \<open>src/inc/opx/nas_types.h\<close>.\<close>

definition NAS_BASE_E_NONE :: t_std_error where
  "NAS_BASE_E_NONE = STD_ERR_OK"

definition NAS_BASE_E_MEM :: t_std_error where
  "NAS_BASE_E_MEM = STD_ERR HALCOM NOMEM (Priv 0)"

definition NAS_BASE_E_FAIL :: t_std_error where
  "NAS_BASE_E_FAIL = STD_ERR HALCOM FAIL (Priv 1)"

definition NAS_BASE_E_FULL :: t_std_error where
  "NAS_BASE_E_FULL = STD_ERR HALCOM FAIL (Priv 2)"

definition NAS_BASE_E_CREATE_ONLY :: t_std_error where
  "NAS_BASE_E_CREATE_ONLY = STD_ERR HALCOM PARAM (Priv 1)"

definition NAS_BASE_E_PARAM :: t_std_error where
  "NAS_BASE_E_PARAM = STD_ERR HALCOM PARAM (Priv 2)"

definition NAS_BASE_E_UNSUPPORTED :: t_std_error where
  "NAS_BASE_E_UNSUPPORTED = STD_ERR HALCOM PARAM (Priv 3)"

definition NAS_BASE_E_DUPLICATE :: t_std_error where
  "NAS_BASE_E_DUPLICATE = STD_ERR HALCOM PARAM (Priv 4)"

section \<open>Faults\<close>

text \<open>
  What ends the process or is undefined behaviour: a failed \<open>STD_ASSERT\<close>, a \<open>NULL\<close>
  dereference, a read of a freed block, a second \<open>delete\<close> of a block, a dereference of an
  end iterator, a division by zero, an access outside an array, a read of a variable that was
  never assigned, an exception that leaves a C function. A function that can reach one returns \<open>fault + 'a\<close>.
\<close>

datatype fault =
    Assert_Fail
  | Null_Deref
  | Use_After_Free
  | Double_Free
  | End_Iterator
  | Div_By_Zero
  | Out_Of_Bounds
  | Uninitialised
  | Uncaught

section \<open>String copy\<close>

text \<open>
  \<open>safestrncpy (dest, src, size)\<close> of the platform library is a parameter of the definitions
  that call it: the C string that \<open>dest\<close> holds afterwards, from \<open>src\<close> and \<open>size\<close>. Its
  documented behaviour is the predicate below: it copies at most \<open>size - 1\<close> characters and
  always terminates the string.
\<close>

type_synonym strcopy = "string \<Rightarrow> nat \<Rightarrow> string"

definition safestrncpy_spec :: "strcopy \<Rightarrow> bool" where
  "safestrncpy_spec cpy \<longleftrightarrow> (\<forall>src n. 0 < n \<longrightarrow> cpy src n = take (n - 1) src)"

lemma safestrncpy_specD: "safestrncpy_spec cpy \<Longrightarrow> 0 < n \<Longrightarrow> cpy src n = take (n - 1) src"
  by (simp add: safestrncpy_spec_def)

lemma safestrncpy_fits:
  "safestrncpy_spec cpy \<Longrightarrow> length src < n \<Longrightarrow> cpy src n = src"
  by (simp add: safestrncpy_spec_def)

lemma safestrncpy_length:
  "safestrncpy_spec cpy \<Longrightarrow> 0 < n \<Longrightarrow> length (cpy src n) < n"
  by (simp add: safestrncpy_spec_def)

lemma safestrncpy_spec_take [simp]: "safestrncpy_spec (\<lambda>s n. take (n - 1) s)"
  by (simp add: safestrncpy_spec_def)

text \<open>The copy that does just this; the witnesses of the properties use it.\<close>

definition trunc_copy :: strcopy where
  "trunc_copy src n = take (n - 1) src"

lemma trunc_copy_spec [simp]: "safestrncpy_spec trunc_copy"
  by (simp add: safestrncpy_spec_def trunc_copy_def)

section \<open>Ordered sets\<close>

text \<open>
  A \<open>std::set\<close> is the sorted list of its elements: iteration runs through the list,
  \<open>insert\<close> and \<open>erase\<close> keep it sorted, \<open>upper_bound\<close> is the first element that is greater.
\<close>

definition oset :: "'a::linorder list \<Rightarrow> bool" where
  "oset xs \<longleftrightarrow> sorted xs \<and> distinct xs"

definition oset_insert :: "'a::linorder \<Rightarrow> 'a list \<Rightarrow> 'a list" where
  "oset_insert x xs = (if x \<in> set xs then xs else insort x xs)"

definition oset_erase :: "'a::linorder \<Rightarrow> 'a list \<Rightarrow> 'a list" where
  "oset_erase x xs = remove1 x xs"

definition oset_upper_bound :: "'a::linorder \<Rightarrow> 'a list \<Rightarrow> 'a option" where
  "oset_upper_bound x xs = find (\<lambda>y. x < y) xs"

named_theorems oset_simps "set, order and distinctness of the ordered set operations"

lemma oset_Nil [oset_simps]: "oset []"
  by (simp add: oset_def)

lemma oset_insert_oset [oset_simps]: "oset xs \<Longrightarrow> oset (oset_insert x xs)"
  by (simp add: oset_def oset_insert_def sorted_insort distinct_insort)

lemma set_oset_insert [oset_simps]: "set (oset_insert x xs) = insert x (set xs)"
  by (auto simp: oset_insert_def set_insort_key)

lemma oset_erase_oset [oset_simps]: "oset xs \<Longrightarrow> oset (oset_erase x xs)"
  by (simp add: oset_def oset_erase_def sorted_remove1)

lemma set_oset_erase [oset_simps]: "oset xs \<Longrightarrow> set (oset_erase x xs) = set xs - {x}"
  by (simp add: oset_def oset_erase_def)

lemma oset_ext: "oset xs \<Longrightarrow> oset ys \<Longrightarrow> set xs = set ys \<Longrightarrow> xs = ys"
  by (simp add: oset_def sorted_distinct_set_unique)

lemma oset_upper_bound_Some:
  assumes "oset xs" and "oset_upper_bound x xs = Some y"
  shows "y \<in> set xs \<and> x < y \<and> (\<forall>z \<in> set xs. x < z \<longrightarrow> y \<le> z)"
  using assms
proof (induction xs)
  case Nil
  then show ?case by (simp add: oset_upper_bound_def)
next
  case (Cons a xs)
  then show ?case
    by (cases "x < a") (auto simp: oset_upper_bound_def oset_def)
qed

lemma oset_upper_bound_None:
  "oset_upper_bound x xs = None \<longleftrightarrow> (\<forall>z \<in> set xs. z \<le> x)"
  by (auto simp: oset_upper_bound_def find_None_iff)

lemma oset_hd_least: "oset (y # ys) \<Longrightarrow> z \<in> set (y # ys) \<Longrightarrow> y \<le> z"
  by (auto simp: oset_def)

section \<open>Options and maps\<close>

lemma map_upd_None_Some: "(m(k := None)) k' = Some v \<longleftrightarrow> k' \<noteq> k \<and> m k' = Some v"
  by auto

end
