(* ===== verification/IfMapping.thy ===== *)
theory IfMapping
  imports Prelude
begin

text \<open>
  The interface table of \<open>src/src/hal_if_mapping.cpp\<close>: records reached through one hash map
  per query type, one map by name and the ordered set of interface indexes of the default VRF.
  Records and descriptions live in explicit heaps, because the same block is reached through
  several maps and because \<open>*p = *detail\<close> copies the description pointer. The theory holds
  the data, the operations on the table and the table's invariant; the conversions between
  interface type names are in \<open>IfTypes\<close>.
\<close>

section \<open>Data\<close>

datatype nas_int_type =
    nas_int_type_PORT
  | nas_int_type_VLAN
  | nas_int_type_LAG
  | nas_int_type_CPU
  | nas_int_type_LPBK
  | nas_int_type_FC
  | nas_int_type_MGMT
  | nas_int_type_MACVLAN
  | nas_int_type_VLANSUB_INTF
  | nas_int_type_VXLAN
  | nas_int_type_DOT1D_BRIDGE
  | nas_int_type_INVALID

text \<open>The last constructor is the value 0, which \<open>memset\<close> leaves in \<open>q_type\<close>.\<close>

datatype intf_info =
    HAL_INTF_INFO_FROM_PORT
  | HAL_INTF_INFO_FROM_IF
  | HAL_INTF_INFO_FROM_TAP
  | HAL_INTF_INFO_FROM_IF_NAME
  | HAL_INTF_INFO_FROM_VLAN
  | HAL_INTF_INFO_FROM_LAG
  | HAL_INTF_INFO_FROM_BRIDGE_ID
  | HAL_INTF_INFO_UNSET

datatype hal_intf_reg_op_type = HAL_INTF_OP_REG | HAL_INTF_OP_DEREG

record l3_intf_info =
  l3_vrf_id :: u32
  l3_if_index :: i32

text \<open>
  The anonymous union of the structure is its eight bytes, \<open>un\<close>, as the little-endian 64-bit
  ABI lays them out: \<open>port_mapped\<close> is byte 0 and \<open>port_id\<close> bytes 4 to 7, \<open>vlan_id\<close> is
  bytes 0 and 1, \<open>lag_id\<close> and \<open>bridge_id\<close> are all eight.
\<close>

record interface_ctrl =
  mac_addr :: string
  if_name :: string
  desc :: "addr option"
  un :: u64
  q_type :: intf_info
  int_type :: nas_int_type
  int_sub_type :: u32
  vrf_id :: u32
  vrf_name :: string
  if_index :: i32
  npu_id :: i32
  tap_id :: i32
  sub_interface :: u32
  l3_info :: l3_intf_info

definition MAX_INTF_DESC_LEN :: nat where
  "MAX_INTF_DESC_LEN = 256"

definition MAC_STR_SZ :: nat where
  "MAC_STR_SZ = 18"

definition port_mapped :: "interface_ctrl \<Rightarrow> bool" where
  "port_mapped r \<longleftrightarrow> take_bit 8 (un r) \<noteq> 0"

definition port_id :: "interface_ctrl \<Rightarrow> u32" where
  "port_id r = ucast (drop_bit 32 (un r))"

definition vlan_id :: "interface_ctrl \<Rightarrow> u16" where
  "vlan_id r = ucast (un r)"

definition lag_id :: "interface_ctrl \<Rightarrow> u64" where
  "lag_id r = un r"

definition bridge_id :: "interface_ctrl \<Rightarrow> u64" where
  "bridge_id r = un r"

text \<open>The assignment \<open>p->port_mapped = true\<close>: byte 0 becomes 1.\<close>

definition set_port_mapped :: "interface_ctrl \<Rightarrow> interface_ctrl" where
  "set_port_mapped r = r\<lparr>un := or (push_bit 8 (drop_bit 8 (un r))) 1\<rparr>"

text \<open>A port's union bytes, from its two members; the bytes between them are 0.\<close>

definition port_union :: "bool \<Rightarrow> u32 \<Rightarrow> u64" where
  "port_union mapped port = or (push_bit 32 (ucast port)) (of_bool mapped)"

text \<open>\<open>memset(&_intf, 0, sizeof(_intf))\<close>.\<close>

definition zero_ctrl :: interface_ctrl where
  "zero_ctrl = \<lparr>mac_addr = [], if_name = [], desc = None, un = 0,
     q_type = HAL_INTF_INFO_UNSET, int_type = nas_int_type_PORT, int_sub_type = 0,
     vrf_id = 0, vrf_name = [], if_index = 0, npu_id = 0, tap_id = 0, sub_interface = 0,
     l3_info = \<lparr>l3_vrf_id = 0, l3_if_index = 0\<rparr>\<rparr>"

section \<open>The table\<close>

text \<open>
  The globals \<open>if_name_map\<close>, \<open>if_records\<close>, \<open>if_mappings\<close> and \<open>if_indexes\<close>, with the heap
  blocks of the records and of the descriptions. \<open>next_addr\<close> is the address the next \<open>new\<close>
  returns.
\<close>

record if_db =
  rec_heap :: "addr \<rightharpoonup> interface_ctrl"
  desc_heap :: "addr \<rightharpoonup> string"
  next_addr :: addr
  if_records :: "addr set"
  if_mappings :: "intf_info \<Rightarrow> u64 \<rightharpoonup> addr"
  if_name_map :: "string \<rightharpoonup> addr"
  if_indexes :: "int list"

definition empty_db :: if_db where
  "empty_db = \<lparr>rec_heap = Map.empty, desc_heap = Map.empty, next_addr = 0,
     if_records = {}, if_mappings = (\<lambda>_. Map.empty), if_name_map = Map.empty,
     if_indexes = []\<rparr>"

definition INVALID_KEY :: u64 where
  "INVALID_KEY = - 1"

definition has_key :: "intf_info list" where
  "has_key = [HAL_INTF_INFO_FROM_PORT, HAL_INTF_INFO_FROM_IF, HAL_INTF_INFO_FROM_TAP,
     HAL_INTF_INFO_FROM_VLAN, HAL_INTF_INFO_FROM_LAG, HAL_INTF_INFO_FROM_BRIDGE_ID]"

definition all_queries :: "intf_info list" where
  "all_queries = [HAL_INTF_INFO_FROM_PORT, HAL_INTF_INFO_FROM_IF, HAL_INTF_INFO_FROM_TAP,
     HAL_INTF_INFO_FROM_IF_NAME, HAL_INTF_INFO_FROM_VLAN, HAL_INTF_INFO_FROM_LAG,
     HAL_INTF_INFO_FROM_BRIDGE_ID]"

definition mk_key2 :: "u32 \<Rightarrow> u32 \<Rightarrow> u64" where
  "mk_key2 lhs rhs = or (push_bit 32 (ucast lhs)) (ucast rhs)"

fun query_valid :: "intf_info \<Rightarrow> nas_int_type \<Rightarrow> bool" where
  "query_valid HAL_INTF_INFO_FROM_IF _ = True"
| "query_valid HAL_INTF_INFO_FROM_IF_NAME _ = True"
| "query_valid HAL_INTF_INFO_FROM_PORT t =
     (t = nas_int_type_PORT \<or> t = nas_int_type_CPU \<or> t = nas_int_type_FC)"
| "query_valid HAL_INTF_INFO_FROM_TAP t =
     (t = nas_int_type_PORT \<or> t = nas_int_type_CPU \<or> t = nas_int_type_FC)"
| "query_valid HAL_INTF_INFO_FROM_VLAN t = (t = nas_int_type_VLAN)"
| "query_valid HAL_INTF_INFO_FROM_LAG t = (t = nas_int_type_LAG)"
| "query_valid HAL_INTF_INFO_FROM_BRIDGE_ID t = (t = nas_int_type_DOT1D_BRIDGE)"
| "query_valid HAL_INTF_INFO_UNSET _ = False"

text \<open>\<open>tap_id\<close> is an \<open>int\<close>, so its conversion to \<open>uint64_t\<close> extends the sign.\<close>

fun mk_key :: "intf_info \<Rightarrow> interface_ctrl \<Rightarrow> u64" where
  "mk_key HAL_INTF_INFO_FROM_PORT r =
     (if port_mapped r then mk_key2 (npu_id r) (port_id r) else INVALID_KEY)"
| "mk_key HAL_INTF_INFO_FROM_LAG r = lag_id r"
| "mk_key HAL_INTF_INFO_FROM_VLAN r = ucast (vlan_id r)"
| "mk_key HAL_INTF_INFO_FROM_IF r = mk_key2 (vrf_id r) (if_index r)"
| "mk_key HAL_INTF_INFO_FROM_TAP r =
     (if port_mapped r then scast (tap_id r) else INVALID_KEY)"
| "mk_key HAL_INTF_INFO_FROM_BRIDGE_ID r = bridge_id r"
| "mk_key _ r = INVALID_KEY"

definition locate :: "intf_info \<Rightarrow> interface_ctrl \<Rightarrow> if_db \<Rightarrow> addr option" where
  "locate t r db =
     (if \<not> query_valid t (int_type r) then None
      else if t = HAL_INTF_INFO_FROM_IF_NAME then if_name_map db (if_name r)
      else if mk_key t r = INVALID_KEY then None
      else if_mappings db t (mk_key t r))"

text \<open>The first hit over a list of query types, as both callers loop.\<close>

fun locate_first :: "intf_info list \<Rightarrow> interface_ctrl \<Rightarrow> if_db \<Rightarrow> addr option" where
  "locate_first [] r db = None"
| "locate_first (t # ts) r db =
     (case locate t r db of Some a \<Rightarrow> Some a | None \<Rightarrow> locate_first ts r db)"

text \<open>\<open>if (rec->vrf_id == 0) if_indexes.insert (rec->if_index)\<close>.\<close>

definition add_index :: "interface_ctrl \<Rightarrow> if_db \<Rightarrow> if_db" where
  "add_index r db =
     (if vrf_id r = 0 then db\<lparr>if_indexes := oset_insert (sint (if_index r)) (if_indexes db)\<rparr>
      else db)"

definition add_entry :: "intf_info \<Rightarrow> addr \<Rightarrow> interface_ctrl \<Rightarrow> if_db \<Rightarrow> bool \<times> if_db" where
  "add_entry t a r db =
     (if \<not> query_valid t (int_type r) then (False, db)
      else if t = HAL_INTF_INFO_FROM_IF_NAME then
        (if if_name r = [] then (False, db)
         else (True, add_index r (db\<lparr>if_name_map := (if_name_map db)(if_name r \<mapsto> a)\<rparr>)))
      else if mk_key t r = INVALID_KEY then (False, db)
      else (True, add_index r
             (db\<lparr>if_mappings := (if_mappings db)(t := (if_mappings db t)(mk_key t r \<mapsto> a))\<rparr>)))"

fun add_entries :: "intf_info list \<Rightarrow> addr \<Rightarrow> interface_ctrl \<Rightarrow> bool \<Rightarrow> if_db \<Rightarrow> bool \<times> if_db" where
  "add_entries [] a r added db = (added, db)"
| "add_entries (t # ts) a r added db =
     (case add_entry t a r db of (b, db') \<Rightarrow> add_entries ts a r (added \<or> b) db')"

definition erase_key :: "intf_info \<Rightarrow> interface_ctrl \<Rightarrow> if_db \<Rightarrow> if_db" where
  "erase_key t r db =
     (if \<not> query_valid t (int_type r) then db
      else if mk_key t r = INVALID_KEY then db
      else db\<lparr>if_mappings := (if_mappings db)(t := (if_mappings db t)(mk_key t r := None))\<rparr>)"

fun erase_keys :: "intf_info list \<Rightarrow> interface_ctrl \<Rightarrow> if_db \<Rightarrow> if_db" where
  "erase_keys [] r db = db"
| "erase_keys (t # ts) r db = erase_keys ts r (erase_key t r db)"

text \<open>\<open>delete []\<close> of a description pointer: nothing for \<open>NULL\<close>, a fault for a freed block.\<close>

definition delete_desc :: "addr option \<Rightarrow> (addr \<rightharpoonup> string) \<Rightarrow> fault + (addr \<rightharpoonup> string)" where
  "delete_desc p h =
     (case p of None \<Rightarrow> Inr h
      | Some a \<Rightarrow> (case h a of None \<Rightarrow> Inl Double_Free | Some _ \<Rightarrow> Inr (h(a := None))))"

definition cleanup :: "interface_ctrl option \<Rightarrow> if_db \<Rightarrow> fault + if_db" where
  "cleanup p db =
     (case p of None \<Rightarrow> Inr db
      | Some r \<Rightarrow>
        (case locate_first all_queries r db of None \<Rightarrow> Inr db
         | Some a \<Rightarrow>
           (case rec_heap db a of None \<Rightarrow> Inl Use_After_Free
            | Some r' \<Rightarrow>
              (let db1 = erase_keys has_key r' db;
                   db2 = (if if_name r' \<noteq> []
                          then db1\<lparr>if_name_map := (if_name_map db1)(if_name r' := None)\<rparr>
                          else db1)
               in case delete_desc (desc r') (desc_heap db2) of Inl f \<Rightarrow> Inl f
                  | Inr h \<Rightarrow>
                    (let db3 = db2\<lparr>desc_heap := h, if_records := if_records db2 - {a}\<rparr>;
                         db4 = (if vrf_id r = 0
                                then db3\<lparr>if_indexes :=
                                       oset_erase (sint (if_index r')) (if_indexes db3)\<rparr>
                                else db3)
                     in Inr (db4\<lparr>rec_heap := (rec_heap db4)(a := None)\<rparr>))))))"


section \<open>Operations\<close>

text \<open>
  \<open>dn_hal_if_register\<close>. \<open>mem_ok\<close> is whether \<open>new (std::nothrow)\<close> returns a block; a record
  that no query type can index is taken out again and its block freed.
\<close>

definition dn_hal_if_register ::
  "bool \<Rightarrow> hal_intf_reg_op_type \<Rightarrow> interface_ctrl option \<Rightarrow> if_db \<Rightarrow> fault + (t_std_error \<times> if_db)"
where
  "dn_hal_if_register mem_ok reg_opt detail db =
     (if reg_opt = HAL_INTF_OP_DEREG then
        (case cleanup detail db of Inl f \<Rightarrow> Inl f | Inr db' \<Rightarrow> Inr (STD_ERR_OK, db'))
      else case detail of None \<Rightarrow> Inl Null_Deref
      | Some d \<Rightarrow>
        (if locate_first all_queries d db \<noteq> None
         then Inr (STD_ERR INTERFACE PARAM (Priv 0), db)
         else if \<not> mem_ok then Inr (STD_ERR INTERFACE PARAM (Priv 0), db)
         else
           (let p = next_addr db;
                db1 = db\<lparr>next_addr := p + 1, rec_heap := (rec_heap db)(p \<mapsto> d),
                         if_records := insert p (if_records db)\<rparr>
            in case add_entries all_queries p d False db1 of (added, db2) \<Rightarrow>
                 (if added then Inr (STD_ERR_OK, db2)
                  else Inr (STD_ERR INTERFACE PARAM (Priv 0),
                            db2\<lparr>if_records := if_records db2 - {p},
                                rec_heap := (rec_heap db2)(p := None)\<rparr>)))))"

text \<open>
  The query's structure is updated in place: \<open>port_mapped\<close> is set first for a port query, also
  when the lookup then fails; on a hit the whole record is copied over it.
\<close>

definition dn_hal_get_interface_info ::
  "interface_ctrl option \<Rightarrow> if_db \<Rightarrow> fault + (t_std_error \<times> interface_ctrl)" where
  "dn_hal_get_interface_info p db =
     (case p of None \<Rightarrow> Inl Assert_Fail
      | Some q0 \<Rightarrow>
        (let q = (if q_type q0 = HAL_INTF_INFO_FROM_PORT then set_port_mapped q0 else q0)
         in case locate (q_type q) q db of
              None \<Rightarrow> Inr (STD_ERR INTERFACE PARAM (Priv 0), q)
            | Some a \<Rightarrow>
              (case rec_heap db a of None \<Rightarrow> Inl Use_After_Free
               | Some r \<Rightarrow> Inr (STD_ERR_OK, r))))"

text \<open>
  \<open>dn_hal_get_next_ifindex\<close>: without an argument the first element, which is a dereference of
  \<open>end ()\<close> when there is none. The result is the code and what \<open>*next_ifindex\<close> is set to.
\<close>

definition dn_hal_get_next_ifindex ::
  "i32 option \<Rightarrow> if_db \<Rightarrow> fault + (t_std_error \<times> int option)" where
  "dn_hal_get_next_ifindex ifindex db =
     (case ifindex of
        None \<Rightarrow> (case if_indexes db of [] \<Rightarrow> Inl End_Iterator | i # _ \<Rightarrow> Inr (STD_ERR_OK, Some i))
      | Some i \<Rightarrow>
        (case oset_upper_bound (sint i) (if_indexes db) of
           Some j \<Rightarrow> Inr (STD_ERR_OK, Some j)
         | None \<Rightarrow> Inr (STD_ERR INTERFACE PARAM (Priv 0), None)))"

text \<open>The static \<open>dn_hal_update_interface\<close> writes the MAC address and nothing else.\<close>

definition dn_hal_update_interface ::
  "strcopy \<Rightarrow> interface_ctrl option \<Rightarrow> if_db \<Rightarrow> fault + (t_std_error \<times> if_db)" where
  "dn_hal_update_interface cpy p db =
     (case p of None \<Rightarrow> Inl Assert_Fail
      | Some q \<Rightarrow>
        (case locate (q_type q) q db of
           None \<Rightarrow> Inr (STD_ERR INTERFACE PARAM (Priv 0), db)
         | Some a \<Rightarrow>
           (case rec_heap db a of None \<Rightarrow> Inl Use_After_Free
            | Some r \<Rightarrow>
              Inr (STD_ERR_OK,
                   db\<lparr>rec_heap := (rec_heap db)
                        (a \<mapsto> r\<lparr>mac_addr := cpy (mac_addr q) MAC_STR_SZ\<rparr>)\<rparr>))))"

definition dn_hal_update_intf_mac ::
  "strcopy \<Rightarrow> i32 \<Rightarrow> string \<Rightarrow> if_db \<Rightarrow> fault + (t_std_error \<times> if_db)" where
  "dn_hal_update_intf_mac cpy ifx mac db =
     dn_hal_update_interface cpy
       (Some (zero_ctrl\<lparr>if_index := ifx, q_type := HAL_INTF_INFO_FROM_IF,
                        mac_addr := cpy mac MAC_STR_SZ\<rparr>)) db"

definition nas_cmn_update_router_intf_info ::
  "u32 \<Rightarrow> i32 \<Rightarrow> l3_intf_info option \<Rightarrow> if_db \<Rightarrow> fault + (t_std_error \<times> if_db)" where
  "nas_cmn_update_router_intf_info vrf ifx info db =
     (case info of None \<Rightarrow> Inl Assert_Fail
      | Some i \<Rightarrow>
        (let q = zero_ctrl\<lparr>vrf_id := vrf, if_index := ifx, q_type := HAL_INTF_INFO_FROM_IF\<rparr>
         in case locate (q_type q) q db of
              None \<Rightarrow> Inr (STD_ERR INTERFACE PARAM (Priv 0), db)
            | Some a \<Rightarrow>
              (case rec_heap db a of None \<Rightarrow> Inl Use_After_Free
               | Some r \<Rightarrow>
                 Inr (STD_ERR_OK,
                      db\<lparr>rec_heap := (rec_heap db)(a \<mapsto> r\<lparr>l3_info := i\<rparr>)\<rparr>))))"

text \<open>\<open>isalnum\<close> of the C locale.\<close>

definition isalnum :: "char \<Rightarrow> bool" where
  "isalnum c \<longleftrightarrow> (let n = of_char c :: nat
     in 48 \<le> n \<and> n \<le> 57 \<or> 65 \<le> n \<and> n \<le> 90 \<or> 97 \<le> n \<and> n \<le> 122)"

text \<open>
  \<open>dn_hal_update_intf_desc\<close>. \<open>mem_ok\<close> is whether \<open>new char[]\<close> succeeds. When it throws, the old
  block has been deleted and the record still points to it.
\<close>

definition dn_hal_update_intf_desc ::
  "strcopy \<Rightarrow> bool \<Rightarrow> interface_ctrl option \<Rightarrow> string option \<Rightarrow> if_db
     \<Rightarrow> fault + (t_std_error \<times> if_db)" where
  "dn_hal_update_intf_desc cpy mem_ok p dsc db =
     (case dsc of None \<Rightarrow> Inl Assert_Fail
      | Some s \<Rightarrow>
      case p of None \<Rightarrow> Inl Assert_Fail
      | Some q \<Rightarrow>
        (if length s > MAX_INTF_DESC_LEN then Inr (STD_ERR INTERFACE PARAM (Priv 0), db)
         else case locate (q_type q) q db of
           None \<Rightarrow> Inr (STD_ERR INTERFACE PARAM (Priv 0), db)
         | Some a \<Rightarrow>
           (case rec_heap db a of None \<Rightarrow> Inl Use_After_Free
            | Some r \<Rightarrow>
              (case delete_desc (desc r) (desc_heap db) of Inl f \<Rightarrow> Inl f
               | Inr h \<Rightarrow>
                 (let db1 = db\<lparr>desc_heap := h\<rparr>
                  in if s = [] \<or> \<not> isalnum (hd s) then
                       Inr (STD_ERR_OK, db1\<lparr>rec_heap := (rec_heap db1)(a \<mapsto> r\<lparr>desc := None\<rparr>)\<rparr>)
                     else if \<not> mem_ok then
                       Inr (STD_ERR INTERFACE PARAM (Priv 0), db1)
                     else
                       (let d = next_addr db1
                        in Inr (STD_ERR_OK,
                             db1\<lparr>next_addr := d + 1,
                                 desc_heap := (desc_heap db1)(d \<mapsto> cpy s (length s + 1)),
                                 rec_heap := (rec_heap db1)(a \<mapsto> r\<lparr>desc := Some d\<rparr>)\<rparr>)))))))"

end
