(* ===== verification/IfTypes.thy ===== *)
theory IfTypes
  imports IfMapping
begin

text \<open>
  The conversions between the interface types of \<open>src/src/hal_if_mapping.cpp\<close>: the internal
  enumeration, the names of the IETF model and the types of the operating system model. The
  names are macros of generated headers and are a parameter, one field per macro; that they are
  different is the hypothesis of the properties.
\<close>

datatype base_cmn_type =
    BASE_CMN_INTERFACE_TYPE_CPU
  | BASE_CMN_INTERFACE_TYPE_L3_PORT
  | BASE_CMN_INTERFACE_TYPE_VLAN
  | BASE_CMN_INTERFACE_TYPE_LAG
  | BASE_CMN_INTERFACE_TYPE_LOOPBACK
  | BASE_CMN_INTERFACE_TYPE_MACVLAN
  | BASE_CMN_INTERFACE_TYPE_MANAGEMENT
  | BASE_CMN_INTERFACE_TYPE_VXLAN
  | BASE_CMN_INTERFACE_TYPE_VLAN_SUBINTF

record ietf_names =
  BASE_IF_CPU :: string
  IANAIFT_ETHERNETCSMACD :: string
  IANAIFT_L2VLAN :: string
  IANAIFT_IEEE8023ADLAG :: string
  IANAIFT_SOFTWARELOOPBACK :: string
  IANAIFT_FIBRECHANNEL :: string
  BASE_IF_MACVLAN :: string
  BASE_IF_MANAGEMENT :: string
  BASE_IF_VXLAN :: string
  BASE_IF_VLANSUBINTERFACE :: string
  BASE_IF_VIRTUALNETWORK :: string

text \<open>The three tables, with the rows in the order of the code.\<close>

definition nas_to_ietf_if_types :: "ietf_names \<Rightarrow> nas_int_type \<rightharpoonup> string" where
  "nas_to_ietf_if_types N = map_of
     [(nas_int_type_CPU, BASE_IF_CPU N),
      (nas_int_type_PORT, IANAIFT_ETHERNETCSMACD N),
      (nas_int_type_VLAN, IANAIFT_L2VLAN N),
      (nas_int_type_LAG, IANAIFT_IEEE8023ADLAG N),
      (nas_int_type_LPBK, IANAIFT_SOFTWARELOOPBACK N),
      (nas_int_type_FC, IANAIFT_FIBRECHANNEL N),
      (nas_int_type_MACVLAN, BASE_IF_MACVLAN N),
      (nas_int_type_MGMT, BASE_IF_MANAGEMENT N),
      (nas_int_type_VXLAN, BASE_IF_VXLAN N),
      (nas_int_type_VLANSUB_INTF, BASE_IF_VLANSUBINTERFACE N),
      (nas_int_type_DOT1D_BRIDGE, BASE_IF_VIRTUALNETWORK N)]"

definition ietf_to_nas_types :: "ietf_names \<Rightarrow> string \<rightharpoonup> nas_int_type" where
  "ietf_to_nas_types N = map_of
     [(BASE_IF_CPU N, nas_int_type_CPU),
      (IANAIFT_ETHERNETCSMACD N, nas_int_type_PORT),
      (IANAIFT_L2VLAN N, nas_int_type_VLAN),
      (IANAIFT_IEEE8023ADLAG N, nas_int_type_LAG),
      (IANAIFT_SOFTWARELOOPBACK N, nas_int_type_LPBK),
      (IANAIFT_FIBRECHANNEL N, nas_int_type_FC),
      (BASE_IF_MACVLAN N, nas_int_type_MACVLAN),
      (BASE_IF_MANAGEMENT N, nas_int_type_MGMT),
      (BASE_IF_VXLAN N, nas_int_type_VXLAN),
      (BASE_IF_VLANSUBINTERFACE N, nas_int_type_VLANSUB_INTF),
      (BASE_IF_VIRTUALNETWORK N, nas_int_type_DOT1D_BRIDGE)]"

definition ietf_to_nas_os_types :: "ietf_names \<Rightarrow> string \<rightharpoonup> base_cmn_type" where
  "ietf_to_nas_os_types N = map_of
     [(BASE_IF_CPU N, BASE_CMN_INTERFACE_TYPE_CPU),
      (IANAIFT_ETHERNETCSMACD N, BASE_CMN_INTERFACE_TYPE_L3_PORT),
      (IANAIFT_L2VLAN N, BASE_CMN_INTERFACE_TYPE_VLAN),
      (IANAIFT_IEEE8023ADLAG N, BASE_CMN_INTERFACE_TYPE_LAG),
      (IANAIFT_SOFTWARELOOPBACK N, BASE_CMN_INTERFACE_TYPE_LOOPBACK),
      (IANAIFT_FIBRECHANNEL N, BASE_CMN_INTERFACE_TYPE_L3_PORT),
      (BASE_IF_MACVLAN N, BASE_CMN_INTERFACE_TYPE_MACVLAN),
      (BASE_IF_MANAGEMENT N, BASE_CMN_INTERFACE_TYPE_MANAGEMENT),
      (BASE_IF_VXLAN N, BASE_CMN_INTERFACE_TYPE_VXLAN),
      (BASE_IF_VLANSUBINTERFACE N, BASE_CMN_INTERFACE_TYPE_VLAN_SUBINTF)]"

text \<open>What is written to the output argument; \<open>out\<close> is whether it is not \<open>NULL\<close>.\<close>

definition nas_to_ietf_if_type_get ::
  "ietf_names \<Rightarrow> strcopy \<Rightarrow> bool \<Rightarrow> nas_int_type \<Rightarrow> nat \<Rightarrow> bool \<times> string option" where
  "nas_to_ietf_if_type_get N cpy out if_type sz =
     (case nas_to_ietf_if_types N if_type of
        None \<Rightarrow> (False, None)
      | Some name \<Rightarrow> if \<not> out then (False, None) else (True, Some (cpy name sz)))"

definition ietf_to_nas_if_type_get :: "ietf_names \<Rightarrow> string \<Rightarrow> bool \<times> nas_int_type option" where
  "ietf_to_nas_if_type_get N ietf_type =
     (case ietf_to_nas_types N ietf_type of None \<Rightarrow> (False, None) | Some t \<Rightarrow> (True, Some t))"

definition ietf_to_nas_os_if_type_get :: "ietf_names \<Rightarrow> string \<Rightarrow> bool \<times> base_cmn_type option" where
  "ietf_to_nas_os_if_type_get N ietf_type =
     (case ietf_to_nas_os_types N ietf_type of None \<Rightarrow> (False, None) | Some t \<Rightarrow> (True, Some t))"

section \<open>Round trip\<close>

definition all_names :: "ietf_names \<Rightarrow> string list" where
  "all_names N = [BASE_IF_CPU N, IANAIFT_ETHERNETCSMACD N, IANAIFT_L2VLAN N, IANAIFT_IEEE8023ADLAG N,
     IANAIFT_SOFTWARELOOPBACK N, IANAIFT_FIBRECHANNEL N, BASE_IF_MACVLAN N, BASE_IF_MANAGEMENT N,
     BASE_IF_VXLAN N, BASE_IF_VLANSUBINTERFACE N, BASE_IF_VIRTUALNETWORK N]"

lemma map_of_swap:
  assumes "distinct (map fst ps)" "distinct (map snd ps)"
  shows "map_of (map prod.swap ps) b = Some a \<longleftrightarrow> map_of ps a = Some b"
proof -
  have d: "distinct (map fst (map prod.swap ps))" using assms(2) by (simp add: comp_def)
  have "map_of (map prod.swap ps) b = Some a \<longleftrightarrow> (b, a) \<in> set (map prod.swap ps)"
    by (rule map_of_eq_Some_iff [OF d])
  also have "\<dots> \<longleftrightarrow> (a, b) \<in> set ps" by auto
  also have "\<dots> \<longleftrightarrow> map_of ps a = Some b"
    by (rule map_of_eq_Some_iff [OF assms(1), symmetric])
  finally show ?thesis .
qed

lemma ietf_nas_inverse:
  assumes "distinct (all_names N)"
  shows "ietf_to_nas_types N name = Some t \<longleftrightarrow> nas_to_ietf_if_types N t = Some name"
proof -
  let ?ps = "[(nas_int_type_CPU, BASE_IF_CPU N), (nas_int_type_PORT, IANAIFT_ETHERNETCSMACD N),
      (nas_int_type_VLAN, IANAIFT_L2VLAN N), (nas_int_type_LAG, IANAIFT_IEEE8023ADLAG N),
      (nas_int_type_LPBK, IANAIFT_SOFTWARELOOPBACK N), (nas_int_type_FC, IANAIFT_FIBRECHANNEL N),
      (nas_int_type_MACVLAN, BASE_IF_MACVLAN N), (nas_int_type_MGMT, BASE_IF_MANAGEMENT N),
      (nas_int_type_VXLAN, BASE_IF_VXLAN N), (nas_int_type_VLANSUB_INTF, BASE_IF_VLANSUBINTERFACE N),
      (nas_int_type_DOT1D_BRIDGE, BASE_IF_VIRTUALNETWORK N)]"
  have "distinct (map fst ?ps)" by simp
  moreover have "distinct (map snd ?ps)" using assms by (simp only: list.map snd_conv all_names_def)
  ultimately have "map_of (map prod.swap ?ps) name = Some t \<longleftrightarrow> map_of ?ps t = Some name"
    by (rule map_of_swap)
  then show ?thesis
    by (simp only: ietf_to_nas_types_def nas_to_ietf_if_types_def list.map swap_simp)
qed

lemma nas_to_ietf_total: "(\<exists>name. nas_to_ietf_if_types N t = Some name) \<longleftrightarrow> t \<noteq> nas_int_type_INVALID"
  by (cases t) (simp_all add: nas_to_ietf_if_types_def)

text \<open>Every internal interface type but the invalid one has a name, and the conversions are
  inverse to each other: a name that is written into a buffer large enough for it converts back to
  the type, and the type that a name converts to gives the name. For the operating system types
  this fails: fibre channel and Ethernet names are the same type, and the name of a 1D bridge,
  which the internal tables know, has none.\<close>

theorem if_type_names_round_trip:
  assumes "distinct (all_names N)" and "safestrncpy_spec cpy"
  shows "(t \<noteq> nas_int_type_INVALID \<longleftrightarrow> fst (nas_to_ietf_if_type_get N cpy True t sz)) \<and>
    (nas_to_ietf_if_type_get N cpy True t sz = (True, Some name) \<and> length name + 1 < sz \<longrightarrow>
       ietf_to_nas_if_type_get N name = (True, Some t)) \<and>
    (ietf_to_nas_if_type_get N name = (True, Some t) \<and> length name < sz \<longrightarrow>
       nas_to_ietf_if_type_get N cpy True t sz = (True, Some name)) \<and>
    ietf_to_nas_os_if_type_get N (IANAIFT_FIBRECHANNEL N) =
      ietf_to_nas_os_if_type_get N (IANAIFT_ETHERNETCSMACD N) \<and>
    ietf_to_nas_os_if_type_get N (BASE_IF_VIRTUALNETWORK N) = (False, None)"
proof (intro conjI impI)
  show "t \<noteq> nas_int_type_INVALID \<longleftrightarrow> fst (nas_to_ietf_if_type_get N cpy True t sz)"
    using nas_to_ietf_total [of N t] by (auto simp: nas_to_ietf_if_type_get_def split: option.split)
next
  assume a: "nas_to_ietf_if_type_get N cpy True t sz = (True, Some name) \<and> length name + 1 < sz"
  then obtain full where full: "nas_to_ietf_if_types N t = Some full" "name = cpy full sz"
    by (auto simp: nas_to_ietf_if_type_get_def split: option.splits)
  have "name = take (sz - 1) full"
    using a full(2) assms(2) by (auto simp: safestrncpy_spec_def)
  with a have "name = full" by (cases "length full < sz") auto
  with full(1) show "ietf_to_nas_if_type_get N name = (True, Some t)"
    by (simp add: ietf_to_nas_if_type_get_def ietf_nas_inverse [OF assms(1), symmetric])
next
  assume "ietf_to_nas_if_type_get N name = (True, Some t) \<and> length name < sz"
  then show "nas_to_ietf_if_type_get N cpy True t sz = (True, Some name)"
    using safestrncpy_fits [OF assms(2)] ietf_nas_inverse [OF assms(1), of name t]
    by (auto simp: nas_to_ietf_if_type_get_def ietf_to_nas_if_type_get_def split: option.splits)
qed (use assms(1) in \<open>auto simp: ietf_to_nas_os_if_type_get_def ietf_to_nas_os_types_def all_names_def\<close>)

definition sample_names :: ietf_names where
  "sample_names = \<lparr>BASE_IF_CPU = ''cpu'', IANAIFT_ETHERNETCSMACD = ''ethernet'',
     IANAIFT_L2VLAN = ''l2vlan'', IANAIFT_IEEE8023ADLAG = ''lag'', IANAIFT_SOFTWARELOOPBACK = ''lo'',
     IANAIFT_FIBRECHANNEL = ''fc'', BASE_IF_MACVLAN = ''macvlan'', BASE_IF_MANAGEMENT = ''mgmt'',
     BASE_IF_VXLAN = ''vxlan'', BASE_IF_VLANSUBINTERFACE = ''vlansub'', BASE_IF_VIRTUALNETWORK = ''vnet''\<rparr>"

theorem if_type_names_round_trip_witness:
  "nas_to_ietf_if_type_get sample_names trunc_copy True nas_int_type_LAG 64 = (True, Some ''lag'') \<and>
   ietf_to_nas_if_type_get sample_names ''lag'' = (True, Some nas_int_type_LAG)"
proof -
  have "distinct (all_names sample_names)"
    by (simp add: all_names_def sample_names_def)
  moreover have "nas_to_ietf_if_type_get sample_names trunc_copy True nas_int_type_LAG 64 =
      (True, Some ''lag'')"
    by (simp add: nas_to_ietf_if_type_get_def nas_to_ietf_if_types_def sample_names_def trunc_copy_def)
  ultimately show ?thesis
    using if_type_names_round_trip [of sample_names trunc_copy nas_int_type_LAG 64 "''lag''"]
    by simp
qed

end
