(* ===== verification/IfMappingInv.thy ===== *)
theory IfMappingInv
  imports IfMapping
begin

text \<open>
  The invariant of the interface table and that every operation keeps it. The maps by key and
  the map by name are read as one index, so that the invariant is an equation: a query type and
  a key lead to an address exactly when a live record at that address has that key.
\<close>

section \<open>One index\<close>

text \<open>A record's key under a query type: its name or its number, if it has one there.\<close>

definition rec_key :: "intf_info \<Rightarrow> interface_ctrl \<Rightarrow> (string + u64) option" where
  "rec_key t r =
     (if \<not> query_valid t (int_type r) then None
      else if t = HAL_INTF_INFO_FROM_IF_NAME
           then (if if_name r = [] then None else Some (Inl (if_name r)))
      else if mk_key t r = INVALID_KEY then None
      else Some (Inr (mk_key t r)))"

definition index_of :: "if_db \<Rightarrow> intf_info \<Rightarrow> string + u64 \<Rightarrow> addr option" where
  "index_of db t k =
     (case k of
        Inl n \<Rightarrow> if t = HAL_INTF_INFO_FROM_IF_NAME then if_name_map db n else None
      | Inr w \<Rightarrow> if t = HAL_INTF_INFO_FROM_IF_NAME then None else if_mappings db t w)"

lemma index_of_frame [simp]:
  "index_of (db\<lparr>rec_heap := x\<rparr>) = index_of db"
  "index_of (db\<lparr>desc_heap := x2\<rparr>) = index_of db"
  "index_of (db\<lparr>next_addr := x3\<rparr>) = index_of db"
  "index_of (db\<lparr>if_records := x4\<rparr>) = index_of db"
  "index_of (db\<lparr>if_indexes := x5\<rparr>) = index_of db"
  by (auto simp: index_of_def fun_eq_iff split: sum.split)

lemma rec_key_all_queries: "rec_key t r \<noteq> None \<Longrightarrow> t \<in> set all_queries"
  by (cases t) (auto simp: rec_key_def all_queries_def)

lemma rec_key_cong:
  assumes "un r' = un r" "int_type r' = int_type r" "vrf_id r' = vrf_id r"
    "if_index r' = if_index r" "npu_id r' = npu_id r" "tap_id r' = tap_id r"
    "if_name r' = if_name r"
  shows "rec_key t r' = rec_key t r"
  using assms
  by (cases t) (auto simp: rec_key_def port_mapped_def port_id_def vlan_id_def
      lag_id_def bridge_id_def)

lemma rec_key_frame [simp]:
  "rec_key t (r\<lparr>mac_addr := m\<rparr>) = rec_key t r"
  "rec_key t (r\<lparr>desc := d\<rparr>) = rec_key t r"
  "rec_key t (r\<lparr>l3_info := i\<rparr>) = rec_key t r"
  "rec_key t (r\<lparr>q_type := q\<rparr>) = rec_key t r"
  by (rule rec_key_cong; simp)+

subsection \<open>What the loops do to the index\<close>

lemma add_entry_fst: "fst (add_entry t a r db) \<longleftrightarrow> rec_key t r \<noteq> None"
  by (simp add: add_entry_def rec_key_def)

lemma add_index_frame [simp]:
  "if_mappings (add_index r db) = if_mappings db"
  "if_name_map (add_index r db) = if_name_map db"
  "index_of (add_index r db) = index_of db"
  by (simp_all add: add_index_def)

lemma add_entry_index_of:
  "index_of (snd (add_entry t a r db)) t' k =
     (if t' = t \<and> rec_key t r = Some k then Some a else index_of db t' k)"
  by (auto simp: add_entry_def rec_key_def index_of_def split: sum.split)

definition same_but_index :: "if_db \<Rightarrow> if_db \<Rightarrow> bool" where
  "same_but_index db db' \<longleftrightarrow>
     rec_heap db' = rec_heap db \<and> desc_heap db' = desc_heap db \<and>
     next_addr db' = next_addr db \<and> if_records db' = if_records db"

lemma same_but_index_refl [simp]: "same_but_index db db"
  by (simp add: same_but_index_def)

lemma same_but_index_trans:
  "same_but_index a b \<Longrightarrow> same_but_index b c \<Longrightarrow> same_but_index a c"
  by (simp add: same_but_index_def)

lemma add_entry_same: "same_but_index db (snd (add_entry t a r db))"
  by (simp add: same_but_index_def add_entry_def add_index_def)

lemma add_entry_indexes:
  "if_indexes (snd (add_entry t a r db)) =
     (if rec_key t r \<noteq> None \<and> vrf_id r = 0
      then oset_insert (sint (if_index r)) (if_indexes db) else if_indexes db)"
  by (simp add: add_entry_def rec_key_def add_index_def)

lemma add_entries_Cons:
  "add_entries (t # ts) a r added db =
     add_entries ts a r (added \<or> fst (add_entry t a r db)) (snd (add_entry t a r db))"
  by (simp add: case_prod_beta)

declare add_entries.simps(2) [simp del]

lemma add_entries_fst:
  "fst (add_entries ts a r b db) \<longleftrightarrow> b \<or> (\<exists>t \<in> set ts. rec_key t r \<noteq> None)"
  by (induction ts arbitrary: b db)
    (auto simp: add_entries_Cons add_entry_fst)

lemma add_entries_index_of:
  "index_of (snd (add_entries ts a r b db)) t' k =
     (if t' \<in> set ts \<and> rec_key t' r = Some k then Some a else index_of db t' k)"
  by (induction ts arbitrary: b db)
    (auto simp: add_entries_Cons add_entry_index_of)

lemma add_entries_same: "same_but_index db (snd (add_entries ts a r b db))"
  by (induction ts arbitrary: b db)
    (auto simp: add_entries_Cons
      intro: same_but_index_trans [OF add_entry_same])

lemma add_entries_indexes:
  "set (if_indexes (snd (add_entries ts a r b db))) =
     set (if_indexes db) \<union>
     (if vrf_id r = 0 \<and> (\<exists>t \<in> set ts. rec_key t r \<noteq> None) then {sint (if_index r)} else {})"
  by (induction ts arbitrary: b db)
    (auto simp: add_entries_Cons add_entry_indexes oset_simps)

lemma add_entries_oset:
  "oset (if_indexes db) \<Longrightarrow> oset (if_indexes (snd (add_entries ts a r b db)))"
  by (induction ts arbitrary: b db)
    (auto simp: add_entries_Cons add_entry_indexes oset_simps)

lemma erase_key_index_of:
  "index_of (erase_key t r db) t' k =
     (if t' = t \<and> t \<noteq> HAL_INTF_INFO_FROM_IF_NAME \<and> rec_key t r = Some k
      then None else index_of db t' k)"
  by (cases k) (auto simp: erase_key_def rec_key_def index_of_def)

lemma erase_key_same:
  "same_but_index db (erase_key t r db)" "if_indexes (erase_key t r db) = if_indexes db"
  by (simp_all add: erase_key_def same_but_index_def)

lemma erase_keys_index_of:
  "index_of (erase_keys ts r db) t' k =
     (if t' \<in> set ts \<and> t' \<noteq> HAL_INTF_INFO_FROM_IF_NAME \<and> rec_key t' r = Some k
      then None else index_of db t' k)"
  by (induction ts arbitrary: db) (auto simp: erase_key_index_of)

lemma erase_keys_same: "same_but_index db (erase_keys ts r db)"
  by (induction ts arbitrary: db) (auto intro: same_but_index_trans [OF erase_key_same(1)])

lemma erase_keys_indexes: "if_indexes (erase_keys ts r db) = if_indexes db"
  by (induction ts arbitrary: db) (auto simp: erase_key_same(2))

lemma locate_index:
  assumes "if_name_map db [] = None"
  shows "locate t r db = Option.bind (rec_key t r) (index_of db t)"
  using assms by (auto simp: locate_def rec_key_def index_of_def)

lemma locate_first_cases:
  "locate_first ts r db = None \<longleftrightarrow> (\<forall>t \<in> set ts. locate t r db = None)"
  "locate_first ts r db = Some a \<Longrightarrow> \<exists>t \<in> set ts. locate t r db = Some a"
  by (induction ts) (auto split: option.splits)


section \<open>The invariant\<close>

text \<open>
  \<open>table_inv\<close>: the record set is the set of live blocks, the index leads to exactly the live
  records under exactly their keys, every live record has a key, and \<open>new\<close> has not handed out
  any address from \<open>next_addr\<close> on. \<open>desc_inv\<close>: descriptions of live records are live blocks,
  each owned by one record. \<open>idx_inv\<close>: the ordered set holds the interface indexes of the
  records of the default VRF.
\<close>

definition table_inv :: "if_db \<Rightarrow> bool" where
  "table_inv db \<longleftrightarrow>
     if_records db = dom (rec_heap db) \<and>
     (\<forall>t k a. index_of db t k = Some a \<longleftrightarrow>
        (\<exists>r. rec_heap db a = Some r \<and> rec_key t r = Some k)) \<and>
     (\<forall>a r. rec_heap db a = Some r \<longrightarrow> (\<exists>t. rec_key t r \<noteq> None)) \<and>
     (\<forall>a \<in> dom (rec_heap db) \<union> dom (desc_heap db). a < next_addr db)"

definition desc_inv :: "if_db \<Rightarrow> bool" where
  "desc_inv db \<longleftrightarrow>
     (\<forall>a r d. rec_heap db a = Some r \<longrightarrow> desc r = Some d \<longrightarrow> d \<in> dom (desc_heap db)) \<and>
     (\<forall>a b r s d. rec_heap db a = Some r \<longrightarrow> rec_heap db b = Some s \<longrightarrow>
        desc r = Some d \<longrightarrow> desc s = Some d \<longrightarrow> a = b)"

definition idx_inv :: "if_db \<Rightarrow> bool" where
  "idx_inv db \<longleftrightarrow> oset (if_indexes db) \<and>
     (\<forall>x. x \<in> set (if_indexes db) \<longleftrightarrow>
        (\<exists>a r. rec_heap db a = Some r \<and> vrf_id r = 0 \<and> x = sint (if_index r)))"

definition db_inv :: "if_db \<Rightarrow> bool" where
  "db_inv db \<longleftrightarrow> table_inv db \<and> desc_inv db"

text \<open>Two structures agree on a key of a query type.\<close>

definition same_key :: "intf_info \<Rightarrow> interface_ctrl \<Rightarrow> interface_ctrl \<Rightarrow> bool" where
  "same_key t q r \<longleftrightarrow> rec_key t q \<noteq> None \<and> rec_key t r = rec_key t q"

lemma empty_db_inv: "table_inv empty_db" "desc_inv empty_db" "idx_inv empty_db"
  by (auto simp: table_inv_def desc_inv_def idx_inv_def empty_db_def index_of_def oset_simps
      split: sum.split)

lemma table_invD:
  assumes "table_inv db"
  shows table_inv_records: "if_records db = dom (rec_heap db)"
    and table_inv_index: "index_of db t k = Some a \<longleftrightarrow>
        (\<exists>r. rec_heap db a = Some r \<and> rec_key t r = Some k)"
    and table_inv_keyed: "rec_heap db a = Some r \<Longrightarrow> \<exists>t. rec_key t r \<noteq> None"
    and table_inv_fresh: "rec_heap db a = Some r \<Longrightarrow> a < next_addr db"
    and table_inv_fresh_desc: "desc_heap db a = Some s \<Longrightarrow> a < next_addr db"
  using assms unfolding table_inv_def by blast+

lemma table_inv_no_empty_name:
  assumes "table_inv db"
  shows "if_name_map db [] = None"
proof (rule ccontr)
  assume "if_name_map db [] \<noteq> None"
  then obtain a where "index_of db HAL_INTF_INFO_FROM_IF_NAME (Inl []) = Some a"
    by (auto simp: index_of_def)
  then obtain r where "rec_key HAL_INTF_INFO_FROM_IF_NAME r = Some (Inl [])"
    using assms by (auto simp: table_inv_index)
  then show False by (auto simp: rec_key_def split: if_splits)
qed

lemma table_inv_unique:
  assumes "table_inv db" "rec_heap db a = Some r" "rec_heap db b = Some s"
    "rec_key t r = Some k" "rec_key t s = Some k"
  shows "a = b"
proof -
  have "index_of db t k = Some a" "index_of db t k = Some b"
    using assms by (auto simp: table_inv_index)
  then show ?thesis by simp
qed

text \<open>The lookup in words of the live records.\<close>

lemma locate_Some_iff:
  assumes "table_inv db"
  shows "locate t q db = Some a \<longleftrightarrow> (\<exists>r. rec_heap db a = Some r \<and> same_key t q r)"
proof -
  have "locate t q db = Some a \<longleftrightarrow> (\<exists>k. rec_key t q = Some k \<and> index_of db t k = Some a)"
    by (simp add: locate_index table_inv_no_empty_name assms bind_eq_Some_conv)
  then show ?thesis
    using assms by (auto simp: table_inv_index same_key_def)
qed

lemma locate_None_iff:
  assumes "table_inv db"
  shows "locate t q db = None \<longleftrightarrow> (\<forall>a r. rec_heap db a = Some r \<longrightarrow> \<not> same_key t q r)"
  using locate_Some_iff [OF assms, of t q] by (metis not_None_eq)

lemma locate_live:
  assumes "table_inv db" "locate t q db = Some a"
  obtains r where "rec_heap db a = Some r" "same_key t q r"
  using assms by (auto simp: locate_Some_iff)

lemma locate_first_None_iff:
  assumes "table_inv db"
  shows "locate_first all_queries q db = None \<longleftrightarrow>
    (\<forall>a r t. rec_heap db a = Some r \<longrightarrow> \<not> same_key t q r)"
  using rec_key_all_queries
  by (fastforce simp: locate_first_cases locate_None_iff [OF assms] same_key_def)

lemma locate_first_live:
  assumes "table_inv db" "locate_first all_queries q db = Some a"
  obtains r t where "rec_heap db a = Some r" "same_key t q r"
  using assms by (auto dest!: locate_first_cases(2) elim!: locate_live)

section \<open>Registration\<close>

text \<open>The state after a successful registration: one more record, indexed under its keys.\<close>

definition registered :: "if_db \<Rightarrow> interface_ctrl \<Rightarrow> if_db \<Rightarrow> bool" where
  "registered db d db' \<longleftrightarrow>
     rec_heap db' = (rec_heap db)(next_addr db \<mapsto> d) \<and>
     if_records db' = insert (next_addr db) (if_records db) \<and>
     desc_heap db' = desc_heap db \<and> next_addr db' = next_addr db + 1 \<and>
     (\<forall>t k. index_of db' t k =
        (if rec_key t d = Some k then Some (next_addr db) else index_of db t k)) \<and>
     (oset (if_indexes db) \<longrightarrow> oset (if_indexes db')) \<and>
     set (if_indexes db') = set (if_indexes db) \<union>
       (if vrf_id d = 0 then {sint (if_index d)} else {})"

lemma register_OK:
  assumes "locate_first all_queries d db = None" and "rec_key t d \<noteq> None"
  shows "\<exists>db'. dn_hal_if_register True HAL_INTF_OP_REG (Some d) db = Inr (STD_ERR_OK, db') \<and>
    registered db d db'"
proof -
  define db1 where "db1 = db\<lparr>next_addr := next_addr db + 1,
    rec_heap := (rec_heap db)(next_addr db \<mapsto> d),
    if_records := insert (next_addr db) (if_records db)\<rparr>"
  obtain b db2 where e: "add_entries all_queries (next_addr db) d False db1 = (b, db2)" by force
  have key: "\<exists>t \<in> set all_queries. rec_key t d \<noteq> None"
    using assms(2) rec_key_all_queries by blast
  have b
    using add_entries_fst [of all_queries "next_addr db" d False db1] key by (simp add: e)
  moreover have "registered db d db2"
  proof -
    have db1: "rec_heap db1 = (rec_heap db)(next_addr db \<mapsto> d)" "desc_heap db1 = desc_heap db"
      "if_records db1 = insert (next_addr db) (if_records db)" "next_addr db1 = next_addr db + 1"
      "if_indexes db1 = if_indexes db" "index_of db1 = index_of db"
      by (simp_all add: db1_def)
    have "same_but_index db1 db2"
      using add_entries_same [of db1 all_queries "next_addr db" d False] by (simp add: e)
    moreover have "index_of db2 t k =
        (if rec_key t d = Some k then Some (next_addr db) else index_of db t k)" for t k
      using add_entries_index_of [of all_queries "next_addr db" d False db1 t k]
        rec_key_all_queries [of t d] by (auto simp: e db1)
    moreover have "oset (if_indexes db) \<Longrightarrow> oset (if_indexes db2)"
      using add_entries_oset [of db1 all_queries "next_addr db" d False] by (simp add: e db1)
    moreover have "set (if_indexes db2) = set (if_indexes db) \<union>
        (if vrf_id d = 0 then {sint (if_index d)} else {})"
      using add_entries_indexes [of all_queries "next_addr db" d False db1] key
      by (simp add: e db1)
    ultimately show ?thesis
      by (simp add: registered_def same_but_index_def db1)
  qed
  ultimately show ?thesis
    using assms(1) e by (simp add: dn_hal_if_register_def Let_def db1_def)
qed

lemma add_entries_no_key:
  assumes "\<And>t. rec_key t d = None"
  shows "add_entries ts a d b db = (b, db)"
proof (induction ts arbitrary: b)
  case Nil
  show ?case by simp
next
  case (Cons t ts)
  have "add_entry t a d db = (False, db)"
    using assms [of t] by (auto simp: add_entry_def rec_key_def split: if_splits)
  then show ?case using Cons.IH by (simp add: add_entries_Cons)
qed

text \<open>The three ways registration fails: a duplicate key, no memory, no key at all.\<close>

lemma register_conflict:
  "locate_first all_queries d db \<noteq> None \<Longrightarrow>
     dn_hal_if_register mem_ok HAL_INTF_OP_REG (Some d) db =
       Inr (STD_ERR INTERFACE PARAM (Priv 0), db)"
  by (simp add: dn_hal_if_register_def)

lemma register_no_memory:
  "dn_hal_if_register False HAL_INTF_OP_REG (Some d) db =
     Inr (STD_ERR INTERFACE PARAM (Priv 0), db)"
  by (simp add: dn_hal_if_register_def)

lemma register_no_key:
  assumes "table_inv db" "\<And>t. rec_key t d = None"
  shows "dn_hal_if_register True HAL_INTF_OP_REG (Some d) db =
     Inr (STD_ERR INTERFACE PARAM (Priv 0), db\<lparr>next_addr := next_addr db + 1\<rparr>)"
proof -
  have "locate_first all_queries d db = None"
    using assms by (simp add: locate_first_None_iff same_key_def)
  moreover have "rec_heap db (next_addr db) = None"
    using table_inv_fresh [OF assms(1)] by fastforce
  moreover have "next_addr db \<notin> if_records db"
    using calculation(2) by (simp add: table_inv_records [OF assms(1)] domIff)
  ultimately show ?thesis
    by (simp add: dn_hal_if_register_def add_entries_no_key [OF assms(2)] fun_upd_idem)
qed

lemma dereg_is_cleanup:
  "dn_hal_if_register mem_ok HAL_INTF_OP_DEREG detail db =
     (case cleanup detail db of Inl f \<Rightarrow> Inl f | Inr db' \<Rightarrow> Inr (STD_ERR_OK, db'))"
  by (simp add: dn_hal_if_register_def)

lemma register_NULL: "dn_hal_if_register mem_ok HAL_INTF_OP_REG None db = Inl Null_Deref"
  by (simp add: dn_hal_if_register_def)

text \<open>Every outcome of a registration, as one rule.\<close>

lemma register_cases:
  assumes "table_inv db"
    and "dn_hal_if_register mem_ok HAL_INTF_OP_REG (Some d) db = Inr (rc, db')"
  obtains (ok) "rc = STD_ERR_OK" "registered db d db'"
      "locate_first all_queries d db = None" "\<exists>t. rec_key t d \<noteq> None"
    | (same) "rc = STD_ERR INTERFACE PARAM (Priv 0)" "db' = db"
    | (bump) "rc = STD_ERR INTERFACE PARAM (Priv 0)" "db' = db\<lparr>next_addr := next_addr db + 1\<rparr>"
proof (cases "locate_first all_queries d db \<noteq> None \<or> \<not> mem_ok")
  case True
  then show ?thesis
    using assms(2) register_conflict register_no_memory same by fastforce
next
  case False
  show ?thesis
  proof (cases "\<exists>t. rec_key t d \<noteq> None")
    case True
    then show ?thesis
      using False register_OK assms(2) ok by fastforce
  next
    case no: False
    then show ?thesis
      using False register_no_key [OF assms(1)] assms(2) bump by fastforce
  qed
qed

lemma registered_table_inv:
  assumes "table_inv db" "registered db d db'" "locate_first all_queries d db = None"
    "\<exists>t. rec_key t d \<noteq> None"
  shows "table_inv db'"
proof -
  let ?p = "next_addr db"
  have fresh: "rec_heap db ?p = None"
    using table_inv_fresh [OF assms(1)] by fastforce
  have free: "rec_key t r \<noteq> Some k" if "rec_key t d = Some k" "rec_heap db a = Some r" for a r t k
    using assms(3) that unfolding locate_first_None_iff [OF assms(1)] same_key_def
    by (metis option.distinct(1))
  have "index_of db' t k = Some a \<longleftrightarrow> (\<exists>r. rec_heap db' a = Some r \<and> rec_key t r = Some k)" for t k a
    using assms(2) fresh free
    by (auto simp: registered_def table_inv_index [OF assms(1)])
  moreover have "if_records db' = dom (rec_heap db')"
    using assms(2) by (simp add: registered_def table_inv_records [OF assms(1)])
  moreover have "a < next_addr db'" if "a \<in> dom (rec_heap db') \<union> dom (desc_heap db')" for a
    using assms(2) that table_inv_fresh [OF assms(1), of a] table_inv_fresh_desc [OF assms(1), of a]
    by (auto simp: registered_def intro: less_SucI split: if_splits)
  ultimately show ?thesis
    using assms(2,4) table_inv_keyed [OF assms(1)]
    unfolding table_inv_def by (auto simp: registered_def)
qed

text \<open>
  The caller hands over the description with the record: it is a live block that no registered
  record owns.
\<close>

definition desc_given :: "interface_ctrl \<Rightarrow> if_db \<Rightarrow> bool" where
  "desc_given d db \<longleftrightarrow> (\<forall>b. desc d = Some b \<longrightarrow>
     b \<in> dom (desc_heap db) \<and> (\<forall>a r. rec_heap db a = Some r \<longrightarrow> desc r \<noteq> Some b))"

lemma registered_desc_inv:
  assumes "desc_inv db" "registered db d db'" "desc_given d db"
  shows "desc_inv db'"
  using assms unfolding desc_inv_def registered_def desc_given_def by (auto split: if_splits)

lemma registered_idx_inv:
  assumes "table_inv db" "idx_inv db" "registered db d db'"
  shows "idx_inv db'"
proof -
  have "rec_heap db (next_addr db) = None"
    using table_inv_fresh [OF assms(1)] by fastforce
  then have live: "rec_heap db' a = Some r \<longleftrightarrow>
      rec_heap db a = Some r \<or> a = next_addr db \<and> r = d" for a r
    using assms(3) by (auto simp: registered_def)
  have ix: "oset (if_indexes db) \<Longrightarrow> oset (if_indexes db')"
    "set (if_indexes db') = set (if_indexes db) \<union>
       (if vrf_id d = 0 then {sint (if_index d)} else {})"
    using assms(3) by (simp_all add: registered_def)
  show ?thesis
    using assms(2) unfolding idx_inv_def live ix(2) by (auto simp: ix(1))
qed

section \<open>Deregistration\<close>

definition deregistered :: "if_db \<Rightarrow> interface_ctrl \<Rightarrow> addr \<Rightarrow> interface_ctrl \<Rightarrow> if_db \<Rightarrow> bool" where
  "deregistered db q a r db' \<longleftrightarrow>
     rec_heap db' = (rec_heap db)(a := None) \<and>
     if_records db' = if_records db - {a} \<and>
     delete_desc (desc r) (desc_heap db) = Inr (desc_heap db') \<and>
     next_addr db' = next_addr db \<and>
     (\<forall>t k. index_of db' t k = (if rec_key t r = Some k then None else index_of db t k)) \<and>
     if_indexes db' =
       (if vrf_id q = 0 then oset_erase (sint (if_index r)) (if_indexes db) else if_indexes db)"

lemma erase_all_index_of:
  "index_of (let db1 = erase_keys has_key r db
     in if if_name r \<noteq> [] then db1\<lparr>if_name_map := (if_name_map db1)(if_name r := None)\<rparr> else db1) t k =
   (if rec_key t r = Some k then None else index_of db t k)"
proof -
  have name: "index_of (if if_name r \<noteq> [] then d\<lparr>if_name_map := (if_name_map d)(if_name r := None)\<rparr>
      else d) t k =
    (if t = HAL_INTF_INFO_FROM_IF_NAME \<and> rec_key t r = Some k then None else index_of d t k)" for d
    by (cases k) (auto simp: index_of_def rec_key_def)
  have "t \<in> set has_key" if "rec_key t r = Some k" "t \<noteq> HAL_INTF_INFO_FROM_IF_NAME"
    using that by (cases t) (auto simp: has_key_def rec_key_def)
  then show ?thesis
    by (auto simp: Let_def name erase_keys_index_of)
qed

lemma cleanup_found:
  assumes "locate_first all_queries q db = Some a" "rec_heap db a = Some r"
    "delete_desc (desc r) (desc_heap db) = Inr h"
  shows "\<exists>db'. cleanup (Some q) db = Inr db' \<and> deregistered db q a r db'"
proof -
  define db2 where "db2 = (let db1 = erase_keys has_key r db
     in if if_name r \<noteq> [] then db1\<lparr>if_name_map := (if_name_map db1)(if_name r := None)\<rparr> else db1)"
  have same: "rec_heap db2 = rec_heap db" "desc_heap db2 = desc_heap db"
    "next_addr db2 = next_addr db" "if_records db2 = if_records db" "if_indexes db2 = if_indexes db"
    using erase_keys_same [of db has_key r] erase_keys_indexes [of has_key r db]
    by (simp_all add: db2_def Let_def same_but_index_def)
  define db' where "db' = (let db3 = db2\<lparr>desc_heap := h, if_records := if_records db2 - {a}\<rparr>;
      db4 = (if vrf_id q = 0
             then db3\<lparr>if_indexes := oset_erase (sint (if_index r)) (if_indexes db3)\<rparr> else db3)
      in db4\<lparr>rec_heap := (rec_heap db4)(a := None)\<rparr>)"
  have "cleanup (Some q) db = Inr db'"
    using assms same unfolding cleanup_def db'_def db2_def
    by (simp add: Let_def)
  moreover have "index_of db' = index_of db2"
    by (simp add: db'_def Let_def)
  ultimately show ?thesis
    using assms(3) same erase_all_index_of [of r db]
    unfolding deregistered_def db2_def [symmetric]
    by (auto simp: db'_def Let_def)
qed

lemma cleanup_none: "locate_first all_queries q db = None \<Longrightarrow> cleanup (Some q) db = Inr db"
  by (simp add: cleanup_def)

lemma cleanup_double_free:
  assumes "locate_first all_queries q db = Some a" "rec_heap db a = Some r"
    "desc r = Some d" "desc_heap db d = None"
  shows "cleanup (Some q) db = Inl Double_Free"
proof -
  have "desc_heap (erase_keys has_key r db) = desc_heap db"
    using erase_keys_same [of db has_key r] by (simp add: same_but_index_def)
  then show ?thesis
    using assms by (simp add: cleanup_def Let_def delete_desc_def)
qed

lemma delete_desc_Inr:
  "delete_desc p h = Inr h' \<Longrightarrow> h' b = (if p = Some b then None else h b)"
  by (auto simp: delete_desc_def split: option.splits)

lemma delete_desc_dom: "delete_desc p h = Inr h' \<Longrightarrow> dom h' \<subseteq> dom h"
  by (auto simp: delete_desc_Inr split: if_splits)

lemma desc_inv_delete:
  assumes "desc_inv db" "rec_heap db a = Some r"
  obtains h where "delete_desc (desc r) (desc_heap db) = Inr h"
  using assms unfolding desc_inv_def delete_desc_def
  by (cases "desc r") (fastforce simp: domIff)+

lemma cleanup_cases:
  assumes "table_inv db" "desc_inv db"
  obtains (none) "locate_first all_queries q db = None" "cleanup (Some q) db = Inr db"
    | (found) a r db' where "locate_first all_queries q db = Some a" "rec_heap db a = Some r"
        "cleanup (Some q) db = Inr db'" "deregistered db q a r db'"
proof (cases "locate_first all_queries q db")
  case None
  then show ?thesis using none cleanup_none by blast
next
  case (Some a)
  then obtain r where r: "rec_heap db a = Some r"
    using assms(1) locate_first_live by blast
  then obtain h where "delete_desc (desc r) (desc_heap db) = Inr h"
    using assms(2) desc_inv_delete by blast
  then show ?thesis
    using found Some r cleanup_found by blast
qed

lemma deregistered_table_inv:
  assumes "table_inv db" "rec_heap db a = Some r" "deregistered db q a r db'"
  shows "table_inv db'"
proof -
  have "index_of db' t k = Some b \<longleftrightarrow> (\<exists>s. rec_heap db' b = Some s \<and> rec_key t s = Some k)" for t k b
    using assms(2,3) table_inv_unique [OF assms(1), of a r b _ t k]
    by (auto simp: deregistered_def table_inv_index [OF assms(1)])
  moreover have "delete_desc (desc r) (desc_heap db) = Inr (desc_heap db')"
    using assms(3) by (simp add: deregistered_def)
  then have "dom (desc_heap db') \<subseteq> dom (desc_heap db)"
    by (rule delete_desc_dom)
  ultimately show ?thesis
    using assms(3) table_inv_records [OF assms(1)] table_inv_keyed [OF assms(1)]
      table_inv_fresh [OF assms(1)] table_inv_fresh_desc [OF assms(1)]
    unfolding table_inv_def by (auto simp: deregistered_def split: if_splits)
qed

lemma deregistered_desc_inv:
  assumes "desc_inv db" "rec_heap db a = Some r" "deregistered db q a r db'"
  shows "desc_inv db'"
proof -
  have h: "desc_heap db' b = (if desc r = Some b then None else desc_heap db b)" for b
    using assms(3) by (simp add: deregistered_def delete_desc_Inr)
  have heap: "rec_heap db' = (rec_heap db)(a := None)"
    using assms(3) by (simp add: deregistered_def)
  have live: "d \<in> dom (desc_heap db)" if "rec_heap db b = Some s" "desc s = Some d" for b s d
    using assms(1) that unfolding desc_inv_def by blast
  have own: "b = c" if "rec_heap db b = Some s" "rec_heap db c = Some s'" "desc s = Some d"
    "desc s' = Some d" for b c s s' d
    using assms(1) that unfolding desc_inv_def by blast
  show ?thesis
    unfolding desc_inv_def
  proof (intro conjI allI impI)
    fix b s d
    assume s: "rec_heap db' b = Some s" "desc s = Some d"
    then have "b \<noteq> a" "rec_heap db b = Some s" by (auto simp: heap split: if_splits)
    then show "d \<in> dom (desc_heap db')"
      using live [of b s d] own [of a r b s d] assms(2) s(2) by (auto simp: h domIff)
  next
    fix b c s s' d
    assume "rec_heap db' b = Some s" "rec_heap db' c = Some s'" "desc s = Some d" "desc s' = Some d"
    then show "b = c" using own by (auto simp: heap split: if_splits)
  qed
qed


subsection \<open>Composite keys\<close>

lemma mk_key2_bit:
  "bit (mk_key2 a b) n \<longleftrightarrow> n < 64 \<and> (if n < 32 then bit b n else bit a (n - 32))"
  by (auto simp: mk_key2_def bit_or_iff bit_push_bit_iff bit_ucast_iff dest: bit_imp_le_length)

lemma mk_key2_inject: "mk_key2 a b = mk_key2 c d \<longleftrightarrow> a = c \<and> b = d"
proof
  assume eq: "mk_key2 a b = mk_key2 c d"
  have "bit b n = bit d n" if "n < 32" for n
    using arg_cong [OF eq, of "\<lambda>w. bit w n"] that by (simp add: mk_key2_bit)
  moreover have "bit a n = bit c n" if "n < 32" for n
    using arg_cong [OF eq, of "\<lambda>w. bit w (n + 32)"] that by (simp add: mk_key2_bit)
  ultimately show "a = c \<and> b = d"
    by (auto intro: bit_word_eqI)
qed simp

lemma mk_key2_minus_1: "mk_key2 (- 1) (- 1) = - 1"
  by (rule bit_word_eqI) (auto simp: mk_key2_bit)

lemma mk_key2_INVALID: "mk_key2 a b = INVALID_KEY \<longleftrightarrow> a = - 1 \<and> b = - 1"
  unfolding INVALID_KEY_def mk_key2_minus_1 [symmetric] by (rule mk_key2_inject)

lemma rec_key_FROM_IF:
  "rec_key HAL_INTF_INFO_FROM_IF r =
     (if vrf_id r = - 1 \<and> if_index r = - 1 then None
      else Some (Inr (mk_key2 (vrf_id r) (if_index r))))"
  by (simp add: rec_key_def mk_key2_INVALID)

lemma same_key_FROM_IF:
  "same_key HAL_INTF_INFO_FROM_IF q r \<longleftrightarrow>
     vrf_id r = vrf_id q \<and> if_index r = if_index q \<and> \<not> (vrf_id q = - 1 \<and> if_index q = - 1)"
  by (auto simp: same_key_def rec_key_FROM_IF mk_key2_inject)

lemma same_key_FROM_IF_NAME:
  "same_key HAL_INTF_INFO_FROM_IF_NAME q r \<longleftrightarrow> if_name q \<noteq> [] \<and> if_name r = if_name q"
  by (auto simp: same_key_def rec_key_def)

lemma sint_eq_iff: "sint (a :: 'a::len word) = sint b \<longleftrightarrow> a = b"
  by (auto intro: signed_word_eqI)

lemma default_vrf_unique:
  assumes "table_inv db" "rec_heap db a = Some r" "rec_heap db b = Some s"
    "vrf_id r = 0" "vrf_id s = 0" "if_index r = if_index s"
  shows "a = b"
  using assms by (auto intro!: table_inv_unique [OF assms(1-3), of HAL_INTF_INFO_FROM_IF]
      simp: rec_key_FROM_IF)

text \<open>
  The ordered set stays exact when the request and the record are in the default VRF together
  or not at all; the code tests the VRF of the request.
\<close>

lemma deregistered_idx_inv:
  assumes "table_inv db" "idx_inv db" "rec_heap db a = Some r" "deregistered db q a r db'"
    "vrf_id q = 0 \<longleftrightarrow> vrf_id r = 0"
  shows "idx_inv db'"
proof -
  have heap: "rec_heap db' = (rec_heap db)(a := None)"
    and ix: "if_indexes db' =
       (if vrf_id r = 0 then oset_erase (sint (if_index r)) (if_indexes db) else if_indexes db)"
    using assms(4,5) by (simp_all add: deregistered_def)
  have live: "rec_heap db' b = Some s \<longleftrightarrow> b \<noteq> a \<and> rec_heap db b = Some s" for b s
    by (auto simp: heap)
  have uniq: "if_index s \<noteq> if_index r"
    if "rec_heap db b = Some s" "vrf_id s = 0" "vrf_id r = 0" "b \<noteq> a" for b s
    using default_vrf_unique [OF assms(1) that(1) assms(3) that(2,3)] that(4) by blast
  have ix': "x \<in> set (if_indexes db) \<longleftrightarrow>
      (\<exists>a r. rec_heap db a = Some r \<and> vrf_id r = 0 \<and> x = sint (if_index r))" for x
    using assms(2) by (auto simp: idx_inv_def)
  have o: "oset (if_indexes db)"
    using assms(2) by (simp add: idx_inv_def)
  show ?thesis
  proof (cases "vrf_id r = 0")
    case True
    have "x \<in> set (if_indexes db') \<longleftrightarrow>
        (\<exists>b s. rec_heap db' b = Some s \<and> vrf_id s = 0 \<and> x = sint (if_index s))" for x
      using uniq [OF _ _ True] assms(3) o
      by (auto simp: ix True oset_simps ix' live sint_eq_iff) (metis option.inject)
    with True o show ?thesis
      by (simp add: idx_inv_def ix oset_simps)
  next
    case False
    then have "rec_heap db' b = Some s \<and> vrf_id s = 0 \<and> P \<longleftrightarrow>
        rec_heap db b = Some s \<and> vrf_id s = 0 \<and> P" for b s P
      using assms(3) by (auto simp: live)
    with False show ?thesis
      using o by (simp add: idx_inv_def ix ix')
  qed
qed

section \<open>Updates in place\<close>

text \<open>An update of a record's fields that no key reads keeps the table and the index set.\<close>

lemma update_table_inv:
  assumes "table_inv db" "rec_heap db a = Some r" "\<And>t. rec_key t r' = rec_key t r"
  shows "table_inv (db\<lparr>rec_heap := (rec_heap db)(a \<mapsto> r')\<rparr>)"
proof -
  have "index_of db t k = Some b \<longleftrightarrow>
      (\<exists>s. ((rec_heap db)(a \<mapsto> r')) b = Some s \<and> rec_key t s = Some k)" for t k b
    using assms(2,3) by (auto simp: table_inv_index [OF assms(1)])
  moreover have "\<exists>t. rec_key t s \<noteq> None" if "((rec_heap db)(a \<mapsto> r')) b = Some s" for b s
    using that assms(2,3) table_inv_keyed [OF assms(1)] by (auto split: if_splits)
  moreover have "dom ((rec_heap db)(a \<mapsto> r')) = dom (rec_heap db)"
    using assms(2) by auto
  ultimately show ?thesis
    using assms(1) unfolding table_inv_def by simp
qed

lemma update_idx_inv:
  assumes "idx_inv db" "rec_heap db a = Some r" "vrf_id r' = vrf_id r" "if_index r' = if_index r"
  shows "idx_inv (db\<lparr>rec_heap := (rec_heap db)(a \<mapsto> r')\<rparr>)"
proof -
  have "(\<exists>b s. ((rec_heap db)(a \<mapsto> r')) b = Some s \<and> vrf_id s = 0 \<and> x = sint (if_index s)) \<longleftrightarrow>
      (\<exists>b s. rec_heap db b = Some s \<and> vrf_id s = 0 \<and> x = sint (if_index s))"
    (is "?L \<longleftrightarrow> ?R") for x
  proof
    show "?L \<Longrightarrow> ?R" using assms(2-4) by (auto split: if_splits)
    assume ?R
    then obtain b s where s: "rec_heap db b = Some s" "vrf_id s = 0" "x = sint (if_index s)" by blast
    show ?L
    proof (cases "b = a")
      case True
      with s assms(2-4) show ?thesis by (intro exI [of _ a] exI [of _ r']) simp
    next
      case False
      with s show ?thesis by (intro exI [of _ b] exI [of _ s]) simp
    qed
  qed
  with assms(1) show ?thesis by (simp add: idx_inv_def)
qed

lemma update_desc_inv:
  assumes "desc_inv db" "rec_heap db a = Some r" "desc r' = desc r"
  shows "desc_inv (db\<lparr>rec_heap := (rec_heap db)(a \<mapsto> r')\<rparr>)"
  using assms unfolding desc_inv_def by (auto split: if_splits)

end
