(* ===== verification/IfTable.thy ===== *)
theory IfTable
  imports IfMappingInv
begin

text \<open>
  What the interface table promises: no operation reaches a fault and all keep the invariant
  (over every sequence of calls), the refinement of the table by a plain set of records, the
  queries answered by the one record that shares the key, and the walk over the interface
  indexes.
\<close>

section \<open>Every operation keeps the invariant\<close>

lemma register_inv:
  assumes "db_inv db" "desc_given d db"
    "dn_hal_if_register mem_ok HAL_INTF_OP_REG (Some d) db = Inr (rc, db')"
  shows "db_inv db'"
proof -
  have t: "table_inv db" and o: "desc_inv db"
    using assms(1) by (simp_all add: db_inv_def)
  from t assms(3) show ?thesis
  proof (cases rule: register_cases)
    case ok
    then show ?thesis
      using registered_table_inv [OF t] registered_desc_inv [OF o _ assms(2)]
      by (simp add: db_inv_def)
  next
    case same
    then show ?thesis using assms(1) by simp
  next
    case bump
    then show ?thesis
      using t o by (auto simp: db_inv_def table_inv_def desc_inv_def less_SucI)
  qed
qed

lemma deregister_inv:
  assumes "db_inv db" "dn_hal_if_register mem_ok HAL_INTF_OP_DEREG p db = Inr (rc, db')"
  shows "db_inv db'"
proof (cases p)
  case None
  then show ?thesis using assms by (simp add: dereg_is_cleanup cleanup_def)
next
  case (Some q)
  have t: "table_inv db" and o: "desc_inv db"
    using assms(1) by (simp_all add: db_inv_def)
  from t o show ?thesis
  proof (cases rule: cleanup_cases [where q = q])
    case none
    then show ?thesis using assms Some by (simp add: dereg_is_cleanup)
  next
    case (found a r db1)
    then have "db' = db1" using assms(2) Some by (simp add: dereg_is_cleanup)
    then show ?thesis
      using found deregistered_table_inv [OF t] deregistered_desc_inv [OF o]
      by (auto simp: db_inv_def)
  qed
qed

text \<open>The updates by query: what they do to the table when the query finds a record.\<close>

lemma update_interface_cases:
  assumes "table_inv db" "dn_hal_update_interface cpy (Some q) db = Inr (rc, db')"
  obtains (none) "locate (q_type q) q db = None" "rc = STD_ERR INTERFACE PARAM (Priv 0)" "db' = db"
    | (found) a r where "locate (q_type q) q db = Some a" "rec_heap db a = Some r"
        "same_key (q_type q) q r" "rc = STD_ERR_OK"
        "db' = db\<lparr>rec_heap := (rec_heap db)(a \<mapsto> r\<lparr>mac_addr := cpy (mac_addr q) MAC_STR_SZ\<rparr>)\<rparr>"
  using assms
  by (cases "locate (q_type q) q db")
    (auto simp: dn_hal_update_interface_def elim!: locate_live)

lemma update_interface_inv:
  assumes "db_inv db" "dn_hal_update_interface cpy p db = Inr (rc, db')"
  shows "db_inv db'" "idx_inv db \<Longrightarrow> idx_inv db'"
proof -
  obtain q where q: "p = Some q"
    using assms(2) by (cases p) (auto simp: dn_hal_update_interface_def)
  have t: "table_inv db" and o: "desc_inv db"
    using assms(1) by (simp_all add: db_inv_def)
  from t assms(2) [unfolded q] show "db_inv db'"
    by (cases rule: update_interface_cases)
      (use assms(1) in \<open>auto simp: db_inv_def update_table_inv [OF t] update_desc_inv [OF o]\<close>)
  from t assms(2) [unfolded q] show "idx_inv db'" if "idx_inv db"
    by (cases rule: update_interface_cases) (use that in \<open>auto simp: update_idx_inv [OF that]\<close>)
qed

lemma update_intf_mac_inv:
  assumes "db_inv db" "dn_hal_update_intf_mac cpy ifx mac db = Inr (rc, db')"
  shows "db_inv db'" "idx_inv db \<Longrightarrow> idx_inv db'"
  using assms update_interface_inv by (simp_all add: dn_hal_update_intf_mac_def)

lemma update_router_inv:
  assumes "db_inv db" "nas_cmn_update_router_intf_info vrf ifx info db = Inr (rc, db')"
  shows "db_inv db'" "idx_inv db \<Longrightarrow> idx_inv db'"
proof -
  have t: "table_inv db" and o: "desc_inv db"
    using assms(1) by (simp_all add: db_inv_def)
  show "db_inv db'" "idx_inv db \<Longrightarrow> idx_inv db'"
    using assms
    by (auto simp: nas_cmn_update_router_intf_info_def Let_def db_inv_def
        update_table_inv [OF t] update_desc_inv [OF o] update_idx_inv split: option.splits)
qed

text \<open>
  A description update takes the old block away before it asks for the new one. The outcomes
  are: rejected, cleared, replaced, and out of memory, which leaves the record pointing to the
  block that was deleted.
\<close>

lemma update_desc_cases:
  assumes "db_inv db"
    "dn_hal_update_intf_desc cpy mem_ok (Some q) (Some s) db = Inr (rc, db')"
  obtains (rejected) "rc = STD_ERR INTERFACE PARAM (Priv 0)" "db' = db"
    | (cleared) a r h where "locate (q_type q) q db = Some a" "rec_heap db a = Some r"
        "s = [] \<or> \<not> isalnum (hd s)" "rc = STD_ERR_OK"
        "delete_desc (desc r) (desc_heap db) = Inr h"
        "db' = db\<lparr>desc_heap := h, rec_heap := (rec_heap db)(a \<mapsto> r\<lparr>desc := None\<rparr>)\<rparr>"
    | (replaced) a r h where "locate (q_type q) q db = Some a" "rec_heap db a = Some r"
        "s \<noteq> []" "isalnum (hd s)" "mem_ok" "rc = STD_ERR_OK"
        "delete_desc (desc r) (desc_heap db) = Inr h"
        "db' = db\<lparr>next_addr := next_addr db + 1,
           desc_heap := h(next_addr db \<mapsto> cpy s (length s + 1)),
           rec_heap := (rec_heap db)(a \<mapsto> r\<lparr>desc := Some (next_addr db)\<rparr>)\<rparr>"
    | (dangling) a r h where "locate (q_type q) q db = Some a" "rec_heap db a = Some r"
        "\<not> mem_ok" "rc = STD_ERR INTERFACE PARAM (Priv 0)"
        "delete_desc (desc r) (desc_heap db) = Inr h" "db' = db\<lparr>desc_heap := h\<rparr>"
proof (cases "length s > MAX_INTF_DESC_LEN \<or> locate (q_type q) q db = None")
  case True
  then show ?thesis
    using assms(2) rejected by (auto simp: dn_hal_update_intf_desc_def split: if_splits)
next
  case False
  then obtain a where a: "locate (q_type q) q db = Some a" by auto
  then obtain r where r: "rec_heap db a = Some r"
    using assms(1) by (auto simp: db_inv_def elim: locate_live)
  then obtain h where h: "delete_desc (desc r) (desc_heap db) = Inr h"
    using assms(1) by (auto simp: db_inv_def elim: desc_inv_delete)
  have eq: "dn_hal_update_intf_desc cpy mem_ok (Some q) (Some s) db =
      (if s = [] \<or> \<not> isalnum (hd s)
       then Inr (STD_ERR_OK, db\<lparr>desc_heap := h, rec_heap := (rec_heap db)(a \<mapsto> r\<lparr>desc := None\<rparr>)\<rparr>)
       else if \<not> mem_ok then Inr (STD_ERR INTERFACE PARAM (Priv 0), db\<lparr>desc_heap := h\<rparr>)
       else Inr (STD_ERR_OK, db\<lparr>next_addr := next_addr db + 1,
           desc_heap := h(next_addr db \<mapsto> cpy s (length s + 1)),
           rec_heap := (rec_heap db)(a \<mapsto> r\<lparr>desc := Some (next_addr db)\<rparr>)\<rparr>))"
    using False by (simp add: dn_hal_update_intf_desc_def Let_def a r h)
  consider "s = [] \<or> \<not> isalnum (hd s)" | "s \<noteq> []" "isalnum (hd s)" "mem_ok"
    | "s \<noteq> []" "isalnum (hd s)" "\<not> mem_ok" by blast
  then show ?thesis
  proof cases
    case 1
    then show ?thesis
      using assms(2) eq by (intro cleared [OF a r 1 _ h]) auto
  next
    case 2
    then show ?thesis
      using assms(2) eq by (intro replaced [OF a r 2 _ h]) auto
  next
    case 3
    then show ?thesis
      using assms(2) eq by (intro dangling [OF a r 3(3) _ h]) auto
  qed
qed

text \<open>Swapping a record's description for a block of its own, or for none.\<close>

lemma swap_desc_inv:
  assumes "db_inv db" "rec_heap db a = Some r" "delete_desc (desc r) (desc_heap db) = Inr h"
    "next_addr db \<le> n" "\<And>b. b \<in> dom h' \<Longrightarrow> b \<in> dom h \<or> b < n"
    "dom h \<subseteq> dom h'"
    "\<And>b. d = Some b \<Longrightarrow> b \<in> dom h' \<and> next_addr db \<le> b"
  shows "db_inv (db\<lparr>next_addr := n, desc_heap := h',
    rec_heap := (rec_heap db)(a \<mapsto> r\<lparr>desc := d\<rparr>)\<rparr>)" (is "db_inv ?db")
proof -
  have t: "table_inv db" and o: "desc_inv db"
    using assms(1) by (simp_all add: db_inv_def)
  have u: "table_inv (db\<lparr>rec_heap := (rec_heap db)(a \<mapsto> r\<lparr>desc := d\<rparr>)\<rparr>)"
    using t assms(2) by (rule update_table_inv) simp
  have old: "b < next_addr db" if "b \<in> dom h" for b
    using that delete_desc_dom [OF assms(3)] table_inv_fresh_desc [OF t] by auto
  have live: "c \<in> dom (desc_heap db)" if "rec_heap db b = Some s" "desc s = Some c" for b s c
    using o that unfolding desc_inv_def by blast
  have own: "b = c" if "rec_heap db b = Some s" "rec_heap db c = Some s'" "desc s = Some e"
    "desc s' = Some e" for b c s s' e
    using o that unfolding desc_inv_def by blast
  have h: "h b = (if desc r = Some b then None else desc_heap db b)" for b
    using assms(3) by (rule delete_desc_Inr)
  have fresh: "desc s \<noteq> d \<or> d = None" if "rec_heap db b = Some s" for b s
    using live [OF that] table_inv_fresh_desc [OF t] assms(7) by (cases d) (fastforce simp: domIff)+
  have "b < n" if "b \<in> dom (rec_heap ?db) \<union> dom h'" for b
    using that assms(2,4) assms(5) [of b] old [of b] table_inv_fresh [OF t]
    by (auto split: if_splits) (fastforce intro: less_le_trans)+
  with u have "table_inv ?db"
    unfolding table_inv_def by simp
  moreover have "desc_inv ?db"
    unfolding desc_inv_def
  proof (intro conjI allI impI)
    fix b s c
    assume s: "rec_heap ?db b = Some s" "desc s = Some c"
    show "c \<in> dom (desc_heap ?db)"
    proof (cases "b = a")
      case True
      with s assms(7) [of c] show ?thesis by auto
    next
      case False
      with s have s': "rec_heap db b = Some s" by simp
      then have "c \<in> dom h"
        using live [OF s' s(2)] own [OF assms(2) s' _ s(2)] False by (auto simp: h domIff)
      then show ?thesis using assms(6) by auto
    qed
  next
    fix b c s s' e
    assume "rec_heap ?db b = Some s" "rec_heap ?db c = Some s'" "desc s = Some e" "desc s' = Some e"
    then show "b = c"
      using own fresh by (auto split: if_splits)
  qed
  ultimately show ?thesis by (simp add: db_inv_def)
qed

lemma update_intf_desc_inv:
  assumes "db_inv db" "dn_hal_update_intf_desc cpy True p s db = Inr (rc, db')"
  shows "db_inv db'" "idx_inv db \<Longrightarrow> idx_inv db'"
proof -
  obtain q t where q: "p = Some q" "s = Some t"
    using assms(2) by (cases p; cases s) (auto simp: dn_hal_update_intf_desc_def)
  from assms(1) assms(2) [unfolded q] have "db_inv db' \<and> (idx_inv db \<longrightarrow> idx_inv db')"
  proof (cases rule: update_desc_cases)
    case (cleared a r h)
    have "db_inv (db\<lparr>next_addr := next_addr db, desc_heap := h,
        rec_heap := (rec_heap db)(a \<mapsto> r\<lparr>desc := None\<rparr>)\<rparr>)"
      using assms(1) cleared(2,5) by (rule swap_desc_inv) simp_all
    moreover have "idx_inv db'" if "idx_inv db"
      using update_idx_inv [OF that cleared(2), of "r\<lparr>desc := None\<rparr>"] cleared(6)
      by (simp add: idx_inv_def)
    ultimately show ?thesis using cleared(6) by simp
  next
    case (replaced a r h)
    have "db_inv (db\<lparr>next_addr := next_addr db + 1,
        desc_heap := h(next_addr db \<mapsto> cpy t (length t + 1)),
        rec_heap := (rec_heap db)(a \<mapsto> r\<lparr>desc := Some (next_addr db)\<rparr>)\<rparr>)"
      using assms(1) replaced(2,7) by (rule swap_desc_inv) auto
    moreover have "idx_inv db'" if "idx_inv db"
      using update_idx_inv [OF that replaced(2), of "r\<lparr>desc := Some (next_addr db)\<rparr>"] replaced(8)
      by (simp add: idx_inv_def)
    ultimately show ?thesis using replaced(8) by simp
  qed (use assms(1) in auto)
  then show "db_inv db'" "idx_inv db \<Longrightarrow> idx_inv db'" by blast+
qed

section \<open>Sequences of calls\<close>

text \<open>
  The calls of the table's clients, with the description block of a registration handed over by
  the caller (\<open>alloc_desc\<close> is the caller's own \<open>new char[]\<close>). Memory for the copy of a
  description is available; the other case is \<open>update_desc_oom_double_free\<close> below.
\<close>

inductive if_step :: "if_db \<Rightarrow> if_db \<Rightarrow> bool" where
  alloc_desc: "if_step db (db\<lparr>next_addr := next_addr db + 1,
      desc_heap := (desc_heap db)(next_addr db \<mapsto> s)\<rparr>)"
| register: "desc_given d db \<Longrightarrow>
    dn_hal_if_register mem_ok HAL_INTF_OP_REG (Some d) db = Inr (rc, db') \<Longrightarrow> if_step db db'"
| deregister: "dn_hal_if_register mem_ok HAL_INTF_OP_DEREG p db = Inr (rc, db') \<Longrightarrow> if_step db db'"
| update_mac: "dn_hal_update_intf_mac cpy ifx mac db = Inr (rc, db') \<Longrightarrow> if_step db db'"
| update_router: "nas_cmn_update_router_intf_info vrf ifx info db = Inr (rc, db') \<Longrightarrow> if_step db db'"
| update_desc: "dn_hal_update_intf_desc cpy True p s db = Inr (rc, db') \<Longrightarrow> if_step db db'"

inductive if_reachable :: "if_db \<Rightarrow> bool" where
  init: "if_reachable empty_db"
| step: "if_reachable db \<Longrightarrow> if_step db db' \<Longrightarrow> if_reachable db'"

inductive_cases if_stepE: "if_step db db'"

lemma alloc_desc_inv:
  assumes "db_inv db"
  shows "db_inv (db\<lparr>next_addr := next_addr db + 1,
      desc_heap := (desc_heap db)(next_addr db \<mapsto> s)\<rparr>)"
proof -
  have "a < next_addr db + 1" if "a \<in> dom (rec_heap db) \<union> dom ((desc_heap db)(next_addr db \<mapsto> s))" for a
    using that assms by (auto simp: db_inv_def table_inv_def intro: less_SucI split: if_splits)
  then have "table_inv (db\<lparr>next_addr := next_addr db + 1,
      desc_heap := (desc_heap db)(next_addr db \<mapsto> s)\<rparr>)"
    using assms unfolding db_inv_def table_inv_def by simp
  moreover have "desc_inv (db\<lparr>next_addr := next_addr db + 1,
      desc_heap := (desc_heap db)(next_addr db \<mapsto> s)\<rparr>)"
    using assms unfolding db_inv_def desc_inv_def by (auto simp: domIff)
  ultimately show ?thesis by (simp add: db_inv_def)
qed

lemma if_step_inv: "if_step db db' \<Longrightarrow> db_inv db \<Longrightarrow> db_inv db'"
proof (induction rule: if_step.induct)
  case (alloc_desc db s)
  then show ?case by (rule alloc_desc_inv)
qed (auto intro: register_inv deregister_inv update_intf_mac_inv update_router_inv update_intf_desc_inv)

lemma if_reachable_db_inv: "if_reachable db \<Longrightarrow> db_inv db"
proof (induction rule: if_reachable.induct)
  case init
  show ?case using empty_db_inv by (simp add: db_inv_def)
next
  case (step db db')
  then show ?case by (blast intro: if_step_inv)
qed

subsection \<open>No faults\<close>

lemma locate_heap:
  "table_inv db \<Longrightarrow> locate t q db = Some a \<Longrightarrow> rec_heap db a \<noteq> None"
  by (auto elim: locate_live)

lemma get_info_eq:
  assumes "table_inv db"
  shows "dn_hal_get_interface_info (Some q0) db =
    (let q = (if q_type q0 = HAL_INTF_INFO_FROM_PORT then set_port_mapped q0 else q0)
     in case locate (q_type q) q db of
          None \<Rightarrow> Inr (STD_ERR INTERFACE PARAM (Priv 0), q)
        | Some a \<Rightarrow> Inr (STD_ERR_OK, the (rec_heap db a)))"
proof -
  let ?q = "if q_type q0 = HAL_INTF_INFO_FROM_PORT then set_port_mapped q0 else q0"
  show ?thesis
    using locate_heap [OF assms, of "q_type ?q" ?q]
    by (cases "locate (q_type ?q) ?q db")
      (auto simp: dn_hal_get_interface_info_def Let_def simp del: if_split_asm)
qed

lemma get_info_no_fault:
  "table_inv db \<Longrightarrow> \<exists>r. dn_hal_get_interface_info (Some q) db = Inr r"
  by (auto simp: get_info_eq Let_def split: option.splits)

lemma register_no_fault:
  assumes "table_inv db"
  shows "\<exists>r. dn_hal_if_register mem_ok HAL_INTF_OP_REG (Some d) db = Inr r"
proof (cases "locate_first all_queries d db = None \<and> mem_ok")
  case True
  show ?thesis
  proof (cases "\<exists>t. rec_key t d \<noteq> None")
    case keyed: True
    then obtain t where "rec_key t d \<noteq> None" by blast
    then show ?thesis using True register_OK [of d db t] by auto
  next
    case False
    then show ?thesis using True register_no_key [OF assms, of d] by auto
  qed
next
  case False
  then show ?thesis using register_conflict register_no_memory by (cases mem_ok) auto
qed

lemma deregister_no_fault:
  assumes "db_inv db"
  shows "\<exists>db'. dn_hal_if_register mem_ok HAL_INTF_OP_DEREG p db = Inr (STD_ERR_OK, db')"
proof (cases p)
  case None
  then show ?thesis by (simp add: dereg_is_cleanup cleanup_def)
next
  case (Some q)
  obtain db' where "cleanup (Some q) db = Inr db'"
    using assms cleanup_cases [of db q] by (auto simp: db_inv_def)
  then show ?thesis by (simp add: Some dereg_is_cleanup)
qed

lemma update_interface_no_fault:
  "table_inv db \<Longrightarrow> \<exists>r. dn_hal_update_interface cpy (Some q) db = Inr r"
  using locate_heap [of db "q_type q" q]
  by (auto simp: dn_hal_update_interface_def split: option.split)

lemma update_router_no_fault:
  assumes "table_inv db"
  shows "\<exists>r. nas_cmn_update_router_intf_info vrf ifx (Some i) db = Inr r"
  by (auto simp: nas_cmn_update_router_intf_info_def Let_def split: option.split
      dest: locate_heap [OF assms])

lemma update_desc_no_fault:
  assumes "db_inv db"
  shows "\<exists>r. dn_hal_update_intf_desc cpy mem_ok (Some q) (Some s) db = Inr r"
proof (cases "locate (q_type q) q db")
  case None
  then show ?thesis by (simp add: dn_hal_update_intf_desc_def)
next
  case (Some a)
  then obtain r where r: "rec_heap db a = Some r"
    using assms by (auto simp: db_inv_def elim: locate_live)
  then obtain h where "delete_desc (desc r) (desc_heap db) = Inr h"
    using assms by (auto simp: db_inv_def elim: desc_inv_delete)
  with Some r show ?thesis by (simp add: dn_hal_update_intf_desc_def Let_def)
qed

section \<open>The table as a set of records\<close>

text \<open>
  The contract of the component: a set of records in which no two share a key. Registration
  refuses a record that shares a key with another or has none, and any record when there is no
  memory; deregistration walks the query types in the code's order and takes out the record that
  the first one finds.
\<close>

definition abs_recs :: "if_db \<Rightarrow> interface_ctrl set" where
  "abs_recs db = ran (rec_heap db)"

definition spec_register :: "bool \<Rightarrow> interface_ctrl \<Rightarrow> interface_ctrl set \<Rightarrow> t_std_error \<times> interface_ctrl set" where
  "spec_register mem_ok d A =
     (if (\<exists>r \<in> A. \<exists>t \<in> set all_queries. same_key t d r) \<or>
         (\<forall>t \<in> set all_queries. rec_key t d = None) \<or> \<not> mem_ok
      then (STD_ERR INTERFACE PARAM (Priv 0), A) else (STD_ERR_OK, insert d A))"

fun spec_deregister :: "intf_info list \<Rightarrow> interface_ctrl \<Rightarrow> interface_ctrl set \<Rightarrow> interface_ctrl set" where
  "spec_deregister [] q A = A"
| "spec_deregister (t # ts) q A =
     (if \<exists>r \<in> A. same_key t q r then {r \<in> A. \<not> same_key t q r} else spec_deregister ts q A)"

lemma abs_recs_iff: "r \<in> abs_recs db \<longleftrightarrow> (\<exists>a. rec_heap db a = Some r)"
  by (simp add: abs_recs_def ran_def)

lemma same_key_all_queries: "same_key t q r \<Longrightarrow> t \<in> set all_queries"
  using rec_key_all_queries by (auto simp: same_key_def)

lemma spec_register_ok_iff:
  assumes "table_inv db"
  shows "spec_register mem_ok d (abs_recs db) =
    (if locate_first all_queries d db = None \<and> (\<exists>t. rec_key t d \<noteq> None) \<and> mem_ok
     then (STD_ERR_OK, insert d (abs_recs db))
     else (STD_ERR INTERFACE PARAM (Priv 0), abs_recs db))"
proof -
  have "(\<exists>r \<in> abs_recs db. \<exists>t \<in> set all_queries. same_key t d r) \<longleftrightarrow> locate_first all_queries d db \<noteq> None"
    unfolding locate_first_None_iff [OF assms] Bex_def abs_recs_iff
    by (meson same_key_all_queries)
  moreover have "(\<forall>t \<in> set all_queries. rec_key t d = None) \<longleftrightarrow> \<not> (\<exists>t. rec_key t d \<noteq> None)"
    by (metis rec_key_all_queries)
  ultimately show ?thesis unfolding spec_register_def by simp
qed

lemma registered_abs:
  assumes "table_inv db" "registered db d db'"
  shows "abs_recs db' = insert d (abs_recs db)"
proof -
  have "rec_heap db (next_addr db) = None"
    using table_inv_fresh [OF assms(1)] by fastforce
  then show ?thesis using assms(2) by (simp add: abs_recs_def registered_def)
qed

lemma register_rejects:
  assumes "dn_hal_if_register mem_ok HAL_INTF_OP_REG (Some d) db = Inr (STD_ERR i c p, db')"
  shows "\<not> (locate_first all_queries d db = None \<and> (\<exists>t. rec_key t d \<noteq> None) \<and> mem_ok)"
proof
  assume "locate_first all_queries d db = None \<and> (\<exists>t. rec_key t d \<noteq> None) \<and> mem_ok"
  then obtain t where "locate_first all_queries d db = None" "rec_key t d \<noteq> None" "mem_ok" by blast
  from register_OK [OF this(1,2)] this(3) assms show False by auto
qed

lemma register_accepts:
  assumes "dn_hal_if_register mem_ok HAL_INTF_OP_REG (Some d) db = Inr (STD_ERR_OK, db')"
  shows "mem_ok"
  using assms register_no_memory [of d db] by (cases mem_ok) auto

lemma register_refines_spec:
  assumes "table_inv db"
  shows "\<exists>db'. dn_hal_if_register mem_ok HAL_INTF_OP_REG (Some d) db =
      Inr (fst (spec_register mem_ok d (abs_recs db)), db') \<and>
    abs_recs db' = snd (spec_register mem_ok d (abs_recs db))"
proof -
  obtain rc db' where e: "dn_hal_if_register mem_ok HAL_INTF_OP_REG (Some d) db = Inr (rc, db')"
    using register_no_fault [OF assms] by (metis surj_pair)
  from assms e show ?thesis
  proof (cases rule: register_cases)
    case ok
    then have "mem_ok" using e register_accepts by blast
    then show ?thesis
      using e ok registered_abs [OF assms] by (simp add: spec_register_ok_iff [OF assms])
  next
    case same
    then show ?thesis
      using e register_rejects [of mem_ok d db] by (auto simp: spec_register_ok_iff [OF assms])
  next
    case bump
    moreover have "abs_recs db' = abs_recs db" using bump by (simp add: abs_recs_def)
    ultimately show ?thesis
      using e register_rejects [of mem_ok d db] by (auto simp: spec_register_ok_iff [OF assms])
  qed
qed

lemma spec_deregister_none:
  "table_inv db \<Longrightarrow> locate_first ts q db = None \<Longrightarrow> spec_deregister ts q (abs_recs db) = abs_recs db"
  by (induction ts) (auto simp: locate_None_iff abs_recs_iff split: option.splits)

lemma spec_deregister_some:
  assumes "table_inv db" "locate_first ts q db = Some a" "rec_heap db a = Some r"
  shows "spec_deregister ts q (abs_recs db) = abs_recs (db\<lparr>rec_heap := (rec_heap db)(a := None)\<rparr>)"
  using assms(2)
proof (induction ts)
  case Nil
  then show ?case by simp
next
  case (Cons t ts)
  show ?case
  proof (cases "locate t q db")
    case None
    then have "\<not> (\<exists>r \<in> abs_recs db. same_key t q r)"
      by (auto simp: locate_None_iff [OF assms(1)] abs_recs_iff)
    with None show ?thesis using Cons by simp
  next
    case (Some b)
    then have ab: "b = a" using Cons.prems by simp
    then have k: "same_key t q r"
      using Some assms(3) by (auto simp: locate_Some_iff [OF assms(1)])
    have only: "c = a" if "rec_heap db c = Some s" "same_key t q s" for c s
      using table_inv_unique [OF assms(1) that(1) assms(3)] that(2) k
      by (fastforce simp: same_key_def)
    then have "{s \<in> abs_recs db. \<not> same_key t q s} = abs_recs (db\<lparr>rec_heap := (rec_heap db)(a := None)\<rparr>)"
    proof (intro set_eqI iffI)
      fix s assume "s \<in> {s \<in> abs_recs db. \<not> same_key t q s}"
      then obtain c where c: "rec_heap db c = Some s" "\<not> same_key t q s"
        by (auto simp: abs_recs_iff)
      then have "c \<noteq> a" using k assms(3) by auto
      with c(1) show "s \<in> abs_recs (db\<lparr>rec_heap := (rec_heap db)(a := None)\<rparr>)"
        by (auto simp: abs_recs_iff)
    next
      fix s assume "s \<in> abs_recs (db\<lparr>rec_heap := (rec_heap db)(a := None)\<rparr>)"
      then obtain c where c: "rec_heap db c = Some s" "c \<noteq> a"
        by (auto simp: abs_recs_iff split: if_splits)
      then show "s \<in> {s \<in> abs_recs db. \<not> same_key t q s}"
        using only by (auto simp: abs_recs_iff)
    qed
    moreover have "\<exists>s \<in> abs_recs db. same_key t q s"
      using k assms(3) unfolding abs_recs_iff Bex_def by blast
    ultimately have "spec_deregister (t # ts) q (abs_recs db) =
        abs_recs (db\<lparr>rec_heap := (rec_heap db)(a := None)\<rparr>)"
      by (simp only: spec_deregister.simps if_True)
    then show ?thesis .
  qed
qed

lemma deregister_refines_spec:
  assumes "db_inv db"
  shows "\<exists>db'. dn_hal_if_register mem_ok HAL_INTF_OP_DEREG (Some q) db = Inr (STD_ERR_OK, db') \<and>
    abs_recs db' = spec_deregister all_queries q (abs_recs db)"
proof -
  have t: "table_inv db" and o: "desc_inv db"
    using assms by (simp_all add: db_inv_def)
  from t o show ?thesis
  proof (cases rule: cleanup_cases [where q = q])
    case none
    then show ?thesis by (simp add: dereg_is_cleanup spec_deregister_none [OF t])
  next
    case (found a r db')
    have "abs_recs db' = abs_recs (db\<lparr>rec_heap := (rec_heap db)(a := None)\<rparr>)"
      using found(4) by (simp add: abs_recs_def deregistered_def)
    then show ?thesis
      using found(3) by (simp add: dereg_is_cleanup spec_deregister_some [OF t found(1,2)])
  qed
qed

subsection \<open>Runs\<close>

text \<open>
  The calls of the clients: a registration with the outcome of its \<open>new\<close>, a deregistration, and the
  client's own \<open>new char[]\<close> for a description that a later registration hands over.
\<close>

datatype if_op = Op_Reg bool interface_ctrl | Op_Dereg interface_ctrl | Op_Desc string

definition exec_op :: "if_op \<Rightarrow> if_db \<Rightarrow> fault + (t_std_error \<times> if_db)" where
  "exec_op x db =
     (case x of
        Op_Reg mem_ok d \<Rightarrow> dn_hal_if_register mem_ok HAL_INTF_OP_REG (Some d) db
      | Op_Dereg d \<Rightarrow> dn_hal_if_register True HAL_INTF_OP_DEREG (Some d) db
      | Op_Desc s \<Rightarrow>
          Inr (STD_ERR_OK, db\<lparr>next_addr := next_addr db + 1, desc_heap := (desc_heap db)(next_addr db \<mapsto> s)\<rparr>))"

fun run_db :: "if_op list \<Rightarrow> if_db \<Rightarrow> fault + (t_std_error list \<times> if_db)" where
  "run_db [] db = Inr ([], db)"
| "run_db (x # xs) db =
     (case exec_op x db of
        Inl f \<Rightarrow> Inl f
      | Inr (rc, db1) \<Rightarrow>
        (case run_db xs db1 of Inl f \<Rightarrow> Inl f | Inr (rcs, db2) \<Rightarrow> Inr (rc # rcs, db2)))"

definition spec_op :: "if_op \<Rightarrow> interface_ctrl set \<Rightarrow> t_std_error \<times> interface_ctrl set" where
  "spec_op x A =
     (case x of
        Op_Reg mem_ok d \<Rightarrow> spec_register mem_ok d A
      | Op_Dereg d \<Rightarrow> (STD_ERR_OK, spec_deregister all_queries d A)
      | Op_Desc s \<Rightarrow> (STD_ERR_OK, A))"

fun run_spec :: "if_op list \<Rightarrow> interface_ctrl set \<Rightarrow> t_std_error list \<times> interface_ctrl set" where
  "run_spec [] A = ([], A)"
| "run_spec (x # xs) A =
     (case spec_op x A of (rc, A1) \<Rightarrow> (case run_spec xs A1 of (rcs, A2) \<Rightarrow> (rc # rcs, A2)))"

text \<open>
  What the table asks of its clients: a description that comes with a record is a block that is live and
  that no record of the table has.
\<close>

fun descs_given :: "if_op list \<Rightarrow> if_db \<Rightarrow> bool" where
  "descs_given [] db = True"
| "descs_given (x # xs) db =
     ((case x of Op_Reg mem_ok d \<Rightarrow> desc_given d db | _ \<Rightarrow> True) \<and>
      (case exec_op x db of Inl f \<Rightarrow> True | Inr (rc, db1) \<Rightarrow> descs_given xs db1))"

lemma op_refines_spec:
  assumes "db_inv db" "\<And>mem_ok d. x = Op_Reg mem_ok d \<Longrightarrow> desc_given d db"
  shows "\<exists>db1. exec_op x db = Inr (fst (spec_op x (abs_recs db)), db1) \<and>
    abs_recs db1 = snd (spec_op x (abs_recs db)) \<and> db_inv db1"
proof (cases x)
  case (Op_Reg mem_ok d)
  have t: "table_inv db" using assms(1) by (simp add: db_inv_def)
  show ?thesis
    using register_refines_spec [OF t, of mem_ok d] register_inv [OF assms(1) assms(2) [OF Op_Reg], of mem_ok]
    by (auto simp: exec_op_def spec_op_def Op_Reg)
next
  case (Op_Dereg d)
  show ?thesis
    using deregister_refines_spec [OF assms(1), of True d] deregister_inv [OF assms(1), of True "Some d"]
    by (auto simp: exec_op_def spec_op_def Op_Dereg)
next
  case (Op_Desc s)
  then show ?thesis
    using alloc_desc_inv [OF assms(1)] by (simp add: exec_op_def spec_op_def abs_recs_def)
qed

lemma run_refines_spec:
  assumes "db_inv db" "descs_given ops db"
  shows "\<exists>db'. run_db ops db = Inr (fst (run_spec ops (abs_recs db)), db') \<and>
    abs_recs db' = snd (run_spec ops (abs_recs db))"
  using assms
proof (induction ops arbitrary: db)
  case Nil
  show ?case by simp
next
  case (Cons x xs)
  obtain db1 where 1: "exec_op x db = Inr (fst (spec_op x (abs_recs db)), db1)"
    "abs_recs db1 = snd (spec_op x (abs_recs db))" "db_inv db1"
    using op_refines_spec [OF Cons.prems(1), of x] Cons.prems(2) by (cases x) auto
  then show ?case
    using Cons.IH [OF 1(3)] Cons.prems(2) by (auto split: prod.split)
qed

end
