(* ===== verification/IfProps.thy ===== *)
theory IfProps
  imports IfTable
begin

text \<open>
  The properties of the interface table over the states its clients can reach, each with a
  concrete run where it applies, and the three inputs on which the table does not do what its
  callers expect.
\<close>

section \<open>An example\<close>

text \<open>A mapped physical port, and the table after it has been registered.\<close>

definition port1 :: interface_ctrl where
  "port1 = zero_ctrl\<lparr>if_name := ''e101-001-0'', un := port_union True 9, if_index := 10, tap_id := 3\<rparr>"

definition run_state :: "if_op list \<Rightarrow> if_db" where
  "run_state ops = snd (projr (run_db ops empty_db))"

definition port1_db :: if_db where
  "port1_db = run_state [Op_Reg True port1]"

lemma port1_desc [simp]: "desc port1 = None"
  by (simp add: port1_def zero_ctrl_def)

lemma port1_by_name: "rec_key HAL_INTF_INFO_FROM_IF_NAME port1 = Some (Inl ''e101-001-0'')"
  by (simp add: rec_key_def port1_def)

lemma locate_first_empty: "locate_first ts d empty_db = None"
  by (induction ts) (auto simp: locate_def empty_db_def)

lemma port1_registered:
  "dn_hal_if_register True HAL_INTF_OP_REG (Some port1) empty_db = Inr (STD_ERR_OK, port1_db)"
  "registered empty_db port1 port1_db"
proof -
  obtain db' where e: "dn_hal_if_register True HAL_INTF_OP_REG (Some port1) empty_db =
      Inr (STD_ERR_OK, db')" "registered empty_db port1 db'"
    using register_OK [OF locate_first_empty] port1_by_name by (metis option.distinct(1))
  then have "port1_db = db'" by (simp add: port1_db_def run_state_def exec_op_def)
  with e show "dn_hal_if_register True HAL_INTF_OP_REG (Some port1) empty_db =
      Inr (STD_ERR_OK, port1_db)" "registered empty_db port1 port1_db" by simp_all
qed

lemma port1_heap: "rec_heap port1_db = [0 \<mapsto> port1]"
  using port1_registered(2) by (simp add: registered_def empty_db_def)

lemma port1_indexes: "idx_inv port1_db"
  using registered_idx_inv [OF _ _ port1_registered(2)] empty_db_inv by simp

lemma port1_reachable: "if_reachable port1_db"
  using if_reachable.init if_step.register [OF _ port1_registered(1)]
  by (rule if_reachable.step) (simp add: desc_given_def)

section \<open>Lookups\<close>

text \<open>C1: In every reachable state the maps are exactly the keys of the live records: a query
  finds a record if and only if the record shares the query's key, the set of records is the set
  of live blocks, and no two live records share a key of any query type.\<close>

theorem reachable_lookup_exact:
  assumes "if_reachable db"
  shows "(locate t q db = Some a \<longleftrightarrow> (\<exists>r. rec_heap db a = Some r \<and> same_key t q r)) \<and>
    if_records db = dom (rec_heap db) \<and>
    (rec_heap db a = Some r \<longrightarrow> rec_heap db b = Some s \<longrightarrow> same_key t r s \<longrightarrow> a = b)"
proof -
  have t: "table_inv db" using if_reachable_db_inv [OF assms] by (simp add: db_inv_def)
  have "a = b" if "rec_heap db a = Some r" "rec_heap db b = Some s" "same_key t r s"
    using that table_inv_unique [OF t that(1,2)] by (auto simp: same_key_def)
  then show ?thesis
    by (intro conjI impI) (auto simp: locate_Some_iff [OF t] table_inv_records [OF t])
qed

lemma reachable_lookup_exact_witness:
  "locate HAL_INTF_INFO_FROM_IF_NAME port1 port1_db = Some 0 \<and> if_records port1_db = {0}"
  using reachable_lookup_exact [OF port1_reachable, of HAL_INTF_INFO_FROM_IF_NAME port1 0]
  by (simp add: port1_heap same_key_def port1_by_name)

definition prep_query :: "interface_ctrl \<Rightarrow> interface_ctrl" where
  "prep_query q = (if q_type q = HAL_INTF_INFO_FROM_PORT then set_port_mapped q else q)"

lemma prep_query_type [simp]: "q_type (prep_query q) = q_type q"
  by (simp add: prep_query_def set_port_mapped_def)

text \<open>C12: A query answers with a record exactly when that record is in the table and shares the
  key of the query (with the port marked as mapped), and fails with the parameter error, the
  query unchanged but for that mark, exactly when no record does.\<close>

theorem get_info_refines:
  assumes "if_reachable db"
  shows "(dn_hal_get_interface_info (Some q) db = Inr (STD_ERR_OK, r) \<longleftrightarrow>
      r \<in> abs_recs db \<and> same_key (q_type q) (prep_query q) r) \<and>
    (dn_hal_get_interface_info (Some q) db = Inr (STD_ERR INTERFACE PARAM (Priv 0), prep_query q) \<longleftrightarrow>
      (\<forall>s \<in> abs_recs db. \<not> same_key (q_type q) (prep_query q) s))"
proof -
  have t: "table_inv db" using if_reachable_db_inv [OF assms] by (simp add: db_inv_def)
  have eq: "dn_hal_get_interface_info (Some q) db =
      (case locate (q_type q) (prep_query q) db of
         None \<Rightarrow> Inr (STD_ERR INTERFACE PARAM (Priv 0), prep_query q)
       | Some a \<Rightarrow> Inr (STD_ERR_OK, the (rec_heap db a)))"
    unfolding get_info_eq [OF t] Let_def prep_query_def [symmetric] prep_query_type ..
  show ?thesis
  proof (cases "locate (q_type q) (prep_query q) db")
    case None
    then have "\<forall>s \<in> abs_recs db. \<not> same_key (q_type q) (prep_query q) s"
      by (auto simp: abs_recs_iff locate_None_iff [OF t])
    then show ?thesis using None by (auto simp: eq)
  next
    case (Some a)
    then obtain s where s: "rec_heap db a = Some s" "same_key (q_type q) (prep_query q) s"
      using t by (auto elim: locate_live)
    have "u = s" if u: "u \<in> abs_recs db" "same_key (q_type q) (prep_query q) u" for u
    proof -
      obtain b where b: "rec_heap db b = Some u" using u(1) by (auto simp: abs_recs_iff)
      with u(2) have "locate (q_type q) (prep_query q) db = Some b"
        by (auto simp: locate_Some_iff [OF t])
      with Some s(1) b show ?thesis by simp
    qed
    moreover have "s \<in> abs_recs db" using s(1) by (auto simp: abs_recs_iff)
    moreover have "dn_hal_get_interface_info (Some q) db = Inr (STD_ERR_OK, s)"
      using s(1) by (simp add: eq Some)
    ultimately show ?thesis using s(2) by (metis Inr_inject prod.inject t_std_error.distinct(1))
  qed
qed

lemma port1_by_index:
  "dn_hal_get_interface_info (Some (zero_ctrl\<lparr>if_index := 10, q_type := HAL_INTF_INFO_FROM_IF\<rparr>)) port1_db =
     Inr (STD_ERR_OK, port1)"
proof -
  have "locate HAL_INTF_INFO_FROM_IF (zero_ctrl\<lparr>if_index := 10, q_type := HAL_INTF_INFO_FROM_IF\<rparr>) port1_db = Some 0"
    using port1_reachable [THEN if_reachable_db_inv]
    by (simp add: db_inv_def locate_Some_iff same_key_FROM_IF port1_heap) (simp add: port1_def zero_ctrl_def)
  then show ?thesis
    by (simp add: dn_hal_get_interface_info_def port1_heap)
qed

lemma get_info_refines_witness:
  "port1 \<in> abs_recs port1_db \<and>
   same_key HAL_INTF_INFO_FROM_IF (zero_ctrl\<lparr>if_index := 10, q_type := HAL_INTF_INFO_FROM_IF\<rparr>) port1"
  using get_info_refines [OF port1_reachable, of "zero_ctrl\<lparr>if_index := 10, q_type := HAL_INTF_INFO_FROM_IF\<rparr>" port1]
  by (simp add: port1_by_index prep_query_def)

section \<open>Registration and deregistration\<close>

text \<open>C2: Over every sequence of registrations, each with memory or without, of deregistrations and
  of allocations of descriptions by the clients, the table behaves as a set of records: the return
  codes are those of the set, and the live records are its elements. A registration is refused when
  the record shares a key with one of the set, has no key, or there is no memory; a deregistration
  takes out the record that the first successful query type finds. The clients keep the one rule of the
  interface (\<open>descs_given\<close>): the description of a record they register is none, or a block that is live
  and that no record of the table has.\<close>

theorem table_refines_set:
  assumes "descs_given ops empty_db"
  shows "\<exists>db'. run_db ops empty_db = Inr (fst (run_spec ops {}), db') \<and>
    abs_recs db' = snd (run_spec ops {})"
proof -
  have "db_inv empty_db" by (simp add: db_inv_def empty_db_inv)
  moreover have "abs_recs empty_db = {}" by (simp add: abs_recs_def empty_db_def)
  ultimately show ?thesis using run_refines_spec [OF _ assms] by metis
qed

text \<open>A port with a description that the client allocated: no memory at first, then a success, a
  second registration without one that is refused, and the deregistration.\<close>

definition port1_ops :: "if_op list" where
  "port1_ops = (let d = port1\<lparr>desc := Some 0\<rparr>
     in [Op_Desc ''uplink'', Op_Reg False d, Op_Reg True d, Op_Reg True port1, Op_Dereg d])"

lemma port1_ops_given: "descs_given port1_ops empty_db"
proof -
  let ?d = "port1\<lparr>desc := Some 0\<rparr>"
  obtain db0 where 0: "exec_op (Op_Desc ''uplink'') empty_db = Inr (STD_ERR_OK, db0)" "desc_given ?d db0"
    by (simp add: exec_op_def desc_given_def empty_db_def)
  have "exec_op (Op_Reg False ?d) db0 = Inr (STD_ERR INTERFACE PARAM (Priv 0), db0)"
    by (simp add: exec_op_def register_no_memory)
  then show ?thesis
    using 0 by (auto simp: port1_ops_def Let_def desc_given_def split: sum.split)
qed

lemma table_refines_set_witness:
  "\<exists>db'. run_db port1_ops empty_db =
     Inr ([STD_ERR_OK, STD_ERR INTERFACE PARAM (Priv 0), STD_ERR_OK, STD_ERR INTERFACE PARAM (Priv 0),
       STD_ERR_OK], db') \<and> abs_recs db' = {}"
proof -
  let ?d = "port1\<lparr>desc := Some 0\<rparr>"
  have k: "same_key HAL_INTF_INFO_FROM_IF_NAME port1 ?d" "same_key HAL_INTF_INFO_FROM_IF_NAME ?d ?d"
    by (simp_all add: same_key_FROM_IF_NAME port1_def)
  have ne: "\<not> (\<forall>t \<in> set all_queries. rec_key t ?d = None)"
    using same_key_all_queries [OF k(2)] k(2) by (force simp: same_key_def)
  have "spec_deregister ts ?d {?d} = {}" if "\<exists>t \<in> set ts. same_key t ?d ?d" for ts
    using that by (induction ts) auto
  then have "spec_deregister all_queries ?d {?d} = {}" using k(2) same_key_all_queries [OF k(2)] by blast
  moreover have "spec_register False ?d {} = (STD_ERR INTERFACE PARAM (Priv 0), {})"
    "spec_register True ?d {} = (STD_ERR_OK, {?d})"
    "spec_register True port1 {?d} = (STD_ERR INTERFACE PARAM (Priv 0), {?d})"
    using ne same_key_all_queries [OF k(1)] k(1) by (auto simp: spec_register_def)
  ultimately have "run_spec port1_ops {} =
      ([STD_ERR_OK, STD_ERR INTERFACE PARAM (Priv 0), STD_ERR_OK, STD_ERR INTERFACE PARAM (Priv 0),
        STD_ERR_OK], {})" by (simp add: port1_ops_def Let_def spec_op_def)
  then show ?thesis
    using table_refines_set [OF port1_ops_given] by (simp del: run_db.simps run_spec.simps)
qed

text \<open>A record that was registered is what every later query that shares one of its keys
  returns, until the table changes.\<close>

theorem register_then_get:
  assumes "if_reachable db" "desc d = None"
    "dn_hal_if_register True HAL_INTF_OP_REG (Some d) db = Inr (STD_ERR_OK, db')"
    "same_key (q_type q) (prep_query q) d"
  shows "dn_hal_get_interface_info (Some q) db' = Inr (STD_ERR_OK, d)"
proof -
  have i: "db_inv db'"
    using if_reachable_db_inv [OF assms(1)] _ assms(3)
    by (rule register_inv) (simp add: desc_given_def assms(2))
  then have t: "table_inv db'" by (simp add: db_inv_def)
  have "table_inv db" using if_reachable_db_inv [OF assms(1)] by (simp add: db_inv_def)
  then have "rec_heap db' (next_addr db) = Some d"
    using assms(3) by (cases rule: register_cases) (auto simp: registered_def)
  then have "locate (q_type q) (prep_query q) db' = Some (next_addr db)"
    using assms(4) locate_Some_iff [OF t] by blast
  moreover have "dn_hal_get_interface_info (Some q) db' =
      (case locate (q_type q) (prep_query q) db' of
         None \<Rightarrow> Inr (STD_ERR INTERFACE PARAM (Priv 0), prep_query q)
       | Some a \<Rightarrow> Inr (STD_ERR_OK, the (rec_heap db' a)))"
    unfolding get_info_eq [OF t] Let_def prep_query_def [symmetric] prep_query_type ..
  ultimately show ?thesis
    using \<open>rec_heap db' (next_addr db) = Some d\<close> by simp
qed

lemma port1_mapped: "port_mapped port1" "port_id port1 = 9" "npu_id port1 = 0"
  by (simp_all add: port1_def port_mapped_def port_id_def port_union_def zero_ctrl_def)

lemma register_then_get_witness:
  "dn_hal_get_interface_info
     (Some (zero_ctrl\<lparr>if_name := ''e101-001-0'', q_type := HAL_INTF_INFO_FROM_IF_NAME\<rparr>)) port1_db =
   Inr (STD_ERR_OK, port1)"
  by (rule register_then_get [OF if_reachable.init port1_desc port1_registered(1)])
    (simp add: prep_query_def same_key_FROM_IF_NAME port1_def)

text \<open>A record that has just been registered is the one that every query type finds, and freeing it
  again gives back every map.\<close>

lemma registered_no_key:
  assumes "table_inv db" "locate_first all_queries d db = None" "rec_heap db b = Some s"
  shows "\<not> same_key t d s"
  using assms by (auto simp: locate_first_None_iff)

lemma registered_found:
  assumes t: "table_inv db" and r: "registered db d db1"
    and n: "locate_first all_queries d db = None" and k: "rec_key t0 d \<noteq> None"
  shows "locate_first all_queries d db1 = Some (next_addr db)"
proof -
  have t1: "table_inv db1" using registered_table_inv [OF t r n] k by blast
  have heap: "rec_heap db1 = (rec_heap db)(next_addr db \<mapsto> d)" using r by (simp add: registered_def)
  have "same_key t0 d d" using k by (simp add: same_key_def)
  then have "locate_first all_queries d db1 \<noteq> None"
    by (auto simp: locate_first_None_iff [OF t1] heap)
  then obtain b where b: "locate_first all_queries d db1 = Some b" by blast
  then obtain s t' where "rec_heap db1 b = Some s" "same_key t' d s"
    using locate_first_live [OF t1] by blast
  then have "b = next_addr db" using registered_no_key [OF t n] by (auto simp: heap split: if_splits)
  with b show ?thesis by simp
qed

lemma deregistered_index:
  assumes t: "table_inv db" and r: "registered db d db1" and n: "locate_first all_queries d db = None"
    and db2: "deregistered db1 d a d db2"
  shows "index_of db2 t k = index_of db t k"
proof (cases "rec_key t d = Some k")
  case True
  have "index_of db t k \<noteq> Some b" for b
  proof
    assume "index_of db t k = Some b"
    then obtain s where "rec_heap db b = Some s" "rec_key t s = Some k"
      using table_inv_index [OF assms(1)] by blast
    with registered_no_key [OF assms(1) n, of b s t] True show False by (simp add: same_key_def)
  qed
  then have "index_of db t k = None" by (cases "index_of db t k") auto
  with True show ?thesis using db2 by (simp add: deregistered_def)
next
  case False
  then show ?thesis using db2 r by (simp add: deregistered_def registered_def)
qed

text \<open>C31: A registration followed by the deregistration of the same record gives back the
  records, the keys and, from a state whose index set is exact, the index set. The description
  blocks are those from before but for the one the client handed over with the record, if any,
  which the deregistration frees; it was live and belonged to no record of the table.\<close>

theorem register_deregister_restores:
  assumes "if_reachable db" "desc_given d db"
    "dn_hal_if_register True HAL_INTF_OP_REG (Some d) db = Inr (STD_ERR_OK, db1)"
  shows "\<exists>db2. dn_hal_if_register mem_ok HAL_INTF_OP_DEREG (Some d) db1 = Inr (STD_ERR_OK, db2) \<and>
    rec_heap db2 = rec_heap db \<and> if_records db2 = if_records db \<and>
    desc_heap db2 = (case desc d of None \<Rightarrow> desc_heap db | Some b \<Rightarrow> (desc_heap db)(b := None)) \<and>
    (\<forall>t k. index_of db2 t k = index_of db t k) \<and>
    (idx_inv db \<longrightarrow> if_indexes db2 = if_indexes db)"
proof -
  let ?p = "next_addr db"
  have t: "table_inv db" using if_reachable_db_inv [OF assms(1)] by (simp add: db_inv_def)
  from t assms(3) obtain t0 where r: "registered db d db1"
    and n: "locate_first all_queries d db = None" and k: "rec_key t0 d \<noteq> None"
    by (cases rule: register_cases) auto
  have t1: "table_inv db1" using registered_table_inv [OF t r n] k by blast
  have fresh: "rec_heap db ?p = None" using table_inv_fresh [OF t] by fastforce
  have heap: "rec_heap db1 = (rec_heap db)(?p \<mapsto> d)" using r by (simp add: registered_def)
  let ?h = "case desc d of None \<Rightarrow> desc_heap db | Some b \<Rightarrow> (desc_heap db)(b := None)"
  have del: "delete_desc (desc d) (desc_heap db1) = Inr ?h"
    using assms(2) r by (auto simp: desc_given_def registered_def delete_desc_def split: option.split)
  then obtain db2 where db2: "cleanup (Some d) db1 = Inr db2" "deregistered db1 d ?p d db2"
    using cleanup_found registered_found [OF t r n k] heap by fastforce
  have "rec_heap db2 = rec_heap db" "desc_heap db2 = ?h" "if_records db2 = if_records db"
    using db2(2) r fresh table_inv_records [OF t] del
    by (auto simp: deregistered_def registered_def domIff)
  moreover have "if_indexes db2 = if_indexes db" if "idx_inv db"
  proof -
    have "idx_inv db2"
      using deregistered_idx_inv [OF t1 _ _ db2(2)] registered_idx_inv [OF t that r] heap by simp
    then show ?thesis
      using that calculation(1) by (intro oset_ext) (auto simp: idx_inv_def)
  qed
  ultimately show ?thesis
    using db2(1) deregistered_index [OF t r n db2(2)] by (simp add: dereg_is_cleanup)
qed

lemma register_deregister_restores_witness:
  "\<exists>db2. dn_hal_if_register True HAL_INTF_OP_DEREG (Some port1) port1_db = Inr (STD_ERR_OK, db2) \<and>
    rec_heap db2 = Map.empty \<and> if_indexes db2 = []"
  using register_deregister_restores [OF if_reachable.init _ port1_registered(1), of True]
    empty_db_inv(3) by (auto simp: empty_db_def desc_given_def)

section \<open>The walk over the interface indexes\<close>

text \<open>A client that asks for the index after the last one until there is none. The fuel is the
  number of calls.\<close>

fun walk_ifindexes :: "nat \<Rightarrow> i32 option \<Rightarrow> if_db \<Rightarrow> int list" where
  "walk_ifindexes 0 cur db = []"
| "walk_ifindexes (Suc n) cur db =
     (case dn_hal_get_next_ifindex cur db of
        Inr (STD_ERR_OK, Some j) \<Rightarrow> j # walk_ifindexes n (Some (word_of_int j)) db
      | _ \<Rightarrow> [])"

lemma idx_inv_word:
  "idx_inv db \<Longrightarrow> x \<in> set (if_indexes db) \<Longrightarrow> sint (word_of_int x :: i32) = x"
  by (auto simp: idx_inv_def)

lemma oset_upper_bound_split:
  assumes "oset (xs @ x # ys)"
  shows "oset_upper_bound x (xs @ x # ys) = (case ys of [] \<Rightarrow> None | y # _ \<Rightarrow> Some y)"
proof -
  have "\<forall>z \<in> set xs. \<not> x < z" using assms by (fastforce simp: oset_def sorted_append)
  then have "find (\<lambda>z. x < z) (xs @ x # ys) = find (\<lambda>z. x < z) ys"
    by (induction xs) auto
  moreover have "case ys of [] \<Rightarrow> True | y # _ \<Rightarrow> x < y"
    using assms by (cases ys) (auto simp: oset_def sorted_append order.strict_iff_order)
  ultimately show ?thesis by (cases ys) (auto simp: oset_upper_bound_def)
qed

lemma next_ifindex_at:
  assumes "idx_inv db" "if_indexes db = xs @ x # ys"
  shows "dn_hal_get_next_ifindex (Some (word_of_int x)) db =
    (case ys of [] \<Rightarrow> Inr (STD_ERR INTERFACE PARAM (Priv 0), None) | y # _ \<Rightarrow> Inr (STD_ERR_OK, Some y))"
proof -
  have "oset (xs @ x # ys)" using assms by (simp add: idx_inv_def)
  then have "oset_upper_bound x (if_indexes db) = (case ys of [] \<Rightarrow> None | y # _ \<Rightarrow> Some y)"
    using oset_upper_bound_split [of xs x ys] assms(2) by simp
  then show ?thesis
    using idx_inv_word [OF assms(1), of x] assms(2)
    by (simp add: dn_hal_get_next_ifindex_def split: list.split)
qed

lemma walk_from:
  assumes "idx_inv db" "if_indexes db = xs @ x # ys"
  shows "walk_ifindexes (Suc (length ys)) (Some (word_of_int x)) db = ys"
  using assms(2)
proof (induction ys arbitrary: xs x)
  case Nil
  then show ?case using next_ifindex_at [OF assms(1), of xs x "[]"] by simp
next
  case (Cons y ys)
  have "walk_ifindexes (Suc (length ys)) (Some (word_of_int y)) db = ys"
    using Cons.IH [of "xs @ [x]" y] Cons.prems by simp
  then show ?case using next_ifindex_at [OF assms(1) Cons.prems] by simp
qed

text \<open>C17: From a state whose index set is exact, a walk that starts without an index and asks
  for the next one until it is refused visits every interface index of the default VRF once, in
  increasing order, and no other; without any interface the first call dereferences the end of
  the set.\<close>

theorem walk_visits_all:
  assumes "idx_inv db" "if_indexes db \<noteq> []"
  shows "walk_ifindexes (Suc (length (if_indexes db))) None db = if_indexes db \<and>
    sorted (if_indexes db) \<and> distinct (if_indexes db) \<and>
    set (if_indexes db) = {sint (if_index r) | r. r \<in> abs_recs db \<and> vrf_id r = 0} \<and>
    dn_hal_get_next_ifindex None empty_db = Inl End_Iterator"
proof -
  obtain x xs where x: "if_indexes db = x # xs" using assms(2) by (cases "if_indexes db") auto
  have "walk_ifindexes (Suc (length xs)) (Some (word_of_int x)) db = xs"
    using walk_from [OF assms(1), of "[]" x xs] x by simp
  then have "walk_ifindexes (Suc (length (if_indexes db))) None db = if_indexes db"
    using x by (simp add: dn_hal_get_next_ifindex_def)
  moreover have "set (if_indexes db) = {sint (if_index r) | r. r \<in> abs_recs db \<and> vrf_id r = 0}"
    using assms(1) unfolding idx_inv_def abs_recs_iff by blast
  ultimately show ?thesis
    using assms(1) by (simp add: idx_inv_def oset_def dn_hal_get_next_ifindex_def empty_db_def)
qed

lemma port1_indexes_eq: "if_indexes port1_db = [10]"
proof -
  have f: "vrf_id port1 = 0" "if_index port1 = 10"
    by (simp_all add: port1_def zero_ctrl_def)
  have "x \<in> set (if_indexes port1_db) \<longleftrightarrow> x = 10" for x
    using port1_indexes f by (simp add: idx_inv_def port1_heap)
  then have "set (if_indexes port1_db) = set [10]" by auto
  then show ?thesis
    using port1_indexes by (intro oset_ext) (auto simp: idx_inv_def oset_def)
qed

lemma walk_visits_all_witness: "walk_ifindexes 2 None port1_db = [10]"
  using walk_visits_all [OF port1_indexes] by (simp add: port1_indexes_eq numeral_2_eq_2)

section \<open>Faults and updates\<close>

text \<open>C18: In every state that the clients' calls reach without a description update that ran out of
  memory, no call with an argument faults, whatever the record, the query and the memory of this
  call: lookups never follow a pointer to a deleted record, and no description block is deleted
  twice. In particular the first description update without memory returns; it is the calls after it
  that can delete the block again.\<close>

theorem reachable_no_fault:
  assumes "if_reachable db"
  shows "(\<forall>f. dn_hal_if_register m HAL_INTF_OP_REG (Some d) db \<noteq> Inl f) \<and>
    (\<forall>f. dn_hal_if_register m HAL_INTF_OP_DEREG p db \<noteq> Inl f) \<and>
    (\<forall>f. dn_hal_get_interface_info (Some d) db \<noteq> Inl f) \<and>
    (\<forall>f. dn_hal_update_intf_mac cpy ifx mac db \<noteq> Inl f) \<and>
    (\<forall>f. nas_cmn_update_router_intf_info vrf ifx (Some i) db \<noteq> Inl f) \<and>
    (\<forall>f. dn_hal_update_intf_desc cpy m (Some d) (Some s) db \<noteq> Inl f)"
proof -
  have i: "db_inv db" using if_reachable_db_inv [OF assms] .
  then have t: "table_inv db" by (simp add: db_inv_def)
  show ?thesis
    using register_no_fault [OF t, of m d] deregister_no_fault [OF i, of m p]
      get_info_no_fault [OF t, of d] update_router_no_fault [OF t, of vrf ifx i]
      update_interface_no_fault [OF t, of cpy
        "zero_ctrl\<lparr>if_index := ifx, q_type := HAL_INTF_INFO_FROM_IF, mac_addr := cpy mac MAC_STR_SZ\<rparr>"]
      update_desc_no_fault [OF i, of cpy m d s]
    by (simp add: dn_hal_update_intf_mac_def) (metis sum.distinct(1))
qed

lemma reachable_no_fault_witness:
  "\<forall>f. dn_hal_if_register True HAL_INTF_OP_DEREG (Some port1) port1_db \<noteq> Inl f"
  using reachable_no_fault [OF port1_reachable] by blast

text \<open>The description a client reads from a record.\<close>

definition intf_desc :: "if_db \<Rightarrow> interface_ctrl \<Rightarrow> string option" where
  "intf_desc db r = (case desc r of None \<Rightarrow> None | Some b \<Rightarrow> desc_heap db b)"

text \<open>A record keeps its description when that of another one is deleted.\<close>

lemma delete_desc_keeps:
  assumes inv: "desc_inv db" and r: "rec_heap db a = Some r" and u: "rec_heap db b = Some u" "b \<noteq> a"
    and del: "delete_desc (desc r) (desc_heap db) = Inr h"
  shows "(case desc u of None \<Rightarrow> None | Some c \<Rightarrow> h c) = intf_desc db u"
proof -
  have "desc u \<noteq> desc r \<or> desc r = None"
    using inv r u unfolding desc_inv_def by (metis not_None_eq)
  then show ?thesis
    using delete_desc_Inr [OF del] by (cases "desc u") (auto simp: intf_desc_def)
qed

lemma desc_not_fresh:
  "table_inv db \<Longrightarrow> desc_inv db \<Longrightarrow> rec_heap db b = Some u \<Longrightarrow> desc u \<noteq> Some (next_addr db)"
  using table_inv_fresh_desc [of db] unfolding desc_inv_def by (metis domIff less_irrefl not_None_eq)

text \<open>C32: A description update that succeeds changes the record that the query finds and no
  other: the record then has the whole new text, or none when the text is empty or does not
  start with a letter or a digit, and every other record keeps its own description.\<close>

theorem update_desc_sets:
  assumes "if_reachable db" "safestrncpy_spec cpy"
    "dn_hal_update_intf_desc cpy m (Some q) (Some s) db = Inr (STD_ERR_OK, db')"
  shows "\<exists>a r r'. rec_heap db a = Some r \<and> same_key (q_type q) q r \<and>
    rec_heap db' = (rec_heap db)(a \<mapsto> r') \<and> r' = r\<lparr>desc := desc r'\<rparr> \<and>
    intf_desc db' r' = (if s = [] \<or> \<not> isalnum (hd s) then None else Some s) \<and>
    (\<forall>b u. rec_heap db b = Some u \<longrightarrow> b \<noteq> a \<longrightarrow> intf_desc db' u = intf_desc db u)"
proof -
  have i: "db_inv db" using if_reachable_db_inv [OF assms(1)] .
  then have t: "table_inv db" and o: "desc_inv db" by (simp_all add: db_inv_def)
  have key: "same_key (q_type q) q r"
    if "locate (q_type q) q db = Some a" "rec_heap db a = Some r" for a r
    using that locate_Some_iff [OF t] by auto
  from i assms(3) show ?thesis
  proof (cases rule: update_desc_cases)
    case (cleared a r h)
    have "intf_desc db' u = intf_desc db u" if "rec_heap db b = Some u" "b \<noteq> a" for b u
    proof -
      have "intf_desc db' u = (case desc u of None \<Rightarrow> None | Some c \<Rightarrow> h c)"
        using cleared(6) by (simp add: intf_desc_def split: option.split)
      then show ?thesis using delete_desc_keeps [OF o cleared(2) that cleared(5)] by simp
    qed
    moreover have "intf_desc db' (r\<lparr>desc := None\<rparr>) = None" by (simp add: intf_desc_def)
    ultimately show ?thesis
      using cleared(2,3,6) key [OF cleared(1,2)]
      by - (rule exI [where x = a], rule exI [where x = r],
          rule exI [where x = "r\<lparr>desc := None\<rparr>"], auto)
  next
    case (replaced a r h)
    have "cpy s (length s + 1) = s"
      using safestrncpy_fits [OF assms(2)] by simp
    moreover have "intf_desc db' u = intf_desc db u" if "rec_heap db b = Some u" "b \<noteq> a" for b u
    proof -
      have "intf_desc db' u = (case desc u of None \<Rightarrow> None | Some c \<Rightarrow> h c)"
        using replaced(8) desc_not_fresh [OF t o that(1)] by (auto simp: intf_desc_def split: option.split)
      then show ?thesis using delete_desc_keeps [OF o replaced(2) that replaced(7)] by simp
    qed
    moreover have "intf_desc db' (r\<lparr>desc := Some (next_addr db)\<rparr>) = Some (cpy s (length s + 1))"
      using replaced(8) by (simp add: intf_desc_def)
    ultimately show ?thesis
      using replaced(2-4,8) key [OF replaced(1,2)]
      by - (rule exI [where x = a], rule exI [where x = r],
          rule exI [where x = "r\<lparr>desc := Some (next_addr db)\<rparr>"], auto)
  qed simp_all
qed

definition port1_query :: interface_ctrl where
  "port1_query = zero_ctrl\<lparr>if_index := 10, q_type := HAL_INTF_INFO_FROM_IF\<rparr>"

lemma port1_query_finds: "locate (q_type port1_query) port1_query port1_db = Some 0"
proof -
  have "same_key HAL_INTF_INFO_FROM_IF port1_query port1"
    by (simp add: same_key_FROM_IF port1_query_def port1_def zero_ctrl_def)
  then show ?thesis
    using port1_reachable [THEN if_reachable_db_inv]
    by (simp add: db_inv_def locate_Some_iff port1_heap port1_query_def)
qed

lemma port1_update_desc:
  "\<exists>db'. dn_hal_update_intf_desc (\<lambda>s n. take (n - 1) s) True (Some port1_query) (Some ''uplink'') port1_db
     = Inr (STD_ERR_OK, db')"
proof -
  have "length ''uplink'' \<le> MAX_INTF_DESC_LEN" "isalnum (hd ''uplink'')"
    by (simp_all add: MAX_INTF_DESC_LEN_def isalnum_def)
  then show ?thesis
    using port1_query_finds
    by (simp add: dn_hal_update_intf_desc_def Let_def port1_heap delete_desc_def)
qed

lemma update_desc_sets_witness:
  "\<exists>db' r. dn_hal_update_intf_desc (\<lambda>s n. take (n - 1) s) True (Some port1_query) (Some ''uplink'') port1_db
     = Inr (STD_ERR_OK, db') \<and> rec_heap db' 0 = Some r \<and> intf_desc db' r = Some ''uplink''"
proof -
  obtain db' where e: "dn_hal_update_intf_desc (\<lambda>s n. take (n - 1) s) True (Some port1_query)
      (Some ''uplink'') port1_db = Inr (STD_ERR_OK, db')"
    using port1_update_desc by blast
  have "isalnum (hd ''uplink'')" by (simp add: isalnum_def)
  with update_desc_sets [OF port1_reachable safestrncpy_spec_take e] e show ?thesis
    by (auto simp: port1_heap split: if_splits)
qed

section \<open>Where the table is not what its callers expect\<close>


text \<open>C39: A description update that runs out of memory returns the parameter error after the
  old block is gone and leaves the record pointing to it: the next deregistration of the record
  deletes the block a second time.\<close>

theorem update_desc_oom_double_free:
  assumes "db_inv db" "locate_first all_queries q db = Some a" "locate (q_type q) q db = Some a"
    "rec_heap db a = Some r" "desc r = Some d"
    "isalnum (hd s)" "s \<noteq> []" "length s \<le> MAX_INTF_DESC_LEN"
  shows "\<exists>db'. dn_hal_update_intf_desc cpy False (Some q) (Some s) db =
      Inr (STD_ERR INTERFACE PARAM (Priv 0), db') \<and>
    dn_hal_if_register m HAL_INTF_OP_DEREG (Some q) db' = Inl Double_Free"
proof -
  obtain h where h: "delete_desc (desc r) (desc_heap db) = Inr h"
    using assms(1,4) by (auto simp: db_inv_def elim: desc_inv_delete)
  have "dn_hal_update_intf_desc cpy False (Some q) (Some s) db =
      Inr (STD_ERR INTERFACE PARAM (Priv 0), db\<lparr>desc_heap := h\<rparr>)"
    using assms by (simp add: dn_hal_update_intf_desc_def Let_def h [unfolded assms(5)])
  moreover have "locate_first ts q (db\<lparr>desc_heap := h\<rparr>) = locate_first ts q db" for ts
    by (induction ts) (simp_all add: locate_def split: option.split)
  moreover have "h d = None" using delete_desc_Inr [OF h, of d] assms(5) by simp
  ultimately show ?thesis
    using assms(2,4,5) cleanup_double_free [of q "db\<lparr>desc_heap := h\<rparr>" a r d]
    by (simp add: dereg_is_cleanup)
qed

lemma update_desc_oom_double_free_witness:
  "\<exists>db q db'. if_reachable db \<and>
    dn_hal_update_intf_desc (\<lambda>s n. s) False (Some q) (Some ''new'') db =
      Inr (STD_ERR INTERFACE PARAM (Priv 0), db') \<and>
    dn_hal_if_register True HAL_INTF_OP_DEREG (Some q) db' = Inl Double_Free"
proof -
  define d where "d = port1\<lparr>desc := Some 0, q_type := HAL_INTF_INFO_FROM_IF_NAME\<rparr>"
  define db0 where "db0 = empty_db\<lparr>next_addr := 1, desc_heap := [0 \<mapsto> ''old'']\<rparr>"
  have r0: "if_reachable db0"
    using if_reachable.step [OF if_reachable.init if_step.alloc_desc, of "''old''"]
    by (simp add: db0_def empty_db_def)
  have k: "rec_key HAL_INTF_INFO_FROM_IF_NAME d \<noteq> None" using port1_by_name by (simp add: d_def)
  have "locate_first ts d db0 = None" for ts
    by (induction ts) (simp_all add: locate_def db0_def empty_db_def)
  then obtain db where db: "dn_hal_if_register True HAL_INTF_OP_REG (Some d) db0 = Inr (STD_ERR_OK, db)"
    "registered db0 d db" using register_OK k by blast
  have r: "if_reachable db"
    using r0 if_step.register [OF _ db(1)] by (rule if_reachable.step)
      (simp add: desc_given_def d_def db0_def empty_db_def)
  have heap: "rec_heap db = [1 \<mapsto> d]" using db(2) by (simp add: registered_def db0_def empty_db_def)
  have i: "db_inv db" using if_reachable_db_inv [OF r] .
  then have t: "table_inv db" by (simp add: db_inv_def)
  have s: "same_key HAL_INTF_INFO_FROM_IF_NAME d d" using k by (simp add: same_key_def)
  then have l: "locate HAL_INTF_INFO_FROM_IF_NAME d db = Some 1"
    by (simp add: locate_Some_iff [OF t] heap)
  have "locate_first all_queries d db \<noteq> None"
    using s by (auto simp: locate_first_None_iff [OF t] heap)
  then obtain b where b: "locate_first all_queries d db = Some b" by blast
  then have "b = 1"
    using locate_first_live [OF t b] by (metis heap fun_upd_apply option.distinct(1))
  with b have f: "locate_first all_queries d db = Some 1" by simp
  have q: "q_type d = HAL_INTF_INFO_FROM_IF_NAME" "desc d = Some 0" by (simp_all add: d_def)
  show ?thesis
    using r update_desc_oom_double_free [OF i f, of d 0 "''new''" "\<lambda>s n. s" True] l q heap
    by (auto simp: isalnum_def MAX_INTF_DESC_LEN_def)
qed

end
