(* ===== verification/IfUtils.thy ===== *)
theory IfUtils
  imports IfProps
begin

text \<open>
  The helpers of \<open>src/src/nas_if_utils.cpp\<close>, each one query of the interface table with a zeroed
  record. The size of the name array, the parsing of a MAC address and the accessors of an event
  object belong to other packages: a size, a function and a record of the attributes.
\<close>

section \<open>Queries by name and by index\<close>

text \<open>The two queries that every helper makes: the rest of the record is 0.\<close>

definition name_query :: "strcopy \<Rightarrow> nat \<Rightarrow> string \<Rightarrow> interface_ctrl" where
  "name_query cpy name_sz name =
     zero_ctrl\<lparr>if_name := cpy name name_sz, q_type := HAL_INTF_INFO_FROM_IF_NAME\<rparr>"

definition index_query :: "i32 \<Rightarrow> interface_ctrl" where
  "index_query ix = zero_ctrl\<lparr>if_index := ix, q_type := HAL_INTF_INFO_FROM_IF\<rparr>"

definition dn_hal_get_intf_mac_addr_str ::
  "strcopy \<Rightarrow> nat \<Rightarrow> string \<Rightarrow> bool \<Rightarrow> if_db \<Rightarrow> fault + (t_std_error \<times> string option)" where
  "dn_hal_get_intf_mac_addr_str cpy name_sz name out db =
     (if \<not> out then Inr (STD_ERR INTERFACE PARAM (Priv 0), None)
      else case dn_hal_get_interface_info (Some (name_query cpy name_sz name)) db of
             Inl f \<Rightarrow> Inl f
           | Inr (rc, r) \<Rightarrow>
               (if rc \<noteq> STD_ERR_OK then Inr (STD_ERR INTERFACE CFG (Priv 0), None)
                else Inr (STD_ERR_OK, Some (cpy (mac_addr r) MAC_STR_SZ))))"

text \<open>\<open>to_mac\<close> is \<open>std_string_to_mac\<close>: the address of a text of a length, or a failure.\<close>

definition dn_hal_get_interface_mac ::
  "(string \<Rightarrow> nat \<Rightarrow> 'm option) \<Rightarrow> i32 \<Rightarrow> bool \<Rightarrow> if_db \<Rightarrow> fault + (t_std_error \<times> 'm option)" where
  "dn_hal_get_interface_mac to_mac ix out db =
     (if \<not> out then Inr (STD_ERR INTERFACE PARAM (Priv 0), None)
      else case dn_hal_get_interface_info (Some (index_query ix)) db of
             Inl f \<Rightarrow> Inl f
           | Inr (rc, r) \<Rightarrow>
               (if rc \<noteq> STD_ERR_OK then Inr (STD_ERR INTERFACE CFG (Priv 0), None)
                else case to_mac (mac_addr r) (length (mac_addr r)) of
                       None \<Rightarrow> Inr (STD_ERR INTERFACE FAIL (Priv 0), None)
                     | Some m \<Rightarrow> Inr (STD_ERR_OK, Some m)))"

definition nas_get_lag_id_from_if_index :: "i32 \<Rightarrow> if_db \<Rightarrow> fault + (t_std_error \<times> u64 option)" where
  "nas_get_lag_id_from_if_index ix db =
     (case dn_hal_get_interface_info (Some (index_query ix)) db of
        Inl f \<Rightarrow> Inl f
      | Inr (rc, r) \<Rightarrow>
          (if rc \<noteq> STD_ERR_OK then Inr (rc, None)
           else if int_type r \<noteq> nas_int_type_LAG then Inr (STD_ERR INTERFACE PARAM (Priv 0), None)
           else Inr (rc, Some (lag_id r))))"

definition lag_query :: "u64 \<Rightarrow> interface_ctrl" where
  "lag_query lag = zero_ctrl\<lparr>q_type := HAL_INTF_INFO_FROM_LAG, un := lag, int_type := nas_int_type_LAG\<rparr>"

definition nas_get_lag_if_index :: "u64 \<Rightarrow> if_db \<Rightarrow> fault + (t_std_error \<times> i32 option)" where
  "nas_get_lag_if_index ndi_lag_id db =
     (case dn_hal_get_interface_info (Some (lag_query ndi_lag_id)) db of
        Inl f \<Rightarrow> Inl f
      | Inr (rc, r) \<Rightarrow>
          (if rc \<noteq> STD_ERR_OK then Inr (rc, None)
           else if int_type r \<noteq> nas_int_type_LAG then Inr (STD_ERR INTERFACE PARAM (Priv 0), None)
           else Inr (rc, Some (if_index r))))"

text \<open>\<open>port_mapped\<close> is read from the union, here only of a port.\<close>

definition nas_is_virtual_port :: "i32 \<Rightarrow> if_db \<Rightarrow> fault + bool" where
  "nas_is_virtual_port ix db =
     (case dn_hal_get_interface_info (Some (index_query ix)) db of
        Inl f \<Rightarrow> Inl f
      | Inr (rc, r) \<Rightarrow>
          (if rc \<noteq> STD_ERR_OK then Inr False
           else if int_type r \<noteq> nas_int_type_PORT then Inr False
           else Inr (\<not> port_mapped r)))"

definition nas_com_get_if_index_to_name ::
  "strcopy \<Rightarrow> i32 \<Rightarrow> nat \<Rightarrow> u32 \<Rightarrow> if_db \<Rightarrow> fault + (t_std_error \<times> string option)" where
  "nas_com_get_if_index_to_name cpy ix len vrf db =
     (case dn_hal_get_interface_info (Some ((index_query ix)\<lparr>vrf_id := vrf\<rparr>)) db of
        Inl f \<Rightarrow> Inl f
      | Inr (rc, r) \<Rightarrow>
          (if rc \<noteq> STD_ERR_OK then Inr (STD_ERR INTERFACE FAIL (Priv_rc rc), None)
           else Inr (STD_ERR_OK, Some (cpy (if_name r) len))))"

definition nas_com_get_name_to_if_index ::
  "strcopy \<Rightarrow> nat \<Rightarrow> string \<Rightarrow> if_db \<Rightarrow> fault + (t_std_error \<times> i32 option)" where
  "nas_com_get_name_to_if_index cpy name_sz name db =
     (case dn_hal_get_interface_info (Some (name_query cpy name_sz name)) db of
        Inl f \<Rightarrow> Inl f
      | Inr (rc, r) \<Rightarrow>
          (if rc \<noteq> STD_ERR_OK then Inr (STD_ERR INTERFACE FAIL (Priv_rc rc), None)
           else Inr (STD_ERR_OK, Some (if_index r))))"

definition nas_com_get_if_type ::
  "strcopy \<Rightarrow> nat \<Rightarrow> string \<Rightarrow> if_db \<Rightarrow> fault + (t_std_error \<times> nas_int_type option)" where
  "nas_com_get_if_type cpy name_sz name db =
     (case dn_hal_get_interface_info (Some (name_query cpy name_sz name)) db of
        Inl f \<Rightarrow> Inl f
      | Inr (rc, r) \<Rightarrow>
          (if rc \<noteq> STD_ERR_OK then Inr (STD_ERR INTERFACE FAIL (Priv_rc rc), None)
           else Inr (STD_ERR_OK, Some (int_type r))))"

section \<open>Port mapping events\<close>

datatype nas_int_port_mapping_t = nas_int_phy_port_MAPPED | nas_int_phy_port_UNMAPPED

text \<open>
  What the code reads of the event: whether its key is that of an interface, whether its
  operation is a set, and its attributes. The NPU is stored as an \<open>int\<close>.
\<close>

record port_event =
  ev_key_matches :: bool
  ev_is_set :: bool
  ev_npu :: "u32 option"
  ev_port :: "u32 option"
  ev_name :: "string option"
  ev_index :: "u32 option"

definition event_query :: "strcopy \<Rightarrow> nat \<Rightarrow> port_event \<Rightarrow> interface_ctrl option" where
  "event_query cpy name_sz e =
     (case ev_name e of
        Some name \<Rightarrow> Some (name_query cpy name_sz name)
      | None \<Rightarrow> (case ev_index e of None \<Rightarrow> None | Some ix \<Rightarrow> Some (index_query ix)))"

text \<open>The second result is what is written to the status, when there is one to write to.\<close>

definition nas_get_phy_port_mapping_change ::
  "strcopy \<Rightarrow> nat \<Rightarrow> port_event \<Rightarrow> bool \<Rightarrow> if_db \<Rightarrow> fault + (bool \<times> nas_int_port_mapping_t option)" where
  "nas_get_phy_port_mapping_change cpy name_sz e status db =
     (if \<not> ev_key_matches e \<or> \<not> ev_is_set e then Inr (False, None)
      else case (ev_npu e, ev_port e) of
        (Some npu, Some port) \<Rightarrow>
          (case event_query cpy name_sz e of
             None \<Rightarrow> Inr (False, None)
           | Some q \<Rightarrow>
             (case dn_hal_get_interface_info (Some q) db of
                Inl f \<Rightarrow> Inl f
              | Inr (rc, r) \<Rightarrow>
                (if rc \<noteq> STD_ERR_OK then Inr (False, None)
                 else if port_mapped r \<and> (npu_id r \<noteq> npu \<or> port_id r \<noteq> port)
                 then Inr (True, if status then Some nas_int_phy_port_UNMAPPED else None)
                 else Inr (True, if status then Some (if port_mapped r then nas_int_phy_port_MAPPED
                                                      else nas_int_phy_port_UNMAPPED) else None))))
      | _ \<Rightarrow> Inr (False, None))"

section \<open>What the helpers answer\<close>

lemma get_by_key:
  assumes "if_reachable db" "r \<in> abs_recs db" "q_type q \<noteq> HAL_INTF_INFO_FROM_PORT" "same_key (q_type q) q r"
  shows "dn_hal_get_interface_info (Some q) db = Inr (STD_ERR_OK, r)"
proof -
  have t: "table_inv db" using if_reachable_db_inv [OF assms(1)] by (simp add: db_inv_def)
  obtain a where a: "rec_heap db a = Some r" using assms(2) by (auto simp: abs_recs_iff)
  then have "locate (q_type q) q db = Some a" using assms(4) by (auto simp: locate_Some_iff [OF t])
  then show ?thesis using a assms(3) by (simp add: get_info_eq [OF t])
qed

lemma get_missing:
  assumes "if_reachable db" "q_type q \<noteq> HAL_INTF_INFO_FROM_PORT" "\<forall>r \<in> abs_recs db. \<not> same_key (q_type q) q r"
  shows "dn_hal_get_interface_info (Some q) db = Inr (STD_ERR INTERFACE PARAM (Priv 0), q)"
proof -
  have t: "table_inv db" using if_reachable_db_inv [OF assms(1)] by (simp add: db_inv_def)
  have "locate (q_type q) q db = None"
    using assms(3) by (auto simp: locate_None_iff [OF t] abs_recs_iff)
  then show ?thesis using assms(2) by (simp add: get_info_eq [OF t])
qed

lemma queries [simp]:
  "q_type (name_query cpy n name) = HAL_INTF_INFO_FROM_IF_NAME"
  "if_name (name_query cpy n name) = cpy name n"
  "q_type (index_query ix) = HAL_INTF_INFO_FROM_IF" "if_index (index_query ix) = ix"
  "vrf_id (index_query ix) = 0"
  by (simp_all add: name_query_def index_query_def zero_ctrl_def)

text \<open>In a reachable table the helpers translate names and indexes exactly: for a name that
  fits its array they answer with the index, the type and the MAC text of the record of that name,
  and the index and VRF of that record translate back to the name; for a name that no record has
  all three return their errors.\<close>

theorem name_index_translation:
  assumes "if_reachable db" "safestrncpy_spec cpy" "name \<noteq> []" "length name < name_sz"
  shows "(\<forall>r \<in> abs_recs db. if_name r = name \<longrightarrow>
      nas_com_get_name_to_if_index cpy name_sz name db = Inr (STD_ERR_OK, Some (if_index r)) \<and>
      nas_com_get_if_type cpy name_sz name db = Inr (STD_ERR_OK, Some (int_type r)) \<and>
      dn_hal_get_intf_mac_addr_str cpy name_sz name True db =
        Inr (STD_ERR_OK, Some (take (MAC_STR_SZ - 1) (mac_addr r))) \<and>
      (\<not> (vrf_id r = - 1 \<and> if_index r = - 1) \<and> length name < len \<longrightarrow>
         nas_com_get_if_index_to_name cpy (if_index r) len (vrf_id r) db = Inr (STD_ERR_OK, Some name))) \<and>
    ((\<forall>r \<in> abs_recs db. if_name r \<noteq> name) \<longrightarrow>
      nas_com_get_name_to_if_index cpy name_sz name db =
        Inr (STD_ERR INTERFACE FAIL (Priv_rc (STD_ERR INTERFACE PARAM (Priv 0))), None) \<and>
      nas_com_get_if_type cpy name_sz name db =
        Inr (STD_ERR INTERFACE FAIL (Priv_rc (STD_ERR INTERFACE PARAM (Priv 0))), None) \<and>
      dn_hal_get_intf_mac_addr_str cpy name_sz name True db =
        Inr (STD_ERR INTERFACE CFG (Priv 0), None))"
proof -
  have fits: "cpy name name_sz = name" by (rule safestrncpy_fits [OF assms(2,4)])
  have found: "dn_hal_get_interface_info (Some (name_query cpy name_sz name)) db = Inr (STD_ERR_OK, r)"
    if "r \<in> abs_recs db" "if_name r = name" for r
    using that assms(3) by (intro get_by_key [OF assms(1)]) (simp_all add: same_key_FROM_IF_NAME fits)
  have reverse: "dn_hal_get_interface_info (Some ((index_query (if_index r))\<lparr>vrf_id := vrf_id r\<rparr>)) db =
      Inr (STD_ERR_OK, r)" if "r \<in> abs_recs db" "\<not> (vrf_id r = - 1 \<and> if_index r = - 1)" for r
    using that by (intro get_by_key [OF assms(1)]) (simp_all add: same_key_FROM_IF)
  have missing: "dn_hal_get_interface_info (Some (name_query cpy name_sz name)) db =
      Inr (STD_ERR INTERFACE PARAM (Priv 0), name_query cpy name_sz name)"
    if "\<forall>r \<in> abs_recs db. if_name r \<noteq> name"
    using that by (intro get_missing [OF assms(1)]) (auto simp: same_key_FROM_IF_NAME fits)
  have mac: "cpy x MAC_STR_SZ = take (MAC_STR_SZ - 1) x" for x
    by (rule safestrncpy_specD [OF assms(2)]) (simp add: MAC_STR_SZ_def)
  show ?thesis
    by (auto simp: nas_com_get_name_to_if_index_def nas_com_get_if_type_def
        dn_hal_get_intf_mac_addr_str_def nas_com_get_if_index_to_name_def found reverse missing mac
        safestrncpy_fits [OF assms(2)])
qed

lemma port1_rec: "port1 \<in> abs_recs port1_db"
  by (simp add: abs_recs_iff port1_heap)

theorem name_index_translation_witness:
  "nas_com_get_name_to_if_index trunc_copy 16 ''e101-001-0'' port1_db = Inr (STD_ERR_OK, Some 10) \<and>
   nas_com_get_if_index_to_name trunc_copy 10 16 0 port1_db = Inr (STD_ERR_OK, Some ''e101-001-0'')"
proof -
  have p: "if_name port1 = ''e101-001-0''" "if_index port1 = 10" "vrf_id port1 = 0"
    by (simp_all add: port1_def zero_ctrl_def)
  from name_index_translation [OF port1_reachable trunc_copy_spec, of "''e101-001-0''" 16 16] port1_rec p
  show ?thesis by (auto dest!: bspec)
qed

text \<open>For an event about a registered interface, the port mapping helper reports it as mapped
  exactly when its record is mapped to the NPU and the port of the event, and as not mapped
  otherwise; an interface of the default VRF is a virtual port exactly when it is a port that is
  not mapped.\<close>

theorem port_mapping_reported:
  assumes "if_reachable db" "r \<in> abs_recs db"
    and ev: "ev_key_matches e" "ev_is_set e" "ev_npu e = Some npu" "ev_port e = Some port"
    and q: "event_query cpy name_sz e = Some q" "same_key (q_type q) q r"
  shows "nas_get_phy_port_mapping_change cpy name_sz e True db =
      Inr (True, Some (if port_mapped r \<and> npu_id r = npu \<and> port_id r = port
                       then nas_int_phy_port_MAPPED else nas_int_phy_port_UNMAPPED)) \<and>
    (vrf_id r = 0 \<longrightarrow>
       nas_is_virtual_port (if_index r) db = Inr (int_type r = nas_int_type_PORT \<and> \<not> port_mapped r))"
proof -
  have "q_type q \<noteq> HAL_INTF_INFO_FROM_PORT"
    using q(1) by (auto simp: event_query_def split: option.splits)
  from get_by_key [OF assms(1,2) this q(2)]
  have "nas_get_phy_port_mapping_change cpy name_sz e True db =
      Inr (True, Some (if port_mapped r \<and> npu_id r = npu \<and> port_id r = port
                       then nas_int_phy_port_MAPPED else nas_int_phy_port_UNMAPPED))"
    using ev q(1) by (auto simp: nas_get_phy_port_mapping_change_def)
  moreover have "nas_is_virtual_port (if_index r) db = Inr (int_type r = nas_int_type_PORT \<and> \<not> port_mapped r)"
    if "vrf_id r = 0"
  proof -
    have "dn_hal_get_interface_info (Some (index_query (if_index r))) db = Inr (STD_ERR_OK, r)"
      using that by (intro get_by_key [OF assms(1,2)]) (simp_all add: same_key_FROM_IF)
    then show ?thesis by (simp add: nas_is_virtual_port_def)
  qed
  ultimately show ?thesis by blast
qed

theorem port_mapping_reported_witness:
  "nas_get_phy_port_mapping_change trunc_copy 16 \<lparr>ev_key_matches = True, ev_is_set = True,
     ev_npu = Some 0, ev_port = Some 8, ev_name = None, ev_index = Some 10\<rparr> True port1_db =
     Inr (True, Some nas_int_phy_port_UNMAPPED) \<and> nas_is_virtual_port 10 port1_db = Inr False"
proof -
  let ?e = "\<lparr>ev_key_matches = True, ev_is_set = True, ev_npu = Some 0, ev_port = Some 8,
    ev_name = None, ev_index = Some 10\<rparr>"
  have p: "if_index port1 = 10" "vrf_id port1 = 0" by (simp_all add: port1_def zero_ctrl_def)
  have q: "event_query trunc_copy 16 ?e = Some (index_query 10)" by (simp add: event_query_def)
  have k: "same_key (q_type (index_query 10)) (index_query 10) port1" by (simp add: same_key_FROM_IF p)
  from port_mapping_reported [OF port1_reachable port1_rec _ _ _ _ q k, of 0 8] p
  show ?thesis by (simp add: port1_mapped)
qed

end
