(* ===== verification/KeyedTable.thy ===== *)
theory KeyedTable
  imports Prelude
begin

text \<open>
  The interface of the tables that map a name or an identifier to a value: a lookup, an
  operation that puts a value under a key and one that takes a key out, the last two with their
  return value. Two of the tables keep the first value put under a key and one keeps the last;
  each has its own extension of the contract. The theory proves, once for all tables, that any
  sequence of operations is the sequence of updates of one map.
\<close>

datatype ('k, 'v) kt_op = Put 'k 'v | Del 'k

definition kt_step ::
  "('k \<Rightarrow> 'v \<Rightarrow> 's \<Rightarrow> 'r \<times> 's) \<Rightarrow> ('k \<Rightarrow> 's \<Rightarrow> 'q \<times> 's) \<Rightarrow> ('k, 'v) kt_op \<Rightarrow> 's \<Rightarrow> 's" where
  "kt_step put del x s = (case x of Put k v \<Rightarrow> snd (put k v s) | Del k \<Rightarrow> snd (del k s))"

definition kt_key :: "('k, 'v) kt_op \<Rightarrow> 'k" where
  "kt_key x = (case x of Put k v \<Rightarrow> k | Del k \<Rightarrow> k)"

text \<open>The map after one operation, when the first value stays and when the last one does.\<close>

definition first_step :: "('k, 'v) kt_op \<Rightarrow> ('k \<rightharpoonup> 'v) \<Rightarrow> ('k \<rightharpoonup> 'v)" where
  "first_step x m = (case x of Put k v \<Rightarrow> if m k = None then m(k \<mapsto> v) else m | Del k \<Rightarrow> m(k := None))"

definition last_step :: "('k, 'v) kt_op \<Rightarrow> ('k \<rightharpoonup> 'v) \<Rightarrow> ('k \<rightharpoonup> 'v)" where
  "last_step x m = (case x of Put k v \<Rightarrow> m(k \<mapsto> v) | Del k \<Rightarrow> m(k := None))"

locale keyed_table =
  fixes lookup :: "'s \<Rightarrow> 'k \<Rightarrow> 'v option"
    and put :: "'k \<Rightarrow> 'v \<Rightarrow> 's \<Rightarrow> 'r \<times> 's"
    and del :: "'k \<Rightarrow> 's \<Rightarrow> 'q \<times> 's"
    and valid :: "'k \<Rightarrow> bool"
  assumes put_other: "valid k \<Longrightarrow> k' \<noteq> k \<Longrightarrow> lookup (snd (put k v s)) k' = lookup s k'"
    and put_fresh: "valid k \<Longrightarrow> lookup s k = None \<Longrightarrow> lookup (snd (put k v s)) k = Some v"
    and del_lookup: "lookup (snd (del k s)) k' = (if k' = k then None else lookup s k')"
begin

lemma del_lookup_map: "lookup (snd (del k s)) = (lookup s)(k := None)"
  by (simp add: fun_eq_iff del_lookup)

lemma put_fresh_map: "valid k \<Longrightarrow> lookup s k = None \<Longrightarrow> lookup (snd (put k v s)) = (lookup s)(k \<mapsto> v)"
  by (auto simp: fun_eq_iff put_fresh put_other)

lemma put_then_del:
  assumes "valid k" "lookup s k = None"
  shows "lookup (snd (del k (snd (put k v s)))) = lookup s"
  using assms by (simp add: del_lookup_map put_fresh_map fun_upd_idem)

lemma del_then_put:
  assumes "valid k"
  shows "lookup (snd (put k v (snd (del k s)))) = (lookup s)(k \<mapsto> v)"
  using put_fresh_map [OF assms, of "snd (del k s)" v] by (simp add: del_lookup_map)

end

locale first_wins = keyed_table +
  assumes put_present: "valid k \<Longrightarrow> lookup s k = Some w \<Longrightarrow> lookup (snd (put k v s)) k = Some w"
begin

lemma put_map:
  assumes "valid k"
  shows "lookup (snd (put k v s)) = (if lookup s k = None then (lookup s)(k \<mapsto> v) else lookup s)"
proof (cases "lookup s k")
  case None
  then show ?thesis using assms by (simp add: put_fresh_map)
next
  case (Some w)
  then have "lookup (snd (put k v s)) k' = lookup s k'" for k'
    using assms by (cases "k' = k") (simp_all add: put_present put_other)
  with Some show ?thesis by (simp add: fun_eq_iff)
qed

lemma step_refines: "valid (kt_key x) \<Longrightarrow> lookup (kt_step put del x s) = first_step x (lookup s)"
  by (cases x) (simp_all add: kt_step_def first_step_def kt_key_def put_map del_lookup_map)

lemma run_refines:
  "\<forall>x \<in> set xs. valid (kt_key x) \<Longrightarrow>
     lookup (fold (kt_step put del) xs s) = fold first_step xs (lookup s)"
  by (induction xs arbitrary: s) (simp_all add: step_refines)

end

locale last_wins = keyed_table +
  assumes put_same: "valid k \<Longrightarrow> lookup (snd (put k v s)) k = Some v"
begin

lemma put_map: "valid k \<Longrightarrow> lookup (snd (put k v s)) = (lookup s)(k \<mapsto> v)"
  by (auto simp: fun_eq_iff put_same put_other)

lemma step_refines: "valid (kt_key x) \<Longrightarrow> lookup (kt_step put del x s) = last_step x (lookup s)"
  by (cases x) (simp_all add: kt_step_def last_step_def kt_key_def put_map del_lookup_map)

lemma run_refines:
  "\<forall>x \<in> set xs. valid (kt_key x) \<Longrightarrow>
     lookup (fold (kt_step put del) xs s) = fold last_step xs (lookup s)"
  by (induction xs arbitrary: s) (simp_all add: step_refines)

end

end
