(* ===== verification/BridgeUtils.thy ===== *)
theory BridgeUtils
  imports KeyedTable
begin

text \<open>
  The map from the name of a 1D bridge to the VLAN of its untagged member
  (\<open>src/src/nas_com_bridge_utils.cpp\<close>), with the reserved VLAN that stands in for a bridge
  that has none. VLAN 0 means that no VLAN is reserved.
\<close>

record bridge_db =
  bridge_to_vlan_id_map :: "string \<rightharpoonup> u16"
  reserved_untagged_vlanid :: u16

definition init_bridge_db :: bridge_db where
  "init_bridge_db = \<lparr>bridge_to_vlan_id_map = Map.empty, reserved_untagged_vlanid = 0\<rparr>"

definition nas_com_get_1d_br_reserved_vid :: "bridge_db \<Rightarrow> u16" where
  "nas_com_get_1d_br_reserved_vid s = reserved_untagged_vlanid s"

text \<open>
  The second component is what the reference parameter \<open>vlan_id\<close> holds afterwards; \<open>v0\<close> is what it
  held before. A failed lookup has overwritten it with the reserved VLAN.
\<close>

definition nas_com_get_1d_br_untag_vid ::
  "string option \<Rightarrow> u16 \<Rightarrow> bridge_db \<Rightarrow> t_std_error \<times> u16" where
  "nas_com_get_1d_br_untag_vid name v0 s =
     (case name of None \<Rightarrow> (STD_ERR INTERFACE PARAM (Priv 0), v0)
      | Some n \<Rightarrow>
        (case bridge_to_vlan_id_map s n of
           None \<Rightarrow>
             (let v = nas_com_get_1d_br_reserved_vid s
              in if v = 0 then (STD_ERR INTERFACE PARAM (Priv 0), v) else (STD_ERR_OK, v))
         | Some v \<Rightarrow> (STD_ERR_OK, v)))"

definition nas_com_add_1d_br_untag_vid ::
  "string option \<Rightarrow> u16 \<Rightarrow> bridge_db \<Rightarrow> t_std_error \<times> bridge_db" where
  "nas_com_add_1d_br_untag_vid name v s =
     (case name of None \<Rightarrow> (STD_ERR INTERFACE PARAM (Priv 0), s)
      | Some n \<Rightarrow>
        (case bridge_to_vlan_id_map s n of
           None \<Rightarrow>
             (STD_ERR_OK, s\<lparr>bridge_to_vlan_id_map := (bridge_to_vlan_id_map s)(n \<mapsto> v)\<rparr>)
         | Some _ \<Rightarrow> (STD_ERR INTERFACE PARAM (Priv 0), s)))"

definition nas_com_del_1d_br_untag_vid :: "string option \<Rightarrow> bridge_db \<Rightarrow> t_std_error \<times> bridge_db" where
  "nas_com_del_1d_br_untag_vid name s =
     (case name of None \<Rightarrow> (STD_ERR INTERFACE PARAM (Priv 0), s)
      | Some n \<Rightarrow>
        (case bridge_to_vlan_id_map s n of
           None \<Rightarrow> (STD_ERR INTERFACE PARAM (Priv 0), s)
         | Some _ \<Rightarrow>
             (STD_ERR_OK, s\<lparr>bridge_to_vlan_id_map := (bridge_to_vlan_id_map s)(n := None)\<rparr>)))"

definition nas_com_set_1d_br_reserved_vid :: "u16 \<Rightarrow> bridge_db \<Rightarrow> t_std_error \<times> bridge_db" where
  "nas_com_set_1d_br_reserved_vid v s = (STD_ERR_OK, s\<lparr>reserved_untagged_vlanid := v\<rparr>)"

section \<open>The table's contract\<close>

interpretation br: first_wins bridge_to_vlan_id_map
  "\<lambda>n. nas_com_add_1d_br_untag_vid (Some n)" "\<lambda>n. nas_com_del_1d_br_untag_vid (Some n)" "\<lambda>_. True"
  by unfold_locales
    (auto simp: nas_com_add_1d_br_untag_vid_def nas_com_del_1d_br_untag_vid_def split: option.split)

abbreviation br_run :: "(string, u16) kt_op list \<Rightarrow> bridge_db \<Rightarrow> bridge_db" where
  "br_run \<equiv> fold (kt_step (\<lambda>n. nas_com_add_1d_br_untag_vid (Some n))
     (\<lambda>n. nas_com_del_1d_br_untag_vid (Some n)))"

lemma br_step_reserved:
  "reserved_untagged_vlanid (kt_step (\<lambda>n. nas_com_add_1d_br_untag_vid (Some n))
     (\<lambda>n. nas_com_del_1d_br_untag_vid (Some n)) x s) = reserved_untagged_vlanid s"
  by (cases x) (auto simp: kt_step_def nas_com_add_1d_br_untag_vid_def
      nas_com_del_1d_br_untag_vid_def split: option.split)

lemma br_run_reserved: "reserved_untagged_vlanid (br_run xs s) = reserved_untagged_vlanid s"
  by (induction xs arbitrary: s) (simp_all add: br_step_reserved)

text \<open>After any sequence of attachments and detachments a bridge's VLAN is that of the first
  attachment since its last detachment; a bridge without one gets the reserved VLAN, or the
  parameter error when that is 0.\<close>

theorem bridge_vlan_history:
  "nas_com_get_1d_br_untag_vid (Some n) v0 (br_run xs (snd (nas_com_set_1d_br_reserved_vid r init_bridge_db))) =
     (case fold first_step xs Map.empty n of
        Some v \<Rightarrow> (STD_ERR_OK, v)
      | None \<Rightarrow> if r = 0 then (STD_ERR INTERFACE PARAM (Priv 0), 0) else (STD_ERR_OK, r))"
proof -
  let ?s = "snd (nas_com_set_1d_br_reserved_vid r init_bridge_db)"
  have "bridge_to_vlan_id_map ?s = Map.empty" "reserved_untagged_vlanid ?s = r"
    by (simp_all add: nas_com_set_1d_br_reserved_vid_def init_bridge_db_def)
  moreover define u where "u = br_run xs ?s"
  ultimately have "bridge_to_vlan_id_map u = fold first_step xs Map.empty"
    "reserved_untagged_vlanid u = r"
    using br.run_refines [of xs ?s] by (simp_all add: br_run_reserved)
  then show ?thesis
    unfolding u_def [symmetric]
    by (simp add: nas_com_get_1d_br_untag_vid_def nas_com_get_1d_br_reserved_vid_def Let_def
        split: option.split)
qed

end
