(* ===== verification/VrfUtils.thy ===== *)
theory VrfUtils
  imports KeyedTable
begin

text \<open>
  The table of VRF control blocks by name (\<open>src/src/nas_vrf_utils.cpp\<close>). The name array has
  \<open>NAS_VRF_NAME_SZ\<close> characters and the terminator, so a name is a string of at most that
  length. \<open>vrf_blocks\<close> counts the heap blocks that the functions have allocated (the key and the
  record of each addition) and not freed.
\<close>

definition NAS_VRF_NAME_SZ :: nat where
  "NAS_VRF_NAME_SZ = 32"

datatype nas_vrf_op_t = NAS_VRF_OP_ADD | NAS_VRF_OP_DEL | NAS_VRF_OP_UPD | NAS_VRF_OP_OTHER

record nas_vrf_ctrl_t =
  vrf_ctrl_name :: string
  vrf_int_id :: u32
  vrf_obj_id :: u64

record vrf_db =
  vrf_map :: "string \<rightharpoonup> nas_vrf_ctrl_t"
  vrf_blocks :: nat

definition init_vrf_db :: vrf_db where
  "init_vrf_db = \<lparr>vrf_map = Map.empty, vrf_blocks = 0\<rparr>"

section \<open>Operations\<close>

definition vrf_locate :: "string \<Rightarrow> vrf_db \<Rightarrow> nas_vrf_ctrl_t option" where
  "vrf_locate n s = vrf_map s n"

text \<open>
  \<open>malloc_ok\<close> and \<open>new_ok\<close> are the two allocations. \<open>insert\<close> keeps an entry that is there, and the
  two new blocks are then reachable from nowhere. A \<open>new\<close> that fails throws, so the test of its
  result is never true.
\<close>

definition vrf_add ::
  "strcopy \<Rightarrow> bool \<Rightarrow> bool \<Rightarrow> nas_vrf_ctrl_t \<Rightarrow> vrf_db \<Rightarrow> fault + (bool \<times> vrf_db)" where
  "vrf_add cpy malloc_ok new_ok r s =
     (if \<not> malloc_ok then Inr (False, s)
      else if \<not> new_ok then Inl Uncaught
      else
        (let key = cpy (vrf_ctrl_name r) (NAS_VRF_NAME_SZ + 1)
         in Inr (True, s\<lparr>vrf_blocks := vrf_blocks s + 2,
              vrf_map := (case vrf_map s key of
                            None \<Rightarrow> (vrf_map s)(key \<mapsto> r) | Some _ \<Rightarrow> vrf_map s)\<rparr>)))"

definition vrf_update :: "nas_vrf_ctrl_t \<Rightarrow> vrf_db \<Rightarrow> bool \<times> vrf_db" where
  "vrf_update r s =
     (case vrf_locate (vrf_ctrl_name r) s of
        None \<Rightarrow> (False, s)
      | Some p \<Rightarrow>
          (True, if vrf_int_id r \<noteq> 0
                 then s\<lparr>vrf_map := (vrf_map s)(vrf_ctrl_name r \<mapsto> p\<lparr>vrf_int_id := vrf_int_id r\<rparr>)\<rparr>
                 else s))"

definition vrf_cleanup :: "nas_vrf_ctrl_t \<Rightarrow> vrf_db \<Rightarrow> vrf_db" where
  "vrf_cleanup r s =
     (case vrf_map s (vrf_ctrl_name r) of
        None \<Rightarrow> s
      | Some _ \<Rightarrow> s\<lparr>vrf_map := (vrf_map s)(vrf_ctrl_name r := None), vrf_blocks := vrf_blocks s - 2\<rparr>)"

text \<open>The results of the three helpers are dropped: every operation returns \<open>STD_ERR_OK\<close>.\<close>

definition nas_update_vrf_info ::
  "strcopy \<Rightarrow> bool \<Rightarrow> bool \<Rightarrow> nas_vrf_op_t \<Rightarrow> nas_vrf_ctrl_t option \<Rightarrow> vrf_db
     \<Rightarrow> fault + (t_std_error \<times> vrf_db)" where
  "nas_update_vrf_info cpy malloc_ok new_ok op p s =
     (case p of None \<Rightarrow> Inl Assert_Fail
      | Some r \<Rightarrow>
        (case op of
           NAS_VRF_OP_ADD \<Rightarrow>
             (case vrf_add cpy malloc_ok new_ok r s of Inl f \<Rightarrow> Inl f
              | Inr (_, s') \<Rightarrow> Inr (STD_ERR_OK, s'))
         | NAS_VRF_OP_UPD \<Rightarrow> Inr (STD_ERR_OK, snd (vrf_update r s))
         | NAS_VRF_OP_DEL \<Rightarrow> Inr (STD_ERR_OK, vrf_cleanup r s)
         | NAS_VRF_OP_OTHER \<Rightarrow> Inr (STD_ERR_OK, s)))"

definition nas_get_vrf_obj_id_from_vrf_name ::
  "string option \<Rightarrow> vrf_db \<Rightarrow> fault + (t_std_error \<times> u64 option)" where
  "nas_get_vrf_obj_id_from_vrf_name name s =
     (case name of None \<Rightarrow> Inl Assert_Fail
      | Some n \<Rightarrow>
        (case vrf_locate n s of None \<Rightarrow> Inr (STD_ERR COM PARAM (Priv 0), None)
         | Some p \<Rightarrow> Inr (STD_ERR_OK, Some (vrf_obj_id p))))"

definition nas_get_vrf_internal_id_from_vrf_name ::
  "string option \<Rightarrow> vrf_db \<Rightarrow> fault + (t_std_error \<times> u32 option)" where
  "nas_get_vrf_internal_id_from_vrf_name name s =
     (case name of None \<Rightarrow> Inl Assert_Fail
      | Some n \<Rightarrow>
        (case vrf_locate n s of None \<Rightarrow> Inr (STD_ERR COM PARAM (Priv 0), None)
         | Some p \<Rightarrow> Inr (STD_ERR_OK, Some (vrf_int_id p))))"

definition nas_get_vrf_ctrl_from_vrf_name ::
  "string option \<Rightarrow> vrf_db \<Rightarrow> fault + (t_std_error \<times> nas_vrf_ctrl_t option)" where
  "nas_get_vrf_ctrl_from_vrf_name name s =
     (case name of None \<Rightarrow> Inl Assert_Fail
      | Some n \<Rightarrow>
        (case vrf_locate n s of None \<Rightarrow> Inr (STD_ERR COM PARAM (Priv 0), None)
         | Some p \<Rightarrow> Inr (STD_ERR_OK, Some p)))"

text \<open>\<open>names\<close> is the order in which the hash map's iterator visits its keys.\<close>

definition nas_get_all_vrf_ctrl ::
  "string list \<Rightarrow> nas_vrf_ctrl_t list \<Rightarrow> vrf_db \<Rightarrow> nas_vrf_ctrl_t list" where
  "nas_get_all_vrf_ctrl names v s = v @ List.map_filter (vrf_map s) names"

section \<open>The table's contract\<close>

definition vrf_name_ok :: "string \<Rightarrow> bool" where
  "vrf_name_ok n \<longleftrightarrow> length n \<le> NAS_VRF_NAME_SZ"

definition vrf_payload :: "vrf_db \<Rightarrow> string \<Rightarrow> (u32 \<times> u64) option" where
  "vrf_payload s n = map_option (\<lambda>p. (vrf_int_id p, vrf_obj_id p)) (vrf_map s n)"

definition vrf_ctrl :: "string \<Rightarrow> u32 \<times> u64 \<Rightarrow> nas_vrf_ctrl_t" where
  "vrf_ctrl n v = \<lparr>vrf_ctrl_name = n, vrf_int_id = fst v, vrf_obj_id = snd v\<rparr>"

text \<open>Addition and deletion with memory available.\<close>

definition vrf_put :: "string \<Rightarrow> u32 \<times> u64 \<Rightarrow> vrf_db \<Rightarrow> t_std_error \<times> vrf_db" where
  "vrf_put n v s =
     projr (nas_update_vrf_info (\<lambda>s n. take (n - 1) s) True True NAS_VRF_OP_ADD (Some (vrf_ctrl n v)) s)"

definition vrf_del :: "string \<Rightarrow> vrf_db \<Rightarrow> t_std_error \<times> vrf_db" where
  "vrf_del n s =
     projr (nas_update_vrf_info (\<lambda>s n. take (n - 1) s) True True NAS_VRF_OP_DEL (Some (vrf_ctrl n (0, 0))) s)"

lemmas vrf_defs = vrf_put_def vrf_del_def nas_update_vrf_info_def vrf_add_def vrf_cleanup_def
  vrf_ctrl_def vrf_payload_def Let_def

interpretation vrf: first_wins vrf_payload vrf_put vrf_del vrf_name_ok
  by unfold_locales
    (auto simp: vrf_defs vrf_name_ok_def NAS_VRF_NAME_SZ_def split: option.splits)

text \<open>The copy function enters only through the key, so any copy that meets its contract will do.\<close>

lemma vrf_put_eq:
  assumes "safestrncpy_spec cpy"
  shows "nas_update_vrf_info cpy True True NAS_VRF_OP_ADD (Some (vrf_ctrl n v)) s = Inr (vrf_put n v s)"
    "nas_update_vrf_info cpy m k NAS_VRF_OP_DEL (Some (vrf_ctrl n w)) s = Inr (vrf_del n s)"
  by (simp_all add: safestrncpy_specD [OF assms, of "Suc NAS_VRF_NAME_SZ"] vrf_put_def vrf_del_def nas_update_vrf_info_def
      vrf_add_def Let_def vrf_cleanup_def vrf_ctrl_def split: option.split)

section \<open>Histories\<close>

text \<open>A sequence of additions and deletions through the C interface, with memory available.\<close>

fun vrf_run :: "strcopy \<Rightarrow> (string, u32 \<times> u64) kt_op list \<Rightarrow> vrf_db \<Rightarrow> fault + vrf_db" where
  "vrf_run cpy [] s = Inr s"
| "vrf_run cpy (x # xs) s =
     (case (case x of
              Put n v \<Rightarrow> nas_update_vrf_info cpy True True NAS_VRF_OP_ADD (Some (vrf_ctrl n v)) s
            | Del n \<Rightarrow> nas_update_vrf_info cpy True True NAS_VRF_OP_DEL (Some (vrf_ctrl n (0, 0))) s) of
        Inl f \<Rightarrow> Inl f
      | Inr (_, s') \<Rightarrow> vrf_run cpy xs s')"

text \<open>
  The same with any memory: each call comes with whether the \<open>malloc\<close> and
  the \<open>new\<close> that it makes succeed.
\<close>

type_synonym vrf_mem_op = "(bool \<times> bool) \<times> (string, u32 \<times> u64) kt_op"

fun vrf_mem_run :: "strcopy \<Rightarrow> vrf_mem_op list \<Rightarrow> vrf_db \<Rightarrow> fault + vrf_db" where
  "vrf_mem_run cpy [] s = Inr s"
| "vrf_mem_run cpy (((malloc_ok, new_ok), x) # xs) s =
     (case (case x of
              Put n v \<Rightarrow> nas_update_vrf_info cpy malloc_ok new_ok NAS_VRF_OP_ADD (Some (vrf_ctrl n v)) s
            | Del n \<Rightarrow> nas_update_vrf_info cpy malloc_ok new_ok NAS_VRF_OP_DEL (Some (vrf_ctrl n (0, 0))) s) of
        Inl f \<Rightarrow> Inl f
      | Inr (_, s') \<Rightarrow> vrf_mem_run cpy xs s')"

text \<open>An addition without \<open>malloc\<close> is dropped, one without \<open>new\<close> throws.\<close>

definition is_put :: "('k, 'v) kt_op \<Rightarrow> bool" where
  "is_put x = (case x of Put n v \<Rightarrow> True | Del n \<Rightarrow> False)"

definition vrf_throws :: "vrf_mem_op \<Rightarrow> bool" where
  "vrf_throws c \<longleftrightarrow> is_put (snd c) \<and> fst (fst c) \<and> \<not> snd (fst c)"

definition vrf_taken :: "vrf_mem_op list \<Rightarrow> (string, u32 \<times> u64) kt_op list" where
  "vrf_taken xs = map snd (filter (\<lambda>c. is_put (snd c) \<longrightarrow> fst (fst c)) xs)"

text \<open>The additions of a name that is there already.\<close>

fun vrf_readds :: "(string, u32 \<times> u64) kt_op list \<Rightarrow> (string \<rightharpoonup> u32 \<times> u64) \<Rightarrow> nat" where
  "vrf_readds [] m = 0"
| "vrf_readds (x # xs) m =
     (case x of Put n v \<Rightarrow> (if m n = None then 0 else 1) | Del n \<Rightarrow> 0) + vrf_readds xs (first_step x m)"

lemma vrf_run_fold:
  assumes "safestrncpy_spec cpy"
  shows "vrf_run cpy xs s = Inr (fold (kt_step vrf_put vrf_del) xs s)"
proof (induction xs arbitrary: s)
  case (Cons x xs)
  then show ?case
    by (cases x) (simp_all add: vrf_put_eq [OF assms] kt_step_def case_prod_unfold)
qed simp

lemma vrf_mem_run_eq:
  assumes "safestrncpy_spec cpy"
  shows "vrf_mem_run cpy xs s =
    (if list_ex vrf_throws xs then Inl Uncaught else vrf_run cpy (vrf_taken xs) s)"
proof (induction xs arbitrary: s)
  case (Cons c xs)
  obtain m k x where c: "c = ((m, k), x)" by (cases c) auto
  have no_malloc: "nas_update_vrf_info cpy False k NAS_VRF_OP_ADD (Some r) s = Inr (STD_ERR_OK, s)" for k r
    by (simp add: nas_update_vrf_info_def vrf_add_def)
  have no_new: "nas_update_vrf_info cpy True False NAS_VRF_OP_ADD (Some r) s = Inl Uncaught" for r
    by (simp add: nas_update_vrf_info_def vrf_add_def)
  show ?case
    using Cons
    by (cases x; cases m; cases k) (simp_all add: c vrf_put_eq [OF assms] no_malloc no_new
      vrf_throws_def vrf_taken_def is_put_def case_prod_unfold)
qed (simp add: vrf_taken_def)

lemma vrf_put_blocks: "vrf_blocks (snd (vrf_put n v s)) = vrf_blocks s + 2"
  by (simp add: vrf_put_def nas_update_vrf_info_def vrf_add_def Let_def)

lemma vrf_del_blocks:
  "vrf_blocks (snd (vrf_del n s)) = vrf_blocks s - (if vrf_payload s n = None then 0 else 2)"
  by (simp add: vrf_defs split: option.split)

definition vrf_inv :: "nat \<Rightarrow> vrf_db \<Rightarrow> bool" where
  "vrf_inv k s \<longleftrightarrow> finite (dom (vrf_payload s)) \<and> vrf_blocks s = 2 * card (dom (vrf_payload s)) + 2 * k"

lemma vrf_step_inv:
  assumes "vrf_inv k s" "vrf_name_ok (kt_key x)"
  shows "vrf_inv (k + vrf_readds [x] (vrf_payload s)) (kt_step vrf_put vrf_del x s)"
proof (cases x)
  case (Put n v)
  then have "vrf_name_ok n" using assms(2) by (simp add: kt_key_def)
  then show ?thesis
    using assms(1) Put
    by (cases "vrf_payload s n")
      (auto simp: vrf_inv_def kt_step_def vrf_put_blocks vrf.put_map card_insert_if domIff)
next
  case (Del n)
  have "2 \<le> 2 * card (dom (vrf_payload s))" if "vrf_payload s n \<noteq> None" "finite (dom (vrf_payload s))"
    using that card_gt_0_iff [of "dom (vrf_payload s)"] by (auto simp: domIff)
  then show ?thesis
    using assms(1) Del
    by (auto simp: vrf_inv_def kt_step_def vrf_del_blocks vrf.del_lookup_map card_Diff_singleton_if
        domIff)
qed

lemma vrf_run_inv:
  assumes "\<forall>x \<in> set xs. vrf_name_ok (kt_key x)" "vrf_inv k s"
  shows "vrf_inv (k + vrf_readds xs (vrf_payload s)) (fold (kt_step vrf_put vrf_del) xs s)"
  using assms
proof (induction xs arbitrary: k s)
  case (Cons x xs)
  have "vrf_inv (k + vrf_readds [x] (vrf_payload s)) (kt_step vrf_put vrf_del x s)"
    using Cons.prems by (intro vrf_step_inv) simp_all
  then have "vrf_inv (k + vrf_readds [x] (vrf_payload s) +
      vrf_readds xs (vrf_payload (kt_step vrf_put vrf_del x s)))
    (fold (kt_step vrf_put vrf_del) xs (kt_step vrf_put vrf_del x s))"
    using Cons.prems(1) by (intro Cons.IH) simp_all
  then show ?case
    using Cons.prems(1) vrf.step_refines [of x s] by (simp add: add.assoc)
qed simp

text \<open>C33: Let additions and deletions of names that fit the name array run in any order, each
  allocation with any outcome. The process ends through the exception of \<open>new\<close> exactly when one of
  the additions gets its \<open>malloc\<close> but not its \<open>new\<close>. Otherwise no call faults, and an addition
  without \<open>malloc\<close> changes nothing although it reports success; counting the others, both queries of a
  name answer from the first addition since the name's last deletion, or with the parameter error,
  and the blocks that are still allocated are two for each name in the table and two for each
  addition of a name that was there already: those are never freed.\<close>

theorem vrf_history:
  assumes "safestrncpy_spec cpy" "\<forall>c \<in> set xs. vrf_name_ok (kt_key (snd c))"
    and "ys = vrf_taken xs"
  shows "case vrf_mem_run cpy xs init_vrf_db of
      Inl f \<Rightarrow> f = Uncaught \<and> list_ex vrf_throws xs
    | Inr s \<Rightarrow> \<not> list_ex vrf_throws xs \<and>
        nas_get_vrf_internal_id_from_vrf_name (Some n) s =
          (case fold first_step ys Map.empty n of None \<Rightarrow> Inr (STD_ERR COM PARAM (Priv 0), None)
           | Some v \<Rightarrow> Inr (STD_ERR_OK, Some (fst v))) \<and>
        nas_get_vrf_obj_id_from_vrf_name (Some n) s =
          (case fold first_step ys Map.empty n of None \<Rightarrow> Inr (STD_ERR COM PARAM (Priv 0), None)
           | Some v \<Rightarrow> Inr (STD_ERR_OK, Some (snd v))) \<and>
        vrf_blocks s = 2 * card (dom (vrf_map s)) + 2 * vrf_readds ys Map.empty"
proof -
  define s where "s = fold (kt_step vrf_put vrf_del) ys init_vrf_db"
  have names: "\<forall>x \<in> set ys. vrf_name_ok (kt_key x)"
    using assms(2) by (auto simp: assms(3) vrf_taken_def)
  have e: "vrf_payload init_vrf_db = Map.empty"
    by (simp add: vrf_payload_def init_vrf_db_def fun_eq_iff)
  have m: "vrf_payload s = fold first_step ys Map.empty"
    using vrf.run_refines [OF names, of init_vrf_db] by (simp add: s_def e)
  have "vrf_inv 0 init_vrf_db" unfolding vrf_inv_def e by (simp add: init_vrf_db_def)
  then have "vrf_inv (vrf_readds ys Map.empty) s"
    using vrf_run_inv [OF names, of 0 init_vrf_db] by (simp add: s_def e)
  moreover have "dom (vrf_payload s) = dom (vrf_map s)"
    by (auto simp: vrf_payload_def)
  moreover have "vrf_mem_run cpy xs init_vrf_db = (if list_ex vrf_throws xs then Inl Uncaught else Inr s)"
    by (simp add: s_def assms(3) vrf_mem_run_eq [OF assms(1)] vrf_run_fold [OF assms(1)])
  ultimately show ?thesis
    unfolding m [symmetric]
    by (auto simp: vrf_inv_def nas_get_vrf_internal_id_from_vrf_name_def vrf_payload_def
        nas_get_vrf_obj_id_from_vrf_name_def vrf_locate_def split: option.split)
qed

lemma vrf_history_witness:
  "\<exists>s. vrf_mem_run (\<lambda>s n. take (n - 1) s) [((False, True), Put ''blue'' (6, 1)),
       ((True, True), Put ''blue'' (7, 1)), ((True, True), Put ''blue'' (8, 2))] init_vrf_db = Inr s \<and>
    nas_get_vrf_internal_id_from_vrf_name (Some ''blue'') s = Inr (STD_ERR_OK, Some 7) \<and>
    vrf_blocks s = 2 * card (dom (vrf_map s)) + 2"
  using vrf_history [OF safestrncpy_spec_take, of "[((False, True), Put ''blue'' (6, 1)),
       ((True, True), Put ''blue'' (7, 1)), ((True, True), Put ''blue'' (8, 2))]" _ "''blue''", OF _ refl]
  by (auto simp: vrf_name_ok_def kt_key_def NAS_VRF_NAME_SZ_def first_step_def vrf_taken_def vrf_throws_def
      is_put_def split: sum.splits)

end
