(* ===== verification/NdiObjIdTable.thy ===== *)
theory NdiObjIdTable
  imports KeyedTable
begin

text \<open>
  The table from NPU identifiers to NDI object identifiers and its encoding into a CPS object
  (\<open>src/src/nas_ndi_obj_id_table.cpp\<close>). The CPS object belongs to another library: adding an
  attribute and walking over attributes are a parameter, with their documented behaviour in
  \<open>cps_api_spec\<close>.
\<close>

type_synonym ndi_obj_id_table_t = "u32 \<rightharpoonup> u64"

text \<open>A handle is a pointer to a table; \<open>new (std::nothrow)\<close> may return \<open>NULL\<close>.\<close>

definition nas_ndi_obj_id_table_create :: "bool \<Rightarrow> ndi_obj_id_table_t option" where
  "nas_ndi_obj_id_table_create mem_ok = (if mem_ok then Some Map.empty else None)"

text \<open>\<open>operator[]\<close> throws when it cannot allocate the node of a new key; the function then
  returns false.\<close>

definition nas_ndi_obj_id_table_set_id ::
  "bool \<Rightarrow> ndi_obj_id_table_t option \<Rightarrow> u32 \<Rightarrow> u64 \<Rightarrow> fault + (bool \<times> ndi_obj_id_table_t)" where
  "nas_ndi_obj_id_table_set_id mem_ok h npu obj =
     (case h of None \<Rightarrow> Inl Null_Deref
      | Some t \<Rightarrow>
        (if t npu = None \<and> \<not> mem_ok then Inr (False, t) else Inr (True, t(npu \<mapsto> obj))))"

definition nas_ndi_obj_id_table_erase_id ::
  "ndi_obj_id_table_t option \<Rightarrow> u32 \<Rightarrow> fault + (bool \<times> ndi_obj_id_table_t)" where
  "nas_ndi_obj_id_table_erase_id h npu =
     (case h of None \<Rightarrow> Inl Null_Deref
      | Some t \<Rightarrow> (if t npu \<noteq> None then Inr (True, t(npu := None)) else Inr (False, t)))"

definition nas_ndi_obj_id_table_get_id ::
  "ndi_obj_id_table_t option \<Rightarrow> u32 \<Rightarrow> fault + (bool \<times> u64 option)" where
  "nas_ndi_obj_id_table_get_id h npu =
     (case h of None \<Rightarrow> Inl Null_Deref
      | Some t \<Rightarrow> (case t npu of None \<Rightarrow> Inr (False, None) | Some x \<Rightarrow> Inr (True, Some x)))"

section \<open>The encoding\<close>

datatype cps_val = ATTR_T_U32 u32 | ATTR_T_U64 u64

text \<open>
  The CPS calls the code makes: \<open>cps_api_object_e_add\<close>; \<open>cps_api_object_it\<close> followed by
  \<open>it_inside\<close> and \<open>it_next\<close> until the iterator is not valid, as the list of the attributes it
  visits; the same for the attributes inside one; the identifier and the data of an attribute.
\<close>

record ('o, 'a) cps_api =
  e_add :: "'o \<Rightarrow> nat list \<Rightarrow> cps_val \<Rightarrow> bool \<times> 'o"
  object_it :: "'o \<Rightarrow> nat list \<Rightarrow> 'a list option"
  it_inside :: "'a \<Rightarrow> 'a list"
  attr_id :: "'a \<Rightarrow> nat"
  attr_data_u32 :: "'a \<Rightarrow> u32"
  attr_data_u64 :: "'a \<Rightarrow> u64"

definition OPAQUE_INST_ATTR_ID_START :: nat where
  "OPAQUE_INST_ATTR_ID_START = 1"

definition OPAQUE_NPU_ATTR_ID :: nat where
  "OPAQUE_NPU_ATTR_ID = 1"

definition OPAQUE_NDI_OBJ_ATTR_ID :: nat where
  "OPAQUE_NDI_OBJ_ATTR_ID = 2"

text \<open>
  The loop over the table. \<open>elems\<close> is the sequence in which the hash map's iterator visits the
  entries, \<open>ids\<close> the caller's attribute hierarchy.
\<close>

fun serialize_elems ::
  "('o, 'a) cps_api \<Rightarrow> nat list \<Rightarrow> nat \<Rightarrow> (u32 \<times> u64) list \<Rightarrow> 'o \<Rightarrow> bool \<times> 'o" where
  "serialize_elems api ids inst [] ob = (True, ob)"
| "serialize_elems api ids inst ((npu, obj) # es) ob =
     (case e_add api ob (ids @ [inst, OPAQUE_NPU_ATTR_ID]) (ATTR_T_U32 npu) of
        (ok, ob1) \<Rightarrow>
          if \<not> ok then (False, ob1)
          else
            (case e_add api ob1 (ids @ [inst, OPAQUE_NDI_OBJ_ATTR_ID]) (ATTR_T_U64 obj) of
               (ok, ob2) \<Rightarrow>
                 if \<not> ok then (False, ob2)
                 else serialize_elems api ids (inst + 1) es ob2))"

definition ndi_obj_id_table_cps_serialize ::
  "('o, 'a) cps_api \<Rightarrow> (u32 \<times> u64) list \<Rightarrow> 'o \<Rightarrow> nat list \<Rightarrow> bool \<times> 'o" where
  "ndi_obj_id_table_cps_serialize api elems ob ids =
     serialize_elems api ids OPAQUE_INST_ATTR_ID_START elems ob"

fun unserialize_entry :: "('o, 'a) cps_api \<Rightarrow> 'a list \<Rightarrow> u32 \<times> u64 \<Rightarrow> u32 \<times> u64" where
  "unserialize_entry api [] acc = acc"
| "unserialize_entry api (b # bs) (npu, obj) =
     unserialize_entry api bs
       (if attr_id api b = OPAQUE_NPU_ATTR_ID then (attr_data_u32 api b, obj)
        else if attr_id api b = OPAQUE_NDI_OBJ_ATTR_ID then (npu, attr_data_u64 api b)
        else (npu, obj))"

fun unserialize_insts :: "('o, 'a) cps_api \<Rightarrow> 'a list \<Rightarrow> ndi_obj_id_table_t \<Rightarrow> ndi_obj_id_table_t" where
  "unserialize_insts api [] t = t"
| "unserialize_insts api (a # as) t =
     (case unserialize_entry api (it_inside api a) (0, 0) of
        (npu, obj) \<Rightarrow> unserialize_insts api as (t(npu \<mapsto> obj)))"

definition ndi_obj_id_table_cps_unserialize ::
  "('o, 'a) cps_api \<Rightarrow> ndi_obj_id_table_t \<Rightarrow> 'o \<Rightarrow> nat list \<Rightarrow> bool \<times> ndi_obj_id_table_t" where
  "ndi_obj_id_table_cps_unserialize api table ob ids =
     (case object_it api ob ids of
        None \<Rightarrow> (False, table)
      | Some as \<Rightarrow> (True, unserialize_insts api as Map.empty))"

text \<open>
  The C functions, over the table behind the handle. \<open>order\<close> is the sequence in which the hash map's
  iterator visits the entries of a table.
\<close>

definition nas_ndi_obj_id_table_cps_serialize ::
  "('o, 'a) cps_api \<Rightarrow> (ndi_obj_id_table_t \<Rightarrow> (u32 \<times> u64) list) \<Rightarrow> ndi_obj_id_table_t option \<Rightarrow> 'o \<Rightarrow> nat list
     \<Rightarrow> fault + (bool \<times> 'o)" where
  "nas_ndi_obj_id_table_cps_serialize api order h ob ids =
     (case h of None \<Rightarrow> Inl Null_Deref
      | Some t \<Rightarrow> Inr (ndi_obj_id_table_cps_serialize api (order t) ob ids))"

definition nas_ndi_obj_id_table_cps_unserialize ::
  "('o, 'a) cps_api \<Rightarrow> ndi_obj_id_table_t option \<Rightarrow> 'o \<Rightarrow> nat list \<Rightarrow> fault + (bool \<times> ndi_obj_id_table_t)" where
  "nas_ndi_obj_id_table_cps_unserialize api h ob ids =
     (case h of None \<Rightarrow> Inl Null_Deref
      | Some t \<Rightarrow> Inr (ndi_obj_id_table_cps_unserialize api t ob ids))"

section \<open>The table's contract\<close>

definition ndi_put :: "u32 \<Rightarrow> u64 \<Rightarrow> ndi_obj_id_table_t \<Rightarrow> bool \<times> ndi_obj_id_table_t" where
  "ndi_put npu obj t = projr (nas_ndi_obj_id_table_set_id True (Some t) npu obj)"

definition ndi_del :: "u32 \<Rightarrow> ndi_obj_id_table_t \<Rightarrow> bool \<times> ndi_obj_id_table_t" where
  "ndi_del npu t = projr (nas_ndi_obj_id_table_erase_id (Some t) npu)"

definition ndi_get :: "ndi_obj_id_table_t \<Rightarrow> u32 \<Rightarrow> u64 option" where
  "ndi_get t npu = snd (projr (nas_ndi_obj_id_table_get_id (Some t) npu))"

lemma ndi_get_eq [simp]: "ndi_get t npu = t npu"
  by (simp add: ndi_get_def nas_ndi_obj_id_table_get_id_def split: option.split)

interpretation ndi: last_wins ndi_get ndi_put ndi_del "\<lambda>_. True"
  by unfold_locales
    (auto simp: ndi_put_def ndi_del_def nas_ndi_obj_id_table_set_id_def
      nas_ndi_obj_id_table_erase_id_def)

text \<open>A table that was created and then changed by any sequence of settings and erasures
  returns for an NPU the object of its last setting since its last erasure, and false when there
  is none.\<close>

theorem ndi_table_history:
  "nas_ndi_obj_id_table_get_id
     (map_option (fold (kt_step ndi_put ndi_del) xs) (nas_ndi_obj_id_table_create True)) npu =
   (case fold last_step xs Map.empty npu of
      None \<Rightarrow> Inr (False, None) | Some x \<Rightarrow> Inr (True, Some x))"
proof -
  have "ndi_get t = t" for t by (simp add: fun_eq_iff)
  then have "fold (kt_step ndi_put ndi_del) xs Map.empty = fold last_step xs Map.empty"
    using ndi.run_refines [of xs Map.empty] by simp
  then show ?thesis
    by (simp add: nas_ndi_obj_id_table_create_def nas_ndi_obj_id_table_get_id_def)
qed

section \<open>The round trip\<close>

type_synonym groups = "(nat \<times> (nat \<times> cps_val) list) list"

definition leaf_is :: "('o, 'a) cps_api \<Rightarrow> nat \<times> cps_val \<Rightarrow> 'a \<Rightarrow> bool" where
  "leaf_is api l b \<longleftrightarrow> attr_id api b = fst l \<and>
     (case snd l of ATTR_T_U32 x \<Rightarrow> attr_data_u32 api b = x | ATTR_T_U64 x \<Rightarrow> attr_data_u64 api b = x)"

definition group_is :: "('o, 'a) cps_api \<Rightarrow> nat \<times> (nat \<times> cps_val) list \<Rightarrow> 'a \<Rightarrow> bool" where
  "group_is api g a \<longleftrightarrow> attr_id api a = fst g \<and> list_all2 (leaf_is api) (snd g) (it_inside api a)"

text \<open>What an object holds under a hierarchy: nothing, or a sequence of numbered groups.\<close>

definition cps_holds :: "('o, 'a) cps_api \<Rightarrow> nat list \<Rightarrow> groups \<Rightarrow> 'o \<Rightarrow> bool" where
  "cps_holds api p gs ob \<longleftrightarrow>
     (if gs = [] then object_it api ob p = None
      else \<exists>as. object_it api ob p = Some as \<and> list_all2 (group_is api) gs as)"

fun group_add :: "nat \<Rightarrow> nat \<times> cps_val \<Rightarrow> groups \<Rightarrow> groups" where
  "group_add i l [] = [(i, [l])]"
| "group_add i l ((k, ls) # gs) = (if k = i then (k, ls @ [l]) # gs else (k, ls) # group_add i l gs)"

text \<open>
  The documented behaviour of the CPS object: an attribute that is added under a hierarchy
  becomes the last one of its group, and the group is created behind the others if need be.
\<close>

definition cps_api_spec :: "('o, 'a) cps_api \<Rightarrow> bool" where
  "cps_api_spec api \<longleftrightarrow>
     (\<forall>p gs ob i j v ob'. cps_holds api p gs ob \<longrightarrow> e_add api ob (p @ [i, j]) v = (True, ob') \<longrightarrow>
        cps_holds api p (group_add i (j, v) gs) ob')"

lemma cps_api_specD:
  "cps_api_spec api \<Longrightarrow> cps_holds api p gs ob \<Longrightarrow> e_add api ob (p @ [i, j]) v = (True, ob') \<Longrightarrow>
     cps_holds api p (group_add i (j, v) gs) ob'"
  by (simp add: cps_api_spec_def)

lemma group_add_new: "i \<notin> fst ` set gs \<Longrightarrow> group_add i l gs = gs @ [(i, [l])]"
  by (induction gs) auto

lemma group_add_last: "i \<notin> fst ` set gs \<Longrightarrow> group_add i l (gs @ [(i, ls)]) = gs @ [(i, ls @ [l])]"
  by (induction gs) auto

fun groups_of :: "nat \<Rightarrow> (u32 \<times> u64) list \<Rightarrow> groups" where
  "groups_of i [] = []"
| "groups_of i ((n, x) # es) =
     (i, [(OPAQUE_NPU_ATTR_ID, ATTR_T_U32 n), (OPAQUE_NDI_OBJ_ATTR_ID, ATTR_T_U64 x)]) # groups_of (i + 1) es"

lemma serialize_holds:
  assumes "cps_api_spec api"
  shows "cps_holds api ids gs ob \<Longrightarrow> \<forall>k \<in> fst ` set gs. k < inst \<Longrightarrow>
    serialize_elems api ids inst es ob = (True, ob') \<Longrightarrow>
    cps_holds api ids (gs @ groups_of inst es) ob'"
proof (induction es arbitrary: gs inst ob)
  case (Cons e es)
  obtain n x where e: "e = (n, x)" by (cases e)
  obtain ob1 where 1: "e_add api ob (ids @ [inst, OPAQUE_NPU_ATTR_ID]) (ATTR_T_U32 n) = (True, ob1)"
    using Cons.prems(3) e by (auto split: prod.splits if_splits)
  obtain ob2 where 2: "e_add api ob1 (ids @ [inst, OPAQUE_NDI_OBJ_ATTR_ID]) (ATTR_T_U64 x) = (True, ob2)"
    using Cons.prems(3) e 1 by (auto split: prod.splits if_splits)
  have new: "inst \<notin> fst ` set gs" using Cons.prems(2) by blast
  let ?gs = "gs @ [(inst, [(OPAQUE_NPU_ATTR_ID, ATTR_T_U32 n), (OPAQUE_NDI_OBJ_ATTR_ID, ATTR_T_U64 x)])]"
  have "cps_holds api ids (gs @ [(inst, [(OPAQUE_NPU_ATTR_ID, ATTR_T_U32 n)])]) ob1"
    using cps_api_specD [OF assms Cons.prems(1) 1] group_add_new [OF new] by simp
  then have "cps_holds api ids ?gs ob2"
    using cps_api_specD [OF assms _ 2] group_add_last [OF new] by fastforce
  then have "cps_holds api ids (?gs @ groups_of (inst + 1) es) ob'"
    using Cons.prems(2,3) e 1 2 by (intro Cons.IH) (auto simp: less_Suc_eq)
  then show ?case by (simp add: e)
qed simp

lemma unserialize_groups:
  "list_all2 (group_is api) (groups_of i es) as \<Longrightarrow>
     unserialize_insts api as t = t ++ map_of (rev es)"
proof (induction es arbitrary: i as t)
  case (Cons e es)
  obtain n x where e: "e = (n, x)" by (cases e)
  obtain a as' where a: "as = a # as'"
      "group_is api (i, [(OPAQUE_NPU_ATTR_ID, ATTR_T_U32 n), (OPAQUE_NDI_OBJ_ATTR_ID, ATTR_T_U64 x)]) a"
      "list_all2 (group_is api) (groups_of (i + 1) es) as'"
    using Cons.prems e by (auto simp: list_all2_Cons1)
  obtain b c where b: "it_inside api a = [b, c]" "attr_id api b = 1" "attr_id api c = 2"
      "attr_data_u32 api b = n" "attr_data_u64 api c = x"
    using a(2) by (auto simp: group_is_def leaf_is_def list_all2_Cons1
        OPAQUE_NPU_ATTR_ID_def OPAQUE_NDI_OBJ_ATTR_ID_def)
  have "unserialize_entry api (it_inside api a) (0, 0) = (n, x)"
    using b by (simp add: OPAQUE_NPU_ATTR_ID_def OPAQUE_NDI_OBJ_ATTR_ID_def)
  then have "unserialize_insts api as t = t(n \<mapsto> x) ++ map_of (rev es)"
    using Cons.IH [OF a(3), of "t(n \<mapsto> x)"] by (simp add: a(1) del: fun_upd_apply)
  moreover have "t(n \<mapsto> x) ++ map_of (rev es) = t ++ map_of (rev (e # es))"
    by (rule ext) (auto simp: e map_add_def split: option.split)
  ultimately show ?case by simp
qed simp

lemma serialize_then_read:
  assumes "cps_api_spec api" "object_it api ob ids = None" "distinct (map fst elems)" "elems \<noteq> []"
    "ndi_obj_id_table_cps_serialize api elems ob ids = (True, ob')"
  shows "ndi_obj_id_table_cps_unserialize api t ob' ids = (True, map_of elems)"
proof -
  have "cps_holds api ids (groups_of OPAQUE_INST_ATTR_ID_START elems) ob'"
    using serialize_holds [OF assms(1), of ids "[]" ob OPAQUE_INST_ATTR_ID_START elems ob'] assms(2,5)
    by (simp add: cps_holds_def ndi_obj_id_table_cps_serialize_def)
  moreover have "groups_of i elems \<noteq> []" for i using assms(4) by (cases elems) auto
  moreover have "map_of (rev elems) = map_of elems"
    using assms(3) by (intro map_of_inject_set [THEN iffD2]) (simp_all add: rev_map [symmetric])
  ultimately show ?thesis
    using unserialize_groups [of api OPAQUE_INST_ATTR_ID_START elems _ Map.empty]
    by (auto simp: ndi_obj_id_table_cps_unserialize_def cps_holds_def split: option.split)
qed

text \<open>C15: What \<open>serialize\<close> writes under a hierarchy where an object holds nothing,
  \<open>unserialize\<close> reads back as the same table, whatever the order of the hash map; but an empty
  table writes nothing, and reading it back is refused and leaves the target as it was.\<close>

theorem ndi_table_roundtrip:
  assumes "cps_api_spec api" "object_it api ob ids = None" "distinct (map fst elems)"
    "ndi_obj_id_table_cps_serialize api elems ob ids = (True, ob')"
  shows "ndi_obj_id_table_cps_unserialize api t ob' ids =
    (if elems = [] then (False, t) else (True, map_of elems))"
proof (cases "elems = []")
  case True
  then show ?thesis using assms(2,4)
    by (simp add: ndi_obj_id_table_cps_serialize_def ndi_obj_id_table_cps_unserialize_def)
next
  case False
  then show ?thesis using serialize_then_read [OF assms(1-3) False assms(4)] by simp
qed

text \<open>
  A CPS object that meets the contract: the groups under each hierarchy. An attribute of it is a
  group or a leaf.
\<close>

datatype list_attr = Leaf nat cps_val | Group nat "(nat \<times> cps_val) list"

definition list_api :: "(nat list \<Rightarrow> groups, list_attr) cps_api" where
  "list_api = \<lparr>
     e_add = (\<lambda>ob p v. (True, ob(take (length p - 2) p :=
        group_add (p ! (length p - 2)) (p ! (length p - 1), v) (ob (take (length p - 2) p))))),
     object_it = (\<lambda>ob p. if ob p = [] then None else Some (map (\<lambda>(k, ls). Group k ls) (ob p))),
     it_inside = (\<lambda>a. case a of Leaf _ _ \<Rightarrow> [] | Group _ ls \<Rightarrow> map (\<lambda>(j, v). Leaf j v) ls),
     attr_id = (\<lambda>a. case a of Leaf j _ \<Rightarrow> j | Group k _ \<Rightarrow> k),
     attr_data_u32 = (\<lambda>a. case a of Leaf _ (ATTR_T_U32 x) \<Rightarrow> x | _ \<Rightarrow> 0),
     attr_data_u64 = (\<lambda>a. case a of Leaf _ (ATTR_T_U64 x) \<Rightarrow> x | _ \<Rightarrow> 0)\<rparr>"

lemma list_api_it: "object_it list_api ob p =
    (if ob p = [] then None else Some (map (\<lambda>(k, ls). Group k ls) (ob p)))"
  by (simp add: list_api_def)

definition leaf_rel :: "nat \<times> cps_val \<Rightarrow> nat \<times> cps_val \<Rightarrow> bool" where
  "leaf_rel l m \<longleftrightarrow> leaf_is list_api l (Leaf (fst m) (snd m))"

definition group_rel :: "nat \<times> (nat \<times> cps_val) list \<Rightarrow> nat \<times> (nat \<times> cps_val) list \<Rightarrow> bool" where
  "group_rel g h \<longleftrightarrow> fst h = fst g \<and> list_all2 leaf_rel (snd g) (snd h)"

lemma list_api_attr [simp]:
  "it_inside list_api (Group k ls) = map (\<lambda>(j, v). Leaf j v) ls"
  "attr_id list_api (Group k ls) = k"
  by (simp_all add: list_api_def)

lemma group_rel_is: "group_is list_api g (case h of (k, ls) \<Rightarrow> Group k ls) \<longleftrightarrow> group_rel g h"
  by (cases h) (auto simp: group_is_def group_rel_def leaf_rel_def [abs_def] list_all2_map2
      case_prod_unfold)

lemma list_api_holds: "cps_holds list_api p gs ob \<longleftrightarrow> list_all2 group_rel gs (ob p)"
  by (auto simp: cps_holds_def list_api_it list_all2_map2 group_rel_is)

lemma group_add_rel:
  "list_all2 group_rel gs hs \<Longrightarrow> leaf_rel l m \<Longrightarrow> list_all2 group_rel (group_add i l gs) (group_add i m hs)"
proof (induction gs arbitrary: hs)
  case Nil
  then show ?case by (simp add: group_rel_def)
next
  case (Cons g gs)
  then obtain h hs' where "hs = h # hs'" "group_rel g h" "list_all2 group_rel gs hs'"
    by (auto simp: list_all2_Cons1)
  then show ?case
    using Cons by (cases g; cases h) (auto simp: group_rel_def intro: list_all2_appendI)
qed

lemma leaf_rel_refl: "leaf_rel l l"
  by (auto simp: leaf_rel_def leaf_is_def list_api_def split: cps_val.split)

lemma list_api_spec: "cps_api_spec list_api"
proof -
  have "list_all2 group_rel (group_add i (j, v) gs) (ob' p)"
    if "list_all2 group_rel gs (ob p)" "e_add list_api ob (p @ [i, j]) v = (True, ob')"
    for p gs ob i j v ob'
  proof -
    have "ob' p = group_add i (j, v) (ob p)"
      using that(2) by (auto simp: list_api_def nth_append)
    then show ?thesis using that(1) by (simp add: group_add_rel leaf_rel_refl)
  qed
  then show ?thesis unfolding cps_api_spec_def list_api_holds by blast
qed

lemma ndi_table_roundtrip_witness:
  "ndi_obj_id_table_cps_unserialize list_api Map.empty
     (snd (ndi_obj_id_table_cps_serialize list_api [(0, 100), (1, 200)] (\<lambda>_. []) [7])) [7] =
   (True, map_of [(0, 100), (1, 200)])"
proof -
  have n: "object_it list_api (\<lambda>_. []) [7] = None" by (simp add: list_api_it)
  let ?s = "ndi_obj_id_table_cps_serialize list_api [(0, 100), (1, 200)] (\<lambda>_. []) [7]"
  have "fst ?s"
    by (simp add: ndi_obj_id_table_cps_serialize_def list_api_def)
  then have o: "?s = (True, snd ?s)" by (cases ?s) simp
  show ?thesis
    using ndi_table_roundtrip [OF list_api_spec n _ o, of Map.empty] by simp
qed

end
