(* ===== verification/CLib.thy ===== *)
theory CLib
  imports Prelude
begin

text \<open>
  The number parsers of the C library that the configuration readers call, \<open>strtoul\<close> with base
  0 and \<open>atoi\<close>, and the accessors of the configuration file's nodes, which belong to the
  platform library and are a parameter. The printing of numbers is the converse.
\<close>

section \<open>Numbers\<close>

definition c_isspace :: "char \<Rightarrow> bool" where
  "c_isspace c \<longleftrightarrow> (let n = of_char c :: nat in n = 32 \<or> 9 \<le> n \<and> n \<le> 13)"

text \<open>The value of a digit in a base up to 36.\<close>

definition c_digit :: "char \<Rightarrow> nat option" where
  "c_digit c =
     (let n = of_char c :: nat
      in if 48 \<le> n \<and> n \<le> 57 then Some (n - 48)
         else if 97 \<le> n \<and> n \<le> 122 then Some (n - 87)
         else if 65 \<le> n \<and> n \<le> 90 then Some (n - 55)
         else None)"

fun c_digits :: "nat \<Rightarrow> nat \<Rightarrow> string \<Rightarrow> nat" where
  "c_digits base acc [] = acc"
| "c_digits base acc (c # cs) =
     (case c_digit c of
        Some d \<Rightarrow> if d < base then c_digits base (acc * base + d) cs else acc
      | None \<Rightarrow> acc)"

definition c_sign :: "string \<Rightarrow> bool \<times> string" where
  "c_sign s =
     (case s of [] \<Rightarrow> (False, s)
      | c # cs \<Rightarrow> if c = CHR ''-'' then (True, cs) else if c = CHR ''+'' then (False, cs) else (False, s))"

definition c_is_hex :: "char \<Rightarrow> bool" where
  "c_is_hex c \<longleftrightarrow> (case c_digit c of Some d \<Rightarrow> d < 16 | None \<Rightarrow> False)"

text \<open>The magnitude with base 0: hexadecimal after \<open>0x\<close>, octal after \<open>0\<close>, else decimal.\<close>

definition c_magnitude0 :: "string \<Rightarrow> nat" where
  "c_magnitude0 s =
     (case s of
        z # x # d # cs \<Rightarrow>
          if z = CHR ''0'' \<and> (x = CHR ''x'' \<or> x = CHR ''X'') \<and> c_is_hex d then c_digits 16 0 (d # cs)
          else if z = CHR ''0'' then c_digits 8 0 s
          else c_digits 10 0 s
      | z # cs \<Rightarrow> if z = CHR ''0'' then c_digits 8 0 s else c_digits 10 0 s
      | [] \<Rightarrow> 0)"

text \<open>
  \<open>strtoul (s, NULL, 0)\<close>, a 64-bit number, and its conversion to \<open>uint32_t\<close>. A magnitude that does
  not fit gives \<open>ULONG_MAX\<close>; a minus sign negates modulo \<open>2 ^ 64\<close>.
\<close>

definition strtoul0 :: "string \<Rightarrow> nat" where
  "strtoul0 s =
     (case c_sign (dropWhile c_isspace s) of (neg, t) \<Rightarrow>
        (let m = c_magnitude0 t
         in if m \<ge> 2 ^ 64 then 2 ^ 64 - 1 else if neg then (2 ^ 64 - m) mod 2 ^ 64 else m))"

definition strtoul_u32 :: "string \<Rightarrow> u32" where
  "strtoul_u32 s = of_nat (strtoul0 s)"

text \<open>\<open>atoi\<close>: \<open>strtol\<close> with base 10, clamped to 64 bits, converted to \<open>int\<close>.\<close>

definition atoi :: "string \<Rightarrow> i32" where
  "atoi s =
     (case c_sign (dropWhile c_isspace s) of (neg, t) \<Rightarrow>
        (let m = int (c_digits 10 0 t)
         in if neg then of_int (max (- (2 ^ 63)) (- m)) else of_int (min (2 ^ 63 - 1) m)))"

section \<open>Configuration nodes\<close>

text \<open>
  \<open>std_config_name_get\<close>, \<open>std_config_attr_get\<close>, and the children of a node as the list that
  \<open>std_config_get_child\<close> and \<open>std_config_next_node\<close> run through.
\<close>

record 'n config_api =
  config_name :: "'n \<Rightarrow> string"
  config_attr :: "'n \<Rightarrow> string \<Rightarrow> string option"
  config_children :: "'n \<Rightarrow> 'n list"

section \<open>Round trip with the decimal notation\<close>

fun dec_of_nat :: "nat \<Rightarrow> string" where
  "dec_of_nat n = (if n < 10 then [char_of (48 + n)] else dec_of_nat (n div 10) @ [char_of (48 + n mod 10)])"

declare dec_of_nat.simps [simp del]

text \<open>\<open>std::to_string\<close> of an \<open>int\<close>.\<close>

definition int_to_string :: "int \<Rightarrow> string" where
  "int_to_string i = (if i < 0 then ''-'' @ dec_of_nat (nat (- i)) else dec_of_nat (nat i))"

text \<open>\<open>%d\<close> of a 32-bit value, and the newline.\<close>

definition fmt_d :: "32 word \<Rightarrow> string" where
  "fmt_d w = int_to_string (sint w)"

definition newline :: string where
  "newline = [CHR 0x0A]"

lemma c_digit_dec: "d < 10 \<Longrightarrow> c_digit (char_of (48 + d)) = Some d"
  by (simp add: c_digit_def)

lemma c_digits_append_dec:
  "\<forall>c \<in> set s. \<exists>d::nat. d < 10 \<and> c = char_of (48 + d) \<Longrightarrow> d < 10 \<Longrightarrow>
     c_digits 10 acc (s @ [char_of (48 + d)]) = c_digits 10 acc s * 10 + d"
proof (induction s arbitrary: acc)
  case Nil
  then show ?case using c_digit_dec [of d] by simp
next
  case (Cons c s)
  obtain e :: nat where e: "e < 10" "c = char_of (48 + e)" using Cons.prems(1) by auto
  have "\<forall>c \<in> set s. \<exists>d::nat. d < 10 \<and> c = char_of (48 + d)" using Cons.prems(1) by simp
  from Cons.IH [OF this Cons.prems(2), of "acc * 10 + e"] show ?case
    using c_digit_dec [OF e(1)] e by simp
qed

lemma dec_of_nat_digits: "\<forall>c \<in> set (dec_of_nat n). \<exists>d::nat. d < 10 \<and> c = char_of (48 + d)"
proof (induction n rule: dec_of_nat.induct)
  case (1 n)
  have "n mod 10 < 10" by simp
  then show ?case
    using 1 by (subst dec_of_nat.simps) (auto intro: exI [of _ n] exI [of _ "n mod 10"])
qed

lemma c_digits_dec_of_nat: "c_digits 10 0 (dec_of_nat n) = n"
proof (induction n rule: dec_of_nat.induct)
  case (1 n)
  show ?case
  proof (cases "n < 10")
    case True
    then show ?thesis using c_digit_dec [OF True] by (subst dec_of_nat.simps) simp
  next
    case False
    then show ?thesis
      using 1 c_digits_append_dec [OF dec_of_nat_digits, of "n mod 10" 0 "n div 10"]
      by (subst dec_of_nat.simps) (simp add: div_mult_mod_eq)
  qed
qed

lemma dec_of_nat_hd:
  "\<exists>(d::nat) cs. dec_of_nat n = char_of (48 + d) # cs \<and> d < 10 \<and> (d = 0 \<longrightarrow> n = 0 \<and> cs = [])"
proof (induction n rule: dec_of_nat.induct)
  case (1 n)
  show ?case
  proof (cases "n < 10")
    case True
    then show ?thesis by (subst dec_of_nat.simps) (auto intro!: exI [of _ n])
  next
    case False
    then obtain d :: nat and cs where "dec_of_nat (n div 10) = char_of (48 + d) # cs" "d < 10"
      "d = 0 \<longrightarrow> n div 10 = 0 \<and> cs = []" using 1 by blast
    then show ?thesis using False by (subst dec_of_nat.simps) (auto intro!: exI [of _ d])
  qed
qed

lemma strtoul0_dec: "n < 2 ^ 64 \<Longrightarrow> strtoul0 (dec_of_nat n) = n"
proof -
  assume n: "n < 2 ^ 64"
  obtain d :: nat and cs where d: "dec_of_nat n = char_of (48 + d) # cs" "d < 10" "d = 0 \<longrightarrow> n = 0 \<and> cs = []"
    using dec_of_nat_hd by blast
  have "d = 0 \<or> d = 1 \<or> d = 2 \<or> d = 3 \<or> d = 4 \<or> d = 5 \<or> d = 6 \<or> d = 7 \<or> d = 8 \<or> d = 9"
    using d(2) by (auto simp: less_Suc_eq eval_nat_numeral)
  then have c: "\<not> c_isspace (char_of (48 + d)) \<and> char_of (48 + d) \<noteq> CHR ''-'' \<and>
      char_of (48 + d) \<noteq> CHR ''+'' \<and> (char_of (48 + d) = CHR ''0'' \<longleftrightarrow> d = 0)"
    by (elim disjE) (simp_all add: c_isspace_def char_of_def bit_0)
  then have z: "char_of (48 + d) = CHR ''0'' \<longleftrightarrow> d = 0" by blast
  have "c_magnitude0 (dec_of_nat n) = n"
  proof (cases "d = 0")
    case True
    then show ?thesis using d by (simp add: c_magnitude0_def c_digit_def)
  next
    case False
    then have "c_magnitude0 (dec_of_nat n) = c_digits 10 0 (dec_of_nat n)"
      using z d(1) by (auto simp: c_magnitude0_def split: list.split)
    then show ?thesis by (simp add: c_digits_dec_of_nat)
  qed
  then show ?thesis
    using n c d(1) by (simp add: strtoul0_def c_sign_def Let_def)
qed

end
