(* ===== verification/BaseUtils.thy ===== *)
theory BaseUtils
  imports CLib
begin

text \<open>
  The value classes of \<open>src/inc/opx/nas_base_utils.h\<close> and \<open>src/src/nas_base_utils.cpp\<close>: the sets
  of NPUs and of attributes, the helper that frees what was allocated through it, and the
  generator of object identifiers over a bit map of the platform library.
\<close>

section \<open>NPU sets\<close>

text \<open>\<open>std::set<npu_id_t>\<close>; \<open>npu_id_t\<close> is an \<open>int\<close>, ordered by its signed value.\<close>

type_synonym npu_set_t = "int list"

definition npu_add :: "int \<Rightarrow> npu_set_t \<Rightarrow> npu_set_t" where
  "npu_add n s = oset_insert n s"

definition npu_del :: "int \<Rightarrow> npu_set_t \<Rightarrow> npu_set_t" where
  "npu_del n s = oset_erase n s"

definition npu_contains :: "npu_set_t \<Rightarrow> int \<Rightarrow> bool" where
  "npu_contains s n \<longleftrightarrow> n \<in> set s"

text \<open>The two loops of \<open>compare\<close>; each adds to the sets the caller passes.\<close>

fun compare_second :: "npu_set_t \<Rightarrow> int list \<Rightarrow> npu_set_t \<times> npu_set_t \<Rightarrow> npu_set_t \<times> npu_set_t" where
  "compare_second self [] acc = acc"
| "compare_second self (n # ns) (only_second, in_both) =
     compare_second self ns
       (if \<not> npu_contains self n then (npu_add n only_second, in_both)
        else (only_second, npu_add n in_both))"

fun compare_mine :: "npu_set_t \<Rightarrow> int list \<Rightarrow> npu_set_t \<Rightarrow> npu_set_t" where
  "compare_mine second [] only_mine = only_mine"
| "compare_mine second (n # ns) only_mine =
     compare_mine second ns (if \<not> npu_contains second n then npu_add n only_mine else only_mine)"

definition npu_compare ::
  "npu_set_t \<Rightarrow> npu_set_t \<Rightarrow> npu_set_t \<times> npu_set_t \<times> npu_set_t \<Rightarrow> npu_set_t \<times> npu_set_t \<times> npu_set_t" where
  "npu_compare self second out =
     (case out of (only_mine, only_second, in_both) \<Rightarrow>
       (case compare_second self second (only_second, in_both) of
          (only_second', in_both') \<Rightarrow>
            (compare_mine second self only_mine, only_second', in_both')))"

definition npu_dump :: "npu_set_t \<Rightarrow> string \<Rightarrow> string" where
  "npu_dump s str = str @ ''NPUs: '' @ concat (map (\<lambda>n. int_to_string n @ '', '') s)"

lemma compare_second_eq:
  "set (fst (compare_second self ns (a, b))) = set a \<union> (set ns - set self)"
  "set (snd (compare_second self ns (a, b))) = set b \<union> (set ns \<inter> set self)"
  by (induction ns arbitrary: a b) (auto simp: npu_contains_def npu_add_def oset_simps)

lemma compare_second_oset:
  "oset a \<Longrightarrow> oset b \<Longrightarrow> oset (fst (compare_second self ns (a, b))) \<and> oset (snd (compare_second self ns (a, b)))"
  by (induction ns arbitrary: a b) (auto simp: npu_add_def oset_simps)

lemma compare_mine_eq: "set (compare_mine second ns a) = set a \<union> (set ns - set second)"
  by (induction ns arbitrary: a) (auto simp: npu_contains_def npu_add_def oset_simps)

lemma compare_mine_oset: "oset a \<Longrightarrow> oset (compare_mine second ns a)"
  by (induction ns arbitrary: a) (auto simp: npu_add_def oset_simps)

lemma compare_parts:
  assumes "npu_compare self second ([], [], []) = (a, b, c)"
  shows "set a = set self - set second" "set b = set second - set self"
    "set c = set self \<inter> set second" "oset a" "oset b" "oset c"
  using assms compare_second_eq [of self second "[]" "[]"] compare_second_oset [of "[]" "[]" self second]
    compare_mine_eq [of second self "[]"] compare_mine_oset [of "[]" second self]
  by (auto simp: npu_compare_def oset_simps split: prod.splits)

text \<open>Comparing two sets into empty ones partitions their union: what only the first has,
  what only the second has, and what both have, each as an ordered set.\<close>

theorem npu_compare_partitions:
  "case npu_compare self second ([], [], []) of (only_mine, only_second, in_both) \<Rightarrow>
     set only_mine = set self - set second \<and> set only_second = set second - set self \<and>
     set in_both = set self \<inter> set second \<and>
     oset only_mine \<and> oset only_second \<and> oset in_both"
  using compare_parts [of self second] by (auto split: prod.split)

section \<open>Attribute sets\<close>

record attr_set_t =
  max_attr_id :: u64
  attributes :: "u64 list"

definition attr_set_empty :: attr_set_t where
  "attr_set_empty = \<lparr>max_attr_id = 0, attributes = []\<rparr>"

definition attr_add :: "u64 \<Rightarrow> attr_set_t \<Rightarrow> attr_set_t" where
  "attr_add a s =
     (let s' = s\<lparr>attributes := oset_insert a (attributes s)\<rparr>
      in if a > max_attr_id s' then s'\<lparr>max_attr_id := a\<rparr> else s')"

definition attr_clear :: "attr_set_t \<Rightarrow> attr_set_t" where
  "attr_clear s = s\<lparr>attributes := [], max_attr_id := 0\<rparr>"

definition attr_contains :: "attr_set_t \<Rightarrow> u64 \<Rightarrow> bool" where
  "attr_contains s a \<longleftrightarrow> a \<in> set (attributes s)"

definition attr_len :: "attr_set_t \<Rightarrow> u64" where
  "attr_len s = max_attr_id s"

definition attr_count :: "attr_set_t \<Rightarrow> nat" where
  "attr_count s = length (attributes s)"

text \<open>\<open>operator+=\<close>: the loop over the right side, then the greater of the two maxima.\<close>

definition attr_plus :: "attr_set_t \<Rightarrow> attr_set_t \<Rightarrow> attr_set_t" where
  "attr_plus s rhs =
     (let s' = s\<lparr>attributes := fold oset_insert (attributes rhs) (attributes s)\<rparr>
      in s'\<lparr>max_attr_id :=
           (if max_attr_id s' > max_attr_id rhs then max_attr_id s' else max_attr_id rhs)\<rparr>)"

text \<open>
  \<open>to_array\<close> into the caller's buffer: the loop stops when the caller's length is reached; a
  write behind the buffer is a fault.
\<close>

fun to_array_loop :: "u64 list \<Rightarrow> nat \<Rightarrow> nat \<Rightarrow> u64 list \<Rightarrow> fault + u64 list" where
  "to_array_loop [] count len buf = Inr buf"
| "to_array_loop (a # as) count len buf =
     (if count \<ge> len then Inr buf
      else if count \<ge> length buf then Inl Out_Of_Bounds
      else to_array_loop as (count + 1) len (buf[count := a]))"

definition attr_to_array :: "attr_set_t \<Rightarrow> u64 list \<Rightarrow> nat \<Rightarrow> fault + u64 list" where
  "attr_to_array s buf len = to_array_loop (attributes s) 0 len buf"

definition attr_inv :: "attr_set_t \<Rightarrow> bool" where
  "attr_inv s \<longleftrightarrow> oset (attributes s) \<and> max_attr_id s = Max (insert 0 (set (attributes s)))"

lemma attr_empty_inv: "attr_inv attr_set_empty" "attr_inv (attr_clear s)"
  by (simp_all add: attr_inv_def attr_set_empty_def attr_clear_def oset_simps)

lemma attr_add_eq:
  "attributes (attr_add a s) = oset_insert a (attributes s)"
  "max_attr_id (attr_add a s) = max (max_attr_id s) a"
  by (auto simp: attr_add_def Let_def)

lemma attr_plus_eq:
  "attributes (attr_plus s t) = fold oset_insert (attributes t) (attributes s)"
  "max_attr_id (attr_plus s t) = max (max_attr_id s) (max_attr_id t)"
  by (auto simp: attr_plus_def Let_def)

lemma attr_add_inv: "attr_inv s \<Longrightarrow> attr_inv (attr_add a s)"
  by (simp add: attr_inv_def attr_add_eq oset_simps insert_commute [of 0 a] max.commute)

lemma fold_oset_insert:
  "set (fold oset_insert as xs) = set as \<union> set xs"
  "oset xs \<Longrightarrow> oset (fold oset_insert as xs)"
  by (induction as arbitrary: xs) (auto simp: oset_simps)

lemma attr_plus_inv:
  assumes "attr_inv s" "attr_inv t"
  shows "attr_inv (attr_plus s t)"
proof -
  have "insert 0 (set (attributes t) \<union> set (attributes s)) =
      insert 0 (set (attributes s)) \<union> insert 0 (set (attributes t))" by auto
  then have "Max (insert 0 (set (attributes t) \<union> set (attributes s))) =
      max (max_attr_id s) (max_attr_id t)"
    using assms by (simp only: attr_inv_def) (simp add: Max_Un del: Un_insert_left Un_insert_right)
  then show ?thesis
    using assms by (simp add: attr_inv_def attr_plus_eq fold_oset_insert)
qed

text \<open>The sets that a client can build.\<close>

inductive attr_built :: "attr_set_t \<Rightarrow> bool" where
  built_empty: "attr_built attr_set_empty"
| built_add: "attr_built s \<Longrightarrow> attr_built (attr_add a s)"
| built_clear: "attr_built s \<Longrightarrow> attr_built (attr_clear s)"
| built_plus: "attr_built s \<Longrightarrow> attr_built t \<Longrightarrow> attr_built (attr_plus s t)"

lemma attr_built_inv: "attr_built s \<Longrightarrow> attr_inv s"
  by (induction rule: attr_built.induct) (auto simp: attr_empty_inv attr_add_inv attr_plus_inv)

lemma to_array_loop_eq:
  "count \<le> length buf \<Longrightarrow> length buf \<ge> len \<Longrightarrow>
     to_array_loop as count len buf =
       Inr (take count buf @ take (len - count) as @ drop (count + length (take (len - count) as)) buf)"
proof (induction as count len buf rule: to_array_loop.induct)
  case (2 a as count len buf)
  show ?case
  proof (cases "count \<ge> len")
    case False
    then have "to_array_loop (a # as) count len buf = to_array_loop as (count + 1) len (buf[count := a])"
      using 2(3) by simp
    also have "\<dots> = Inr (take (count + 1) (buf[count := a]) @ take (len - (count + 1)) as @
        drop (count + 1 + length (take (len - (count + 1)) as)) (buf[count := a]))"
      using 2 False by simp
    also have "take (count + 1) (buf[count := a]) = take count buf @ [a]"
      using False 2(3) by (simp add: take_Suc_conv_app_nth)
    finally show ?thesis using False by (simp add: Suc_diff_Suc [symmetric] take_Suc_Cons)
  qed (use 2 in simp)
qed simp

text \<open>For every set a client can build by additions, unions and clearing, \<open>len\<close> is the
  greatest attribute in it and 0 for the empty set, membership of a union is membership of
  either side, and \<open>to_array\<close> fills a buffer with the first attributes in increasing order, as
  many as the caller's length allows, without writing behind it.\<close>

theorem attr_set_correct:
  assumes "attr_built s" "attr_built t" "len \<le> length buf"
  shows "attr_len s = (if attributes s = [] then 0 else Max (set (attributes s))) \<and>
    (attr_contains (attr_plus s t) a \<longleftrightarrow> attr_contains s a \<or> attr_contains t a) \<and>
    sorted (attributes s) \<and> distinct (attributes s) \<and>
    attr_to_array s buf len =
      Inr (take len (attributes s) @ drop (length (take len (attributes s))) buf)"
proof -
  have i: "attr_inv s" using attr_built_inv [OF assms(1)] .
  have "attr_len s = (if attributes s = [] then 0 else Max (set (attributes s)))"
    using i by (simp add: attr_inv_def attr_len_def)
  then show ?thesis
    using i assms(3) to_array_loop_eq [of 0 buf len "attributes s"]
    by (auto simp: attr_contains_def attr_plus_def Let_def fold_oset_insert attr_inv_def oset_def
        attr_to_array_def)
qed

lemma attr_set_correct_witness:
  "attr_len (attr_add 3 (attr_add 9 attr_set_empty)) = 9 \<and>
   attr_to_array (attr_add 3 (attr_add 9 attr_set_empty)) [0, 0] 1 = Inr [3, 0]"
proof -
  let ?s = "attr_add 3 (attr_add 9 attr_set_empty)"
  have b: "attr_built ?s" "attr_built attr_set_empty" by (auto intro: attr_built.intros)
  have "attributes ?s = [3, 9]"
    by (simp add: attr_add_def attr_set_empty_def Let_def oset_insert_def)
  then show ?thesis
    using attr_set_correct [OF b, of 1 "[0, 0]"] by simp
qed

end
