(* ===== verification/BaseResources.thy ===== *)
theory BaseResources
  imports BaseUtils
begin

text \<open>
  The two classes of \<open>src/inc/opx/nas_base_utils.h\<close> that own a resource: \<open>mem_alloc_helper_t\<close>,
  which frees on destruction what was allocated through it, and \<open>id_generator_t\<close>, which hands
  out object identifiers from a bit map of the platform library where a set bit is a free
  identifier.
\<close>

section \<open>Tracked memory\<close>

record mem_state =
  live_blocks :: "addr set"
  next_block :: addr
  ptr_list :: "addr list"

text \<open>
  \<open>alloc\<close>: \<open>calloc_ok\<close> and \<open>push_ok\<close> are whether the block and the list's node can be allocated.
  \<open>None\<close> is the exception; the block is freed before it leaves.
\<close>

definition mem_alloc :: "bool \<Rightarrow> bool \<Rightarrow> mem_state \<Rightarrow> addr option \<times> mem_state" where
  "mem_alloc calloc_ok push_ok m =
     (if \<not> calloc_ok then (None, m)
      else
        (let p = next_block m;
             m1 = m\<lparr>live_blocks := insert p (live_blocks m), next_block := p + 1\<rparr>
         in if push_ok then (Some p, m1\<lparr>ptr_list := ptr_list m1 @ [p]\<rparr>)
            else (None, m1\<lparr>live_blocks := live_blocks m1 - {p}\<rparr>)))"

definition mem_add :: "addr \<Rightarrow> mem_state \<Rightarrow> mem_state" where
  "mem_add p m = m\<lparr>ptr_list := ptr_list m @ [p]\<rparr>"

fun free_all :: "addr list \<Rightarrow> addr set \<Rightarrow> fault + addr set" where
  "free_all [] h = Inr h"
| "free_all (p # ps) h = (if p \<in> h then free_all ps (h - {p}) else Inl Double_Free)"

definition mem_destroy :: "mem_state \<Rightarrow> fault + addr set" where
  "mem_destroy m = free_all (ptr_list m) (live_blocks m)"

lemma free_all_eq: "distinct ps \<Longrightarrow> set ps \<subseteq> h \<Longrightarrow> free_all ps h = Inr (h - set ps)"
  by (induction ps arbitrary: h) (auto simp: Diff_insert2 [symmetric] subset_Diff_insert)

definition mem_inv :: "addr set \<Rightarrow> mem_state \<Rightarrow> bool" where
  "mem_inv h0 m \<longleftrightarrow> distinct (ptr_list m) \<and> set (ptr_list m) \<inter> h0 = {} \<and>
     live_blocks m = h0 \<union> set (ptr_list m) \<and> (\<forall>a \<in> live_blocks m. a < next_block m)"

lemma mem_alloc_inv: "mem_inv h0 m \<Longrightarrow> mem_inv h0 (snd (mem_alloc c p m))"
  by (auto simp: mem_inv_def mem_alloc_def Let_def less_SucI)

text \<open>A helper through which any number of blocks was allocated, also when some of the
  allocations fail, frees on destruction each block once and leaves the heap with the blocks it
  had before; but a pointer that is added twice is freed twice.\<close>

theorem mem_helper_frees_all:
  assumes "\<forall>a \<in> h0. a < n"
  shows "mem_destroy (fold (\<lambda>(c, p) m. snd (mem_alloc c p m)) xs
      \<lparr>live_blocks = h0, next_block = n, ptr_list = []\<rparr>) = Inr h0 \<and>
    mem_destroy (mem_add a (mem_add a m)) \<noteq> Inr h"
proof
  let ?m = "fold (\<lambda>(c, p) m. snd (mem_alloc c p m)) xs \<lparr>live_blocks = h0, next_block = n, ptr_list = []\<rparr>"
  have fold: "mem_inv h0 m \<Longrightarrow> mem_inv h0 (fold (\<lambda>(c, p) m. snd (mem_alloc c p m)) xs m)" for m
    by (induction xs arbitrary: m) (auto simp: mem_alloc_inv)
  have "mem_inv h0 ?m" using assms by (intro fold) (simp add: mem_inv_def)
  then show "mem_destroy ?m = Inr h0"
    by (auto simp: mem_inv_def mem_destroy_def free_all_eq)
  have "free_all (ps @ [a, a]) h' \<noteq> Inr h" for ps h'
    by (induction ps arbitrary: h') auto
  then show "mem_destroy (mem_add a (mem_add a m)) \<noteq> Inr h"
    by (simp add: mem_destroy_def mem_add_def)
qed

lemma mem_helper_frees_all_witness:
  "mem_destroy (fold (\<lambda>(c, p) m. snd (mem_alloc c p m)) [(True, True), (True, False), (True, True)]
     \<lparr>live_blocks = {0}, next_block = 1, ptr_list = []\<rparr>) = Inr {0}"
  using mem_helper_frees_all [of "{0}" 1 "[(True, True), (True, False), (True, True)]" 0] by simp

text \<open>
  The second \<open>to_array\<close> of an attribute set takes its array from the helper. The result is the block,
  its contents and the number of attributes; \<open>None\<close> is the exception.
\<close>

definition attr_to_new_array ::
  "bool \<Rightarrow> bool \<Rightarrow> attr_set_t \<Rightarrow> mem_state \<Rightarrow> fault + (addr \<times> u64 list \<times> nat) option \<times> mem_state" where
  "attr_to_new_array calloc_ok push_ok s m =
     (let n = length (attributes s)
      in case mem_alloc calloc_ok push_ok m of
           (None, m') \<Rightarrow> Inr (None, m')
         | (Some p, m') \<Rightarrow>
             (case to_array_loop (attributes s) 0 n (replicate n 0) of
                Inl f \<Rightarrow> Inl f
              | Inr arr \<Rightarrow> Inr (Some (p, arr, n), m')))"

lemma attr_to_new_array_eq:
  "attr_to_new_array calloc_ok push_ok s m =
     (case mem_alloc calloc_ok push_ok m of
        (None, m') \<Rightarrow> Inr (None, m')
      | (Some p, m') \<Rightarrow> Inr (Some (p, attributes s, attr_count s), m'))"
  using to_array_loop_eq [of 0 "replicate (length (attributes s)) 0" "length (attributes s)" "attributes s"]
  by (simp add: attr_to_new_array_def Let_def attr_count_def split: prod.split option.split)

section \<open>Identifiers\<close>

text \<open>
  The bit map: create an array of a number of bits, test, set and clear a bit, find the first
  bit that is set from a position on. \<open>bm_len\<close> is the number of bits that the array has room
  for; an access behind it is a fault, also of the search.
\<close>

record 'b bitmap_api =
  bm_create :: "nat \<Rightarrow> 'b option"
  bm_len :: "'b \<Rightarrow> nat"
  bm_test :: "'b \<Rightarrow> nat \<Rightarrow> bool"
  bm_set :: "'b \<Rightarrow> nat \<Rightarrow> 'b"
  bm_clr :: "'b \<Rightarrow> nat \<Rightarrow> 'b"
  bm_find_first :: "'b \<Rightarrow> nat \<Rightarrow> nat \<Rightarrow> fault + int"

text \<open>
  The documented behaviour: a new array has all its bits set, a bit reads as last written, and
  \<open>find_first (b, len, pos)\<close> looks at the bits from \<open>pos\<close> to \<open>len\<close> in turn up to the first that is
  set. It is \<open>-1\<close> when there is none, else a position from \<open>pos\<close> on with no set bit before it,
  which is a set bit if it lies below \<open>len\<close>. When the array has no room for \<open>len\<close> bits and none
  from \<open>pos\<close> on is set, the search runs behind it.
\<close>

definition find_spec :: "nat \<Rightarrow> (nat \<Rightarrow> bool) \<Rightarrow> nat \<Rightarrow> nat \<Rightarrow> fault + int \<Rightarrow> bool" where
  "find_spec len test n p found \<longleftrightarrow>
     (case found of
        Inl f \<Rightarrow> f = Out_Of_Bounds \<and> len < n \<and> p < n \<and> (\<forall>i. p \<le> i \<longrightarrow> i < len \<longrightarrow> \<not> test i)
      | Inr r \<Rightarrow>
          (len < n \<longrightarrow> p < n \<longrightarrow> (\<exists>i \<ge> p. i < len \<and> test i)) \<and>
          (r = - 1 \<longrightarrow> (\<forall>i. p \<le> i \<longrightarrow> i < n \<longrightarrow> i < len \<longrightarrow> \<not> test i)) \<and>
          (r \<noteq> - 1 \<longrightarrow> int p \<le> r \<and>
            (\<forall>i. p \<le> i \<longrightarrow> i < n \<longrightarrow> i < len \<longrightarrow> int i < r \<longrightarrow> \<not> test i) \<and>
            (r < int n \<longrightarrow> nat r < len \<and> test (nat r))))"

definition bitmap_spec :: "'b bitmap_api \<Rightarrow> bool" where
  "bitmap_spec B \<longleftrightarrow>
     (\<forall>n b. bm_create B n = Some b \<longrightarrow> n \<le> bm_len B b \<and> (\<forall>i < n. bm_test B b i)) \<and>
     (\<forall>b i j. j < bm_len B b \<longrightarrow>
        bm_len B (bm_set B b j) = bm_len B b \<and> bm_len B (bm_clr B b j) = bm_len B b \<and>
        (i < bm_len B b \<longrightarrow>
          bm_test B (bm_set B b j) i = (i = j \<or> bm_test B b i) \<and>
          bm_test B (bm_clr B b j) i = (i \<noteq> j \<and> bm_test B b i))) \<and>
     (\<forall>b n p. find_spec (bm_len B b) (bm_test B b) n p (bm_find_first B b n p))"

record 'b id_generator_t =
  max_ids :: nat
  pos :: nat
  id_bitmap :: "'b option"

text \<open>The constructor; \<open>max_ids+1\<close> is a \<open>size_t\<close>. \<open>None\<close> is the \<open>bad_alloc\<close> it throws.\<close>

definition id_generator_new :: "'b bitmap_api \<Rightarrow> nat \<Rightarrow> 'b id_generator_t option" where
  "id_generator_new B n =
     (let m = (n + 1) mod 2 ^ 64
      in case bm_create B m of None \<Rightarrow> None
         | Some b \<Rightarrow> Some \<lparr>max_ids = m, pos = 1, id_bitmap = Some b\<rparr>)"

text \<open>The conversion \<open>(int) _max_ids\<close>.\<close>

definition int_cast :: "nat \<Rightarrow> int" where
  "int_cast n = signed_take_bit 31 (int n)"

text \<open>
  One search of \<open>alloc_id\<close> from the current position: the bit that is found, cleared, and the
  position behind it. The test against \<open>(int) _max_ids\<close> is the code's.
\<close>

definition try_alloc ::
  "'b bitmap_api \<Rightarrow> 'b \<Rightarrow> 'b id_generator_t \<Rightarrow> fault + (nat \<times> 'b id_generator_t) option" where
  "try_alloc B b g =
     (case bm_find_first B b (max_ids g) (pos g) of
        Inl e \<Rightarrow> Inl e
      | Inr f \<Rightarrow>
          Inr (if f \<noteq> - 1 \<and> f < int_cast (max_ids g)
               then Some (nat f, g\<lparr>id_bitmap := Some (bm_clr B b (nat f)), pos := nat f + 1\<rparr>)
               else None))"

text \<open>
  \<open>Inl\<close> of the result is the exception; the position has been set back by then. A generator that
  was moved from has no bit map, and the search reads through the null pointer as soon as there
  is a bit to look at.
\<close>

definition alloc_id ::
  "'b bitmap_api \<Rightarrow> 'b id_generator_t \<Rightarrow> fault + ((t_std_error + nat) \<times> 'b id_generator_t)" where
  "alloc_id B g =
     (let g1 = g\<lparr>pos := 1\<rparr>
      in case id_bitmap g of
           None \<Rightarrow> (if pos g < max_ids g \<or> 1 < max_ids g then Inl Null_Deref
                    else Inr (Inl NAS_BASE_E_FULL, g1))
         | Some b \<Rightarrow>
             (case (if pos g < max_ids g then try_alloc B b g else Inr None) of
                Inl e \<Rightarrow> Inl e
              | Inr (Some (i, g')) \<Rightarrow> Inr (Inr i, g')
              | Inr None \<Rightarrow>
                  (case try_alloc B b g1 of
                     Inl e \<Rightarrow> Inl e
                   | Inr (Some (i, g')) \<Rightarrow> Inr (Inr i, g')
                   | Inr None \<Rightarrow> Inr (Inl NAS_BASE_E_FULL, g1))))"

definition reserve_id :: "'b bitmap_api \<Rightarrow> nat \<Rightarrow> 'b id_generator_t \<Rightarrow> fault + (bool \<times> 'b id_generator_t)" where
  "reserve_id B i g =
     (if i \<ge> max_ids g then Inr (False, g)
      else case id_bitmap g of None \<Rightarrow> Inl Null_Deref
      | Some b \<Rightarrow>
        (if i \<ge> bm_len B b then Inl Out_Of_Bounds
         else if bm_test B b i then Inr (True, g\<lparr>id_bitmap := Some (bm_clr B b i)\<rparr>)
         else Inr (False, g)))"

definition release_id :: "'b bitmap_api \<Rightarrow> nat \<Rightarrow> 'b id_generator_t \<Rightarrow> fault + 'b id_generator_t" where
  "release_id B i g =
     (if i < max_ids g then
        (case id_bitmap g of None \<Rightarrow> Inl Null_Deref
         | Some b \<Rightarrow>
           (if i \<ge> bm_len B b then Inl Out_Of_Bounds
            else Inr (g\<lparr>id_bitmap := Some (bm_set B b i)\<rparr>)))
      else Inr g)"

text \<open>The move constructor, and the move assignment, which cannot change \<open>_max_ids\<close>. The first
  component is the target.\<close>

definition id_move_new :: "'b id_generator_t \<Rightarrow> 'b id_generator_t \<times> 'b id_generator_t" where
  "id_move_new src = (src, src\<lparr>id_bitmap := None\<rparr>)"

definition id_move_assign ::
  "'b id_generator_t \<Rightarrow> 'b id_generator_t \<Rightarrow> 'b id_generator_t \<times> 'b id_generator_t" where
  "id_move_assign dst src =
     (dst\<lparr>pos := pos src, id_bitmap := id_bitmap src\<rparr>, src\<lparr>id_bitmap := None\<rparr>)"

section \<open>The pool of free identifiers\<close>

definition free_ids :: "'b bitmap_api \<Rightarrow> 'b id_generator_t \<Rightarrow> nat set" where
  "free_ids B g = (case id_bitmap g of None \<Rightarrow> {} | Some b \<Rightarrow> {i. i < max_ids g \<and> bm_test B b i})"

definition id_inv :: "'b bitmap_api \<Rightarrow> 'b id_generator_t \<Rightarrow> bool" where
  "id_inv B g \<longleftrightarrow> (\<exists>b. id_bitmap g = Some b \<and> max_ids g \<le> bm_len B b) \<and> 1 \<le> pos g \<and> max_ids g < 2 ^ 31"

lemma int_cast_small: "n < 2 ^ 31 \<Longrightarrow> int_cast n = int n"
  unfolding int_cast_def by (rule signed_take_bit_int_eq_self) simp_all

lemma bitmap_create:
  "bitmap_spec B \<Longrightarrow> bm_create B n = Some b \<Longrightarrow> n \<le> bm_len B b \<and> (\<forall>i < n. bm_test B b i)"
  by (simp add: bitmap_spec_def)

lemma bitmap_write:
  assumes "bitmap_spec B" "j < bm_len B b"
  shows "bm_len B (bm_set B b j) = bm_len B b" "bm_len B (bm_clr B b j) = bm_len B b"
    "i < bm_len B b \<Longrightarrow> bm_test B (bm_set B b j) i = (i = j \<or> bm_test B b i)"
    "i < bm_len B b \<Longrightarrow> bm_test B (bm_clr B b j) i = (i \<noteq> j \<and> bm_test B b i)"
  using assms by (simp_all add: bitmap_spec_def)

lemma bitmap_find_spec:
  "bitmap_spec B \<Longrightarrow> find_spec (bm_len B b) (bm_test B b) n p (bm_find_first B b n p)"
  by (simp add: bitmap_spec_def)

lemma bitmap_find_fault:
  assumes "bitmap_spec B"
  shows "(bm_find_first B b n p = Inl f) =
    (f = Out_Of_Bounds \<and> bm_len B b < n \<and> p < n \<and>
     (\<forall>i. p \<le> i \<longrightarrow> i < bm_len B b \<longrightarrow> \<not> bm_test B b i))"
  using bitmap_find_spec [OF assms, of b n p]
  by (cases "bm_find_first B b n p") (auto simp: find_spec_def)

lemma bitmap_find:
  assumes "bitmap_spec B" "bm_find_first B b n p = Inr r"
  shows "r = - 1 \<Longrightarrow> p \<le> i \<Longrightarrow> i < n \<Longrightarrow> i < bm_len B b \<Longrightarrow> \<not> bm_test B b i"
    "r \<noteq> - 1 \<Longrightarrow> int p \<le> r"
    "r \<noteq> - 1 \<Longrightarrow> p \<le> i \<Longrightarrow> i < n \<Longrightarrow> i < bm_len B b \<Longrightarrow> int i < r \<Longrightarrow> \<not> bm_test B b i"
    "r \<noteq> - 1 \<Longrightarrow> r < int n \<Longrightarrow> bm_test B b (nat r) \<and> nat r < bm_len B b"
  using bitmap_find_spec [OF assms(1), of b n p]
  by (simp_all add: find_spec_def assms(2))

text \<open>A search that meets a set bit stops there, however long the array is.\<close>

lemma bitmap_find_first:
  assumes B: "bitmap_spec B" and j: "p \<le> j" "j < n" "j < bm_len B b" "bm_test B b j"
    and first: "\<forall>i. p \<le> i \<longrightarrow> i < j \<longrightarrow> \<not> bm_test B b i"
  shows "bm_find_first B b n p = Inr (int j)"
proof (cases "bm_find_first B b n p")
  case (Inl f)
  then show ?thesis using j bitmap_find_fault [OF B] by blast
next
  case (Inr r)
  note f = bitmap_find [OF B Inr]
  have r: "r \<noteq> - 1" "int p \<le> r" using f(1) [of j] f(2) j by auto
  have "r \<le> int j" using f(3) [OF r(1) j(1,2,3)] j(4) by linarith
  moreover have "\<not> r < int j"
  proof
    assume lt: "r < int j"
    then have "bm_test B b (nat r)" "p \<le> nat r" "nat r < j" using f(4) r j(2) by auto
    then show False using first by blast
  qed
  ultimately show ?thesis using Inr by simp
qed

lemma try_alloc_total:
  assumes "bitmap_spec B" "id_inv B g" "id_bitmap g = Some b"
  obtains r where "try_alloc B b g = Inr r"
proof (cases "bm_find_first B b (max_ids g) (pos g)")
  case (Inl f)
  then show ?thesis using assms bitmap_find_fault [OF assms(1)] by (auto simp: id_inv_def)
next
  case (Inr r)
  then show ?thesis using that by (simp add: try_alloc_def)
qed

lemma try_alloc_Some:
  assumes "bitmap_spec B" "id_inv B g" "id_bitmap g = Some b" "try_alloc B b g = Inr (Some (i, g'))"
  shows "id_inv B g'" "max_ids g' = max_ids g" "pos g \<le> i" "i \<in> free_ids B g"
    "free_ids B g' = free_ids B g - {i}"
proof -
  have len: "max_ids g \<le> bm_len B b" and small: "max_ids g < 2 ^ 31"
    using assms(2,3) by (auto simp: id_inv_def)
  obtain f where find: "bm_find_first B b (max_ids g) (pos g) = Inr f"
    and f: "f \<noteq> - 1" "f < int (max_ids g)" "i = nat f"
      "g' = g\<lparr>id_bitmap := Some (bm_clr B b i), pos := i + 1\<rparr>"
    using assms(4)
    by (auto simp: try_alloc_def int_cast_small [OF small] split: if_splits sum.splits)
  have "int (pos g) \<le> f" "bm_test B b (nat f)"
    using bitmap_find(2,4) [OF assms(1) find] f by auto
  then show "pos g \<le> i" "i \<in> free_ids B g"
    using f by (auto simp: free_ids_def assms(3) nat_less_iff)
  then have i: "i < bm_len B b" using len by (auto simp: free_ids_def assms(3))
  show "id_inv B g'" "max_ids g' = max_ids g"
    using assms(2,3) len f(4) by (auto simp: id_inv_def bitmap_write [OF assms(1) i])
  show "free_ids B g' = free_ids B g - {i}"
    using len f(4) by (auto simp: free_ids_def assms(3) bitmap_write [OF assms(1) i])
qed

lemma try_alloc_None:
  assumes "bitmap_spec B" "id_inv B g" "id_bitmap g = Some b" "try_alloc B b g = Inr None"
  shows "free_ids B g \<subseteq> {..<pos g}"
proof
  fix i assume i: "i \<in> free_ids B g"
  have len: "max_ids g \<le> bm_len B b" and small: "max_ids g < 2 ^ 31"
    using assms(2,3) by (auto simp: id_inv_def)
  obtain f where find: "bm_find_first B b (max_ids g) (pos g) = Inr f"
    and "f = - 1 \<or> int (max_ids g) \<le> f"
    using assms(4)
    by (auto simp: try_alloc_def int_cast_small [OF small] split: if_splits sum.splits)
  then show "i \<in> {..<pos g}"
    using i len bitmap_find(1,3) [OF assms(1) find, of i]
    by (force simp: free_ids_def assms(3))
qed

lemma alloc_id_cases:
  assumes "bitmap_spec B" "id_inv B g"
  obtains (got) i g' where "alloc_id B g = Inr (Inr i, g')" "id_inv B g'" "max_ids g' = max_ids g"
      "1 \<le> i" "i \<in> free_ids B g" "free_ids B g' = free_ids B g - {i}"
    | (full) g' where "alloc_id B g = Inr (Inl NAS_BASE_E_FULL, g')" "id_inv B g'"
      "max_ids g' = max_ids g" "free_ids B g \<subseteq> {0}" "free_ids B g' = free_ids B g"
proof -
  obtain b where b: "id_bitmap g = Some b" using assms(2) by (auto simp: id_inv_def)
  let ?g1 = "g\<lparr>pos := 1\<rparr>"
  have i1: "id_inv B ?g1" "id_bitmap ?g1 = Some b" "free_ids B ?g1 = free_ids B g"
    using assms(2) b by (auto simp: id_inv_def free_ids_def)
  have one: "1 \<le> pos g" using assms(2) by (simp add: id_inv_def)
  obtain r1 where r1: "try_alloc B b g = Inr r1" using try_alloc_total [OF assms b] .
  obtain r2 where r2: "try_alloc B b ?g1 = Inr r2" using try_alloc_total [OF assms(1) i1(1,2)] .
  consider (first) i g' where "pos g < max_ids g" "r1 = Some (i, g')"
    | (second) i g' where "pos g < max_ids g \<longrightarrow> r1 = None" "r2 = Some (i, g')"
    | (none) "pos g < max_ids g \<longrightarrow> r1 = None" "r2 = None"
    by (cases r1; cases r2) auto
  then show ?thesis
  proof cases
    case first
    then show ?thesis
      using try_alloc_Some [OF assms b, of "fst (the r1)" "snd (the r1)"] r1 one b
      by (intro got) (auto simp: alloc_id_def)
  next
    case second
    then show ?thesis
      using try_alloc_Some [OF assms(1) i1(1,2), of "fst (the r2)" "snd (the r2)"] r1 r2 b i1(3)
      by (intro got) (auto simp: alloc_id_def Let_def)
  next
    case none
    then show ?thesis
      using try_alloc_None [OF assms(1) i1(1,2)] r1 r2 b i1
      by (intro full [of ?g1]) (auto simp: alloc_id_def Let_def)
  qed
qed

lemma reserve_id_eq:
  assumes "bitmap_spec B" "id_inv B g"
  shows "\<exists>g'. reserve_id B i g = Inr (i \<in> free_ids B g, g') \<and> id_inv B g' \<and>
    max_ids g' = max_ids g \<and> free_ids B g' = free_ids B g - {i}"
proof -
  obtain b where b: "id_bitmap g = Some b" and len: "max_ids g \<le> bm_len B b"
    using assms(2) by (auto simp: id_inv_def)
  show ?thesis
  proof (cases "i < max_ids g \<and> bm_test B b i")
    case True
    then have "i < bm_len B b" using len by simp
    then show ?thesis
      using True assms(2) b len bitmap_write [OF assms(1), of i b]
      by (auto simp: reserve_id_def id_inv_def free_ids_def)
  next
    case False
    then show ?thesis using assms(2) b len by (auto simp: reserve_id_def id_inv_def free_ids_def)
  qed
qed

lemma release_id_eq:
  assumes "bitmap_spec B" "id_inv B g"
  shows "\<exists>g'. release_id B i g = Inr g' \<and> id_inv B g' \<and> max_ids g' = max_ids g \<and>
    free_ids B g' = free_ids B g \<union> ({i} \<inter> {..<max_ids g})"
proof -
  obtain b where b: "id_bitmap g = Some b" and len: "max_ids g \<le> bm_len B b"
    using assms(2) by (auto simp: id_inv_def)
  then have "i < max_ids g \<Longrightarrow> i < bm_len B b" by simp
  then show ?thesis
    using assms(2) b len bitmap_write [OF assms(1), of i b]
    by (cases "i < max_ids g") (auto simp: release_id_def id_inv_def free_ids_def)
qed

text \<open>The generators a client can have without move assignments, with the number of identifiers
  asked for.\<close>

inductive id_reachable :: "'b bitmap_api \<Rightarrow> nat \<Rightarrow> 'b id_generator_t \<Rightarrow> bool"
  for B :: "'b bitmap_api" and n :: nat where
  new: "id_generator_new B n = Some g \<Longrightarrow> id_reachable B n g"
| alloc: "id_reachable B n g \<Longrightarrow> alloc_id B g = Inr (r, g') \<Longrightarrow> id_reachable B n g'"
| reserve: "id_reachable B n g \<Longrightarrow> reserve_id B i g = Inr (b, g') \<Longrightarrow> id_reachable B n g'"
| release: "id_reachable B n g \<Longrightarrow> release_id B i g = Inr g' \<Longrightarrow> id_reachable B n g'"
| moved: "id_reachable B n g \<Longrightarrow> id_reachable B n (fst (id_move_new g))"

lemma id_new_inv:
  assumes "bitmap_spec B" "n + 1 < 2 ^ 31" "id_generator_new B n = Some g"
  shows "id_inv B g" "max_ids g = n + 1" "free_ids B g = {..n}"
proof -
  have m: "(n + 1) mod 2 ^ 64 = n + 1" using assms(2) by simp
  show "id_inv B g" "max_ids g = n + 1" "free_ids B g = {..n}"
    using assms(2,3) bitmap_create [OF assms(1), of "n + 1"]
    by (auto simp: id_generator_new_def Let_def m id_inv_def free_ids_def split: option.splits)
qed

lemma id_reachable_inv:
  assumes "bitmap_spec B" "n + 1 < 2 ^ 31"
  shows "id_reachable B n g \<Longrightarrow> id_inv B g \<and> max_ids g = n + 1"
proof (induction rule: id_reachable.induct)
  case (new g)
  then show ?case using id_new_inv [OF assms] by simp
next
  case (alloc g r g')
  then have "id_inv B g" by simp
  with assms(1) show ?case
    by (cases rule: alloc_id_cases) (use alloc in simp_all)
next
  case (reserve g i b g')
  then show ?case using reserve_id_eq [OF assms(1), of g i] by auto
next
  case (release g i g')
  then show ?case using release_id_eq [OF assms(1), of g i] by auto
qed (simp add: id_move_new_def)

text \<open>C16: Let a generator be constructed for a number of identifiers below 2^31 - 1 and be used
  through allocations, reservations, releases and move construction, without being assigned to or
  used after it was moved from. Then the operations act on the set of free
  identifiers and never fault: an allocation takes out a free identifier from 1 to the number
  asked for and throws only when none of these is free, so no identifier in use is ever handed
  out again; a reservation succeeds exactly for a free identifier; a release frees an
  identifier in range. The bit map functions of the platform library keep their contract.\<close>

theorem id_generator_pool:
  assumes "bitmap_spec B" "n + 1 < 2 ^ 31" "id_reachable B n g"
  shows "(\<exists>r g'. alloc_id B g = Inr (r, g') \<and>
      (case r of Inr i \<Rightarrow> i \<in> {1..n} \<and> i \<in> free_ids B g \<and> free_ids B g' = free_ids B g - {i}
       | Inl e \<Rightarrow> e = NAS_BASE_E_FULL \<and> free_ids B g \<inter> {1..n} = {} \<and> free_ids B g' = free_ids B g)) \<and>
    (\<exists>g'. reserve_id B i g = Inr (i \<in> free_ids B g, g') \<and> free_ids B g' = free_ids B g - {i}) \<and>
    (\<exists>g'. release_id B i g = Inr g' \<and> free_ids B g' = free_ids B g \<union> ({i} \<inter> {..n}))"
proof -
  have i: "id_inv B g" and m: "max_ids g = n + 1" using id_reachable_inv [OF assms] by simp_all
  have sub: "free_ids B g \<subseteq> {..n}" by (auto simp: free_ids_def m split: option.splits)
  have "\<exists>r g'. alloc_id B g = Inr (r, g') \<and>
      (case r of Inr i \<Rightarrow> i \<in> {1..n} \<and> i \<in> free_ids B g \<and> free_ids B g' = free_ids B g - {i}
       | Inl e \<Rightarrow> e = NAS_BASE_E_FULL \<and> free_ids B g \<inter> {1..n} = {} \<and> free_ids B g' = free_ids B g)"
    using assms(1) i
  proof (cases rule: alloc_id_cases)
    case (got j g')
    then show ?thesis using sub by auto
  next
    case (full g')
    then have "free_ids B g \<inter> {1..n} = {}" by (auto dest: subsetD)
    with full show ?thesis by auto
  qed
  moreover have "\<exists>g'. reserve_id B k g = Inr (k \<in> free_ids B g, g') \<and>
      free_ids B g' = free_ids B g - {k}" for k
    using reserve_id_eq [OF assms(1) i, of k] by blast
  moreover have "\<exists>g'. release_id B k g = Inr g' \<and>
      free_ids B g' = free_ids B g \<union> ({k} \<inter> {..n})" for k
    using release_id_eq [OF assms(1) i, of k] by (simp add: m lessThan_Suc_atMost) blast
  ultimately show ?thesis by (intro conjI)
qed

text \<open>A bit map that meets the contract: the list of its bits.\<close>

fun find_bit :: "nat \<Rightarrow> bool list \<Rightarrow> nat \<Rightarrow> nat \<Rightarrow> fault + int" where
  "find_bit 0 b n p = Inr (- 1)"
| "find_bit (Suc k) b n p =
     (if p \<ge> n then Inr (- 1)
      else if p \<ge> length b then Inl Out_Of_Bounds
      else if b ! p then Inr (int p)
      else find_bit k b n (p + 1))"

definition list_bitmap :: "bool list bitmap_api" where
  "list_bitmap = \<lparr>bm_create = (\<lambda>n. Some (replicate n True)), bm_len = length,
     bm_test = (!), bm_set = (\<lambda>b i. b[i := True]), bm_clr = (\<lambda>b i. b[i := False]),
     bm_find_first = (\<lambda>b n p. find_bit (n - p) b n p)\<rparr>"

lemma find_bit_fault:
  "n \<le> p + k \<Longrightarrow> find_bit k b n p = Inl f \<Longrightarrow>
     f = Out_Of_Bounds \<and> length b < n \<and> p < n \<and> (p \<le> i \<longrightarrow> i < length b \<longrightarrow> \<not> b ! i)"
proof (induction k b n p rule: find_bit.induct)
  case (2 k b n p)
  then show ?case by (cases "i = p") (auto split: if_splits)
qed simp

lemma find_bit_None:
  "n \<le> p + k \<Longrightarrow> find_bit k b n p = Inr (- 1) \<Longrightarrow>
     (n \<le> p \<or> n \<le> length b) \<and> (p \<le> i \<longrightarrow> i < n \<longrightarrow> i < length b \<longrightarrow> \<not> b ! i)"
proof (induction k b n p rule: find_bit.induct)
  case (2 k b n p)
  then show ?case by (cases "i = p") (auto split: if_splits)
qed simp

lemma find_bit_Some:
  "find_bit k b n p = Inr r \<Longrightarrow> r \<noteq> - 1 \<Longrightarrow>
     int p \<le> r \<and> r < int n \<and> nat r < length b \<and> b ! nat r"
  by (induction k b n p rule: find_bit.induct) (auto split: if_splits)

lemma find_bit_first:
  "find_bit k b n p = Inr r \<Longrightarrow> r \<noteq> - 1 \<Longrightarrow> p \<le> i \<Longrightarrow> int i < r \<Longrightarrow> \<not> b ! i"
proof (induction k b n p rule: find_bit.induct)
  case (2 k b n p)
  then show ?case by (cases "i = p") (auto split: if_splits)
qed simp

lemma list_bitmap_find: "find_spec (length b) ((!) b) n p (find_bit (n - p) b n p)"
proof (cases "find_bit (n - p) b n p")
  case (Inl f)
  then show ?thesis using find_bit_fault [OF _ Inl] by (auto simp: find_spec_def)
next
  case (Inr r)
  show ?thesis
  proof (cases "r = - 1")
    case True
    then show ?thesis using Inr find_bit_None [of n p "n - p" b] by (force simp: find_spec_def)
  next
    case False
    note f = find_bit_Some [OF Inr False] find_bit_first [OF Inr False]
    have "\<exists>i \<ge> p. i < length b \<and> b ! i" using f(1) by (intro exI [of _ "nat r"]) auto
    then show ?thesis using Inr False f by (auto simp: find_spec_def)
  qed
qed

lemma list_bitmap_spec: "bitmap_spec list_bitmap"
  using list_bitmap_find by (simp add: bitmap_spec_def list_bitmap_def nth_list_update)

text \<open>Two identifiers: the first is 1, and a reserved one is not handed out.\<close>

lemma list_bitmap_new:
  "id_generator_new list_bitmap 1 = Some \<lparr>max_ids = 2, pos = 1, id_bitmap = Some [True, True]\<rparr>"
  "id_generator_new list_bitmap 2 = Some \<lparr>max_ids = 3, pos = 1, id_bitmap = Some [True, True, True]\<rparr>"
proof -
  have "replicate 2 True = [True, True]" "replicate 3 True = [True, True, True]"
    by (simp_all add: numeral_eq_Suc)
  then show "id_generator_new list_bitmap 1 = Some \<lparr>max_ids = 2, pos = 1, id_bitmap = Some [True, True]\<rparr>"
    "id_generator_new list_bitmap 2 = Some \<lparr>max_ids = 3, pos = 1, id_bitmap = Some [True, True, True]\<rparr>"
    by (simp_all add: id_generator_new_def list_bitmap_def Let_def)
qed

lemma id_generator_pool_witness:
  "\<exists>g'. alloc_id list_bitmap (the (id_generator_new list_bitmap 2)) = Inr (Inr 1, g') \<and>
    1 \<notin> free_ids list_bitmap g'"
proof -
  let ?g = "\<lparr>max_ids = 3, pos = 1, id_bitmap = Some [True, True, True]\<rparr>"
  have "find_bit 2 [True, True, True] 3 1 = Inr 1"
    unfolding numeral_2_eq_2 by simp
  then have "bm_find_first list_bitmap [True, True, True] 3 1 = Inr 1"
    by (simp add: list_bitmap_def)
  then have one: "fst (projr (alloc_id list_bitmap ?g)) = Inr 1"
    by (simp add: alloc_id_def try_alloc_def int_cast_small Let_def)
  have "\<exists>r g'. alloc_id list_bitmap ?g = Inr (r, g') \<and>
      (case r of Inr i \<Rightarrow> i \<in> {1..2} \<and> i \<in> free_ids list_bitmap ?g \<and>
         free_ids list_bitmap g' = free_ids list_bitmap ?g - {i}
       | Inl e \<Rightarrow> e = NAS_BASE_E_FULL \<and> free_ids list_bitmap ?g \<inter> {1..2} = {} \<and>
         free_ids list_bitmap g' = free_ids list_bitmap ?g)"
    by (rule id_generator_pool [OF list_bitmap_spec _ id_reachable.new [OF list_bitmap_new(2)],
          THEN conjunct1]) simp
  then obtain r g' where a: "alloc_id list_bitmap ?g = Inr (r, g')"
    and c: "case r of Inr i \<Rightarrow> i \<in> {1..2} \<and> i \<in> free_ids list_bitmap ?g \<and>
         free_ids list_bitmap g' = free_ids list_bitmap ?g - {i}
       | Inl e \<Rightarrow> e = NAS_BASE_E_FULL \<and> free_ids list_bitmap ?g \<inter> {1..2} = {} \<and>
         free_ids list_bitmap g' = free_ids list_bitmap ?g" by blast
  have "r = Inr 1" using one unfolding a by simp
  with a c show ?thesis unfolding list_bitmap_new(2) option.sel by simp
qed

text \<open>The search of \<open>alloc_id\<close> starts at the position, or at 1 when that is out of range.\<close>

lemma alloc_id_fault:
  assumes "id_bitmap g = Some b" "p = (if pos g < max_ids g then pos g else 1)"
    "bm_find_first B b (max_ids g) p = Inl e"
  shows "alloc_id B g = Inl e"
  using assms by (auto simp: alloc_id_def try_alloc_def)

lemma alloc_id_found:
  assumes "id_bitmap g = Some b" "p = (if pos g < max_ids g then pos g else 1)"
    "bm_find_first B b (max_ids g) p = Inr (int j)" "j < max_ids g" "max_ids g < 2 ^ 31"
  shows "alloc_id B g = Inr (Inr j, g\<lparr>id_bitmap := Some (bm_clr B b j), pos := j + 1\<rparr>)"
  using assms by (auto simp: alloc_id_def try_alloc_def int_cast_small split: if_splits)

text \<open>C40: A move assignment keeps the target's number of identifiers with the source's bit map. Let
  the source's bit map have fewer bits than the target has identifiers. From the position that the
  allocation starts at, which is the source's or 1 when that is out of range, the allocation runs
  behind the bit map exactly when no bit of it is set from there on; otherwise it hands out the
  first that is set and does not leave the bit map. A reservation or release of an identifier of
  the target behind the bit map is an access out of bounds; and on the moved-from generator an
  allocation, a reservation and a release in range go through the null pointer.\<close>

theorem id_move_assign_out_of_bounds:
  assumes B: "bitmap_spec B" and b: "id_bitmap src = Some b"
    and short: "bm_len B b < max_ids dst" and range: "1 < max_ids dst" "max_ids dst < 2 ^ 31"
    and p: "p = (if pos src < max_ids dst then pos src else 1)"
    and g: "id_move_assign dst src = (g, old)"
  shows "(alloc_id B g = Inl Out_Of_Bounds \<longleftrightarrow> (\<forall>i. p \<le> i \<longrightarrow> i < bm_len B b \<longrightarrow> \<not> bm_test B b i)) \<and>
    (\<forall>j. p \<le> j \<longrightarrow> j < bm_len B b \<longrightarrow> bm_test B b j \<longrightarrow>
       (\<forall>i. p \<le> i \<longrightarrow> i < j \<longrightarrow> \<not> bm_test B b i) \<longrightarrow>
       alloc_id B g = Inr (Inr j, g\<lparr>id_bitmap := Some (bm_clr B b j), pos := j + 1\<rparr>)) \<and>
    (\<forall>i. bm_len B b \<le> i \<longrightarrow> i < max_ids dst \<longrightarrow>
       reserve_id B i g = Inl Out_Of_Bounds \<and> release_id B i g = Inl Out_Of_Bounds) \<and>
    (1 < max_ids src \<longrightarrow> alloc_id B old = Inl Null_Deref) \<and>
    (\<forall>i < max_ids src. reserve_id B i old = Inl Null_Deref \<and> release_id B i old = Inl Null_Deref)"
proof -
  have gs: "id_bitmap g = Some b" "max_ids g = max_ids dst" "pos g = pos src" "old = src\<lparr>id_bitmap := None\<rparr>"
    using g b by (auto simp: id_move_assign_def)
  have pn: "p < max_ids g" "p = (if pos g < max_ids g then pos g else 1)" using p range(1) gs by simp_all
  have free: "alloc_id B g = Inr (Inr j, g\<lparr>id_bitmap := Some (bm_clr B b j), pos := j + 1\<rparr>)"
    if j: "p \<le> j" "j < bm_len B b" "bm_test B b j" "\<forall>i. p \<le> i \<longrightarrow> i < j \<longrightarrow> \<not> bm_test B b i" for j
    using j short gs range(2) bitmap_find_first [OF B, of p j "max_ids g" b]
    by (intro alloc_id_found [OF gs(1) pn(2)]) auto
  have "alloc_id B g = Inl Out_Of_Bounds" if "\<forall>i. p \<le> i \<longrightarrow> i < bm_len B b \<longrightarrow> \<not> bm_test B b i"
    using that short gs pn(1) bitmap_find_fault [OF B]
    by (intro alloc_id_fault [OF gs(1) pn(2)]) auto
  moreover have "alloc_id B g \<noteq> Inl Out_Of_Bounds" if "\<not> (\<forall>i. p \<le> i \<longrightarrow> i < bm_len B b \<longrightarrow> \<not> bm_test B b i)"
  proof -
    have "\<exists>i. p \<le> i \<and> i < bm_len B b \<and> bm_test B b i" using that by simp
    from exists_least_iff [THEN iffD1, OF this]
    obtain j where "p \<le> j \<and> j < bm_len B b \<and> bm_test B b j"
      and "\<forall>i < j. \<not> (p \<le> i \<and> i < bm_len B b \<and> bm_test B b i)" by metis
    then show ?thesis using free [of j] by simp
  qed
  ultimately have iff: "alloc_id B g = Inl Out_Of_Bounds \<longleftrightarrow>
      (\<forall>i. p \<le> i \<longrightarrow> i < bm_len B b \<longrightarrow> \<not> bm_test B b i)" by blast
  have "alloc_id B old = Inl Null_Deref" if "1 < max_ids src"
    using that by (simp add: gs alloc_id_def Let_def)
  then show ?thesis
    unfolding iff using free by (simp add: gs reserve_id_def release_id_def)
qed

text \<open>
  A source for one identifier, with two bits, assigned to a target for two: while its identifier
  is free the target hands it out, and once it is in use the target's allocation leaves the bit
  map although the target has an identifier left.
\<close>

lemma id_move_assign_out_of_bounds_witness:
  "alloc_id list_bitmap (fst (id_move_assign (the (id_generator_new list_bitmap 2))
     (the (id_generator_new list_bitmap 1)))) =
     Inr (Inr 1, \<lparr>max_ids = 3, pos = 2, id_bitmap = Some [True, False]\<rparr>) \<and>
   alloc_id list_bitmap (fst (id_move_assign (the (id_generator_new list_bitmap 2))
     \<lparr>max_ids = 2, pos = 2, id_bitmap = Some [True, False]\<rparr>)) = Inl Out_Of_Bounds"
proof -
  let ?dst = "\<lparr>max_ids = 3, pos = 1, id_bitmap = Some [True, True, True]\<rparr>"
  have a: "i < 2 \<Longrightarrow> 1 \<le> i \<Longrightarrow> i = 1" for i :: nat by linarith
  note full = id_move_assign_out_of_bounds [OF list_bitmap_spec,
      of "\<lparr>max_ids = 2, pos = 2, id_bitmap = Some [True, False]\<rparr>" "[True, False]" ?dst 2
      "\<lparr>max_ids = 3, pos = 2, id_bitmap = Some [True, False]\<rparr>"
      "\<lparr>max_ids = 2, pos = 2, id_bitmap = None\<rparr>", THEN conjunct1]
  note one = id_move_assign_out_of_bounds [OF list_bitmap_spec,
      of "\<lparr>max_ids = 2, pos = 1, id_bitmap = Some [True, True]\<rparr>" "[True, True]" ?dst 1
      "\<lparr>max_ids = 3, pos = 1, id_bitmap = Some [True, True]\<rparr>"
      "\<lparr>max_ids = 2, pos = 1, id_bitmap = None\<rparr>", THEN conjunct2, THEN conjunct1, THEN spec [of _ 1]]
  show ?thesis
    unfolding list_bitmap_new option.sel
    using full one by (auto simp: list_bitmap_def id_move_assign_def)
qed

end
