(* ===== verification/BaseObj.thy ===== *)
theory BaseObj
  imports BaseUtils
begin

text \<open>
  The base classes of all NAS objects (\<open>src/inc/opx/nas_base_obj.h\<close>, \<open>src/src/nas_base_obj.cpp\<close>)
  and the utilities that push an object to every NPU and roll back when a push fails
  (\<open>src/src/nas_base_ndi_utl.cpp\<close>). The virtual functions of a derived object are the record
  \<open>obj_ops\<close>, over a world that holds the NDI and the derived objects. Only base exceptions are
  caught by the utilities; any other exception and a failed assertion are \<open>Escaped\<close>.
\<close>

section \<open>Data\<close>

datatype push_res = Pushed | Not_Pushed | Thrown t_std_error | Escaped fault

datatype rollbk_type_t =
    ROLLBK_CREATE_OBJ | ROLLBK_DELETE_OBJ | ROLLBK_MODIFY_ATTR | ROLLBK_CREATE_ATTR | ROLLBK_DELETE_ATTR

record rollbk_elem_t =
  rlbk_type :: rollbk_type_t
  npu_id_of :: int
  attr_hierarchy :: "u64 list"

type_synonym rollback_trakr_t = "rollbk_elem_t list"

text \<open>
  The virtual functions. A function that takes the other object reads it from the world.
  \<open>alloc_fill_ndi_obj\<close> allocates, and leaves with \<open>std::bad_alloc\<close> when there is no memory; what it
  allocates is freed with the \<open>mem_alloc_helper_t\<close> of its caller.
\<close>

record ('w, 'n) obj_ops =
  alloc_fill_ndi_obj :: "'w \<Rightarrow> (fault + 'n) \<times> 'w"
  push_create_obj_to_npu :: "int \<Rightarrow> 'n \<Rightarrow> 'w \<Rightarrow> push_res \<times> 'w"
  push_delete_obj_to_npu :: "int \<Rightarrow> 'w \<Rightarrow> push_res \<times> 'w"
  is_leaf_attr :: "u64 \<Rightarrow> bool"
  push_leaf_attr_to_npu :: "u64 \<Rightarrow> int \<Rightarrow> 'w \<Rightarrow> push_res \<times> 'w"
  push_non_leaf_attr_ndi ::
    "u64 \<Rightarrow> npu_set_t \<Rightarrow> bool \<Rightarrow> 'w \<times> rollback_trakr_t \<Rightarrow> push_res \<times> ('w \<times> rollback_trakr_t)"
  rollback_non_leaf_attr_in_npu :: "u64 list \<Rightarrow> int \<Rightarrow> 'w \<Rightarrow> push_res \<times> 'w"
  rollback_create_attr_in_npu :: "u64 list \<Rightarrow> int \<Rightarrow> 'w \<Rightarrow> push_res \<times> 'w"
  rollback_delete_attr_in_npu :: "u64 list \<Rightarrow> int \<Rightarrow> 'w \<Rightarrow> push_res \<times> 'w"

text \<open>How a function ends: it returns, a base exception leaves it, or something else does.\<close>

datatype status = Done | Exc t_std_error | Escape fault

record base_switch_t =
  switch_id :: u32
  switch_npus :: npu_set_t

record base_obj_t =
  dirty_attributes :: attr_set_t
  set_attributes :: attr_set_t
  ndi_created :: bool
  obj_npus :: npu_set_t
  npu_list_dirty :: bool
  following_switch_npus :: bool

definition new_base_obj :: base_obj_t where
  "new_base_obj = \<lparr>dirty_attributes = attr_set_empty, set_attributes = attr_set_empty,
     ndi_created = False, obj_npus = [], npu_list_dirty = False, following_switch_npus = False\<rparr>"

definition switch_add_npu :: "int \<Rightarrow> base_switch_t \<Rightarrow> base_switch_t" where
  "switch_add_npu n sw = sw\<lparr>switch_npus := npu_add n (switch_npus sw)\<rparr>"

definition clear_all_dirty_flags :: "base_obj_t \<Rightarrow> base_obj_t" where
  "clear_all_dirty_flags ob =
     ob\<lparr>dirty_attributes := attr_clear (dirty_attributes ob), npu_list_dirty := False\<rparr>"

definition mark_attr_dirty :: "u64 \<Rightarrow> base_obj_t \<Rightarrow> base_obj_t" where
  "mark_attr_dirty a ob = ob\<lparr>dirty_attributes := attr_add a (dirty_attributes ob)\<rparr>"

definition is_attr_dirty :: "base_obj_t \<Rightarrow> u64 \<Rightarrow> bool" where
  "is_attr_dirty ob a = attr_contains (dirty_attributes ob) a"

definition remove_npu :: "int \<Rightarrow> base_obj_t \<Rightarrow> base_obj_t" where
  "remove_npu n ob = ob\<lparr>obj_npus := npu_del n (obj_npus ob)\<rparr>"

definition mark_ndi_created :: "base_obj_t \<Rightarrow> base_obj_t" where
  "mark_ndi_created ob = ob\<lparr>ndi_created := True\<rparr>"

definition mark_ndi_removed :: "base_obj_t \<Rightarrow> base_obj_t" where
  "mark_ndi_removed ob = ob\<lparr>ndi_created := False\<rparr>"

definition reset_npus :: "base_obj_t \<Rightarrow> base_obj_t" where
  "reset_npus ob = ob\<lparr>obj_npus := []\<rparr>"

definition set_npu_list :: "npu_set_t \<Rightarrow> base_obj_t \<Rightarrow> base_obj_t" where
  "set_npu_list npus ob = ob\<lparr>obj_npus := npus\<rparr>"

definition add_npu :: "base_switch_t \<Rightarrow> int \<Rightarrow> bool \<Rightarrow> base_obj_t \<Rightarrow> status \<times> base_obj_t" where
  "add_npu sw n reset ob =
     (if \<not> npu_contains (switch_npus sw) n then (Exc NAS_BASE_E_PARAM, ob)
      else
        (let ob1 = (if \<not> npu_list_dirty ob
                    then (if reset then ob\<lparr>obj_npus := []\<rparr> else ob)\<lparr>npu_list_dirty := True\<rparr>
                    else ob)
         in (Done, ob1\<lparr>following_switch_npus := False, obj_npus := npu_add n (obj_npus ob1)\<rparr>)))"

section \<open>Pushing to the NPUs\<close>

text \<open>
  The loops over the NPUs. While rolling back, an exception is logged and the loop goes on, and
  nothing is tracked.
\<close>

fun create_npus ::
  "('w, 'n) obj_ops \<Rightarrow> 'n \<Rightarrow> bool \<Rightarrow> npu_set_t \<Rightarrow> 'w \<times> rollback_trakr_t \<Rightarrow> status \<times> ('w \<times> rollback_trakr_t)" where
  "create_npus ops nd rolling [] s = (Done, s)"
| "create_npus ops nd rolling (n # ns) (w, tr) =
     (case push_create_obj_to_npu ops n nd w of
        (Escaped f, w') \<Rightarrow> (Escape f, (w', tr))
      | (Not_Pushed, w') \<Rightarrow> create_npus ops nd rolling ns (w', tr)
      | (Thrown e, w') \<Rightarrow>
          if rolling then create_npus ops nd rolling ns (w', tr) else (Exc e, (w', tr))
      | (Pushed, w') \<Rightarrow>
          create_npus ops nd rolling ns
            (w', if rolling then tr
                 else tr @ [\<lparr>rlbk_type = ROLLBK_CREATE_OBJ, npu_id_of = n, attr_hierarchy = []\<rparr>]))"

text \<open>The NDI object is allocated and filled before the loop, also for an empty list.\<close>

definition create_obj_npulist_ndi ::
  "('w, 'n) obj_ops \<Rightarrow> bool \<Rightarrow> npu_set_t \<Rightarrow> 'w \<times> rollback_trakr_t \<Rightarrow> status \<times> ('w \<times> rollback_trakr_t)" where
  "create_obj_npulist_ndi ops rolling ns s =
     (case s of (w, tr) \<Rightarrow>
       (case alloc_fill_ndi_obj ops w of
          (Inl f, w') \<Rightarrow> (Escape f, (w', tr))
        | (Inr nd, w') \<Rightarrow> create_npus ops nd rolling ns (w', tr)))"

fun delete_obj_npulist_ndi ::
  "('w, 'n) obj_ops \<Rightarrow> bool \<Rightarrow> npu_set_t \<Rightarrow> 'w \<times> rollback_trakr_t \<Rightarrow> status \<times> ('w \<times> rollback_trakr_t)" where
  "delete_obj_npulist_ndi ops rolling [] s = (Done, s)"
| "delete_obj_npulist_ndi ops rolling (n # ns) (w, tr) =
     (case push_delete_obj_to_npu ops n w of
        (Escaped f, w') \<Rightarrow> (Escape f, (w', tr))
      | (Not_Pushed, w') \<Rightarrow> delete_obj_npulist_ndi ops rolling ns (w', tr)
      | (Thrown e, w') \<Rightarrow>
          if rolling then delete_obj_npulist_ndi ops rolling ns (w', tr) else (Exc e, (w', tr))
      | (Pushed, w') \<Rightarrow>
          delete_obj_npulist_ndi ops rolling ns
            (w', if rolling then tr
                 else tr @ [\<lparr>rlbk_type = ROLLBK_DELETE_OBJ, npu_id_of = n, attr_hierarchy = []\<rparr>]))"

fun push_leaf_npulist ::
  "('w, 'n) obj_ops \<Rightarrow> bool \<Rightarrow> u64 \<Rightarrow> npu_set_t \<Rightarrow> 'w \<times> rollback_trakr_t \<Rightarrow> status \<times> ('w \<times> rollback_trakr_t)" where
  "push_leaf_npulist ops rolling a [] s = (Done, s)"
| "push_leaf_npulist ops rolling a (n # ns) (w, tr) =
     (case push_leaf_attr_to_npu ops a n w of
        (Escaped f, w') \<Rightarrow> (Escape f, (w', tr))
      | (Not_Pushed, w') \<Rightarrow> push_leaf_npulist ops rolling a ns (w', tr)
      | (Thrown e, w') \<Rightarrow>
          if rolling then push_leaf_npulist ops rolling a ns (w', tr) else (Exc e, (w', tr))
      | (Pushed, w') \<Rightarrow>
          push_leaf_npulist ops rolling a ns
            (w', if rolling then tr
                 else tr @ [\<lparr>rlbk_type = ROLLBK_MODIFY_ATTR, npu_id_of = n, attr_hierarchy = [a]\<rparr>]))"

fun modify_obj_npulist_ndi ::
  "('w, 'n) obj_ops \<Rightarrow> bool \<Rightarrow> u64 list \<Rightarrow> npu_set_t \<Rightarrow> 'w \<times> rollback_trakr_t
     \<Rightarrow> status \<times> ('w \<times> rollback_trakr_t)" where
  "modify_obj_npulist_ndi ops rolling [] ns s = (Done, s)"
| "modify_obj_npulist_ndi ops rolling (a # as) ns s =
     (case (if is_leaf_attr ops a then push_leaf_npulist ops rolling a ns s
            else (case push_non_leaf_attr_ndi ops a ns rolling s of
                    (Thrown e, s') \<Rightarrow> (Exc e, s')
                  | (Escaped f, s') \<Rightarrow> (Escape f, s')
                  | (_, s') \<Rightarrow> (Done, s'))) of
        (Done, s') \<Rightarrow> modify_obj_npulist_ndi ops rolling as ns s'
      | (st, s') \<Rightarrow> (st, s'))"

section \<open>Rolling back\<close>

text \<open>The three helpers log a base exception and return.\<close>

definition logged :: "push_res \<times> 'w \<Rightarrow> status \<times> 'w" where
  "logged r = (case r of (Escaped f, w) \<Rightarrow> (Escape f, w) | (_, w) \<Rightarrow> (Done, w))"

definition rollback_create_obj_in_npu :: "('w, 'n) obj_ops \<Rightarrow> int \<Rightarrow> 'w \<Rightarrow> status \<times> 'w" where
  "rollback_create_obj_in_npu new n w = logged (push_delete_obj_to_npu new n w)"

definition rollback_delete_obj_in_npu :: "('w, 'n) obj_ops \<Rightarrow> int \<Rightarrow> 'n \<Rightarrow> 'w \<Rightarrow> status \<times> 'w" where
  "rollback_delete_obj_in_npu old n nd w = logged (push_create_obj_to_npu old n nd w)"

definition rollback_modify_attr_in_npu :: "('w, 'n) obj_ops \<Rightarrow> u64 \<Rightarrow> int \<Rightarrow> 'w \<Rightarrow> status \<times> 'w" where
  "rollback_modify_attr_in_npu old a n w = logged (push_leaf_attr_to_npu old a n w)"

text \<open>The handlers of the virtual functions, whose exceptions are not caught.\<close>

definition unlogged :: "push_res \<times> 'w \<Rightarrow> status \<times> 'w" where
  "unlogged r =
     (case r of (Escaped f, w) \<Rightarrow> (Escape f, w) | (Thrown e, w) \<Rightarrow> (Exc e, w) | (_, w) \<Rightarrow> (Done, w))"

text \<open>The loops run over the tracker from its end, so they take it reversed.\<close>

fun rollback_create_obj_ndi :: "('w, 'n) obj_ops \<Rightarrow> rollback_trakr_t \<Rightarrow> 'w \<Rightarrow> status \<times> 'w" where
  "rollback_create_obj_ndi new [] w = (Done, w)"
| "rollback_create_obj_ndi new (e # es) w =
     (if rlbk_type e \<noteq> ROLLBK_CREATE_OBJ then (Escape Assert_Fail, w)
      else case rollback_create_obj_in_npu new (npu_id_of e) w of
             (Done, w') \<Rightarrow> rollback_create_obj_ndi new es w'
           | (st, w') \<Rightarrow> (st, w'))"

fun rollback_delete_npus :: "('w, 'n) obj_ops \<Rightarrow> 'n \<Rightarrow> rollback_trakr_t \<Rightarrow> 'w \<Rightarrow> status \<times> 'w" where
  "rollback_delete_npus old nd [] w = (Done, w)"
| "rollback_delete_npus old nd (e # es) w =
     (if rlbk_type e \<noteq> ROLLBK_DELETE_OBJ then (Escape Assert_Fail, w)
      else case rollback_delete_obj_in_npu old (npu_id_of e) nd w of
             (Done, w') \<Rightarrow> rollback_delete_npus old nd es w'
           | (st, w') \<Rightarrow> (st, w'))"

text \<open>A \<open>bad_alloc\<close> here leaves the handler, and nothing is undone.\<close>

definition rollback_delete_obj_ndi :: "('w, 'n) obj_ops \<Rightarrow> rollback_trakr_t \<Rightarrow> 'w \<Rightarrow> status \<times> 'w" where
  "rollback_delete_obj_ndi old es w =
     (case alloc_fill_ndi_obj old w of
        (Inl f, w') \<Rightarrow> (Escape f, w')
      | (Inr nd, w') \<Rightarrow> rollback_delete_npus old nd es w')"

text \<open>\<open>if (!ndi_obj) ndi_obj = obj_old.alloc_fill_ndi_obj (mem_trakr)\<close>, in the case of a deletion.\<close>

definition rollback_obj ::
  "('w, 'n) obj_ops \<Rightarrow> 'n option \<Rightarrow> rollbk_elem_t \<Rightarrow> 'w \<Rightarrow> (fault + 'n option) \<times> 'w" where
  "rollback_obj old nd e w =
     (if rlbk_type e = ROLLBK_DELETE_OBJ \<and> nd = None
      then (case alloc_fill_ndi_obj old w of (Inl f, w') \<Rightarrow> (Inl f, w') | (Inr x, w') \<Rightarrow> (Inr (Some x), w'))
      else (Inr nd, w))"

definition rollback_elem ::
  "('w, 'n) obj_ops \<Rightarrow> ('w, 'n) obj_ops \<Rightarrow> 'n option \<Rightarrow> rollbk_elem_t \<Rightarrow> 'w \<Rightarrow> status \<times> 'w" where
  "rollback_elem old new nd e w =
     (case rlbk_type e of
        ROLLBK_CREATE_OBJ \<Rightarrow> rollback_create_obj_in_npu new (npu_id_of e) w
      | ROLLBK_DELETE_OBJ \<Rightarrow> rollback_delete_obj_in_npu old (npu_id_of e) (the nd) w
      | ROLLBK_MODIFY_ATTR \<Rightarrow>
          (if length (attr_hierarchy e) = 1
           then rollback_modify_attr_in_npu old (hd (attr_hierarchy e)) (npu_id_of e) w
           else unlogged (rollback_non_leaf_attr_in_npu old (attr_hierarchy e) (npu_id_of e) w))
      | ROLLBK_CREATE_ATTR \<Rightarrow>
          unlogged (rollback_create_attr_in_npu new (attr_hierarchy e) (npu_id_of e) w)
      | ROLLBK_DELETE_ATTR \<Rightarrow>
          unlogged (rollback_delete_attr_in_npu old (attr_hierarchy e) (npu_id_of e) w))"

fun rollback_modify_loop ::
  "('w, 'n) obj_ops \<Rightarrow> ('w, 'n) obj_ops \<Rightarrow> 'n option \<Rightarrow> rollback_trakr_t \<Rightarrow> 'w \<Rightarrow> status \<times> 'w" where
  "rollback_modify_loop old new nd [] w = (Done, w)"
| "rollback_modify_loop old new nd (e # es) w =
     (case rollback_obj old nd e w of
        (Inl f, w1) \<Rightarrow> (Escape f, w1)
      | (Inr nd', w1) \<Rightarrow>
        (case rollback_elem old new nd' e w1 of
           (Done, w') \<Rightarrow> rollback_modify_loop old new nd' es w'
         | (st, w') \<Rightarrow> (st, w')))"

definition rollback_modify_obj_ndi ::
  "('w, 'n) obj_ops \<Rightarrow> ('w, 'n) obj_ops \<Rightarrow> rollback_trakr_t \<Rightarrow> 'w \<Rightarrow> status \<times> 'w" where
  "rollback_modify_obj_ndi old new = rollback_modify_loop old new None"

text \<open>\<open>catch (base_exception&) { rollback; throw; }\<close>.\<close>

definition catch_rollback ::
  "(rollback_trakr_t \<Rightarrow> 'w \<Rightarrow> status \<times> 'w) \<Rightarrow> status \<times> ('w \<times> rollback_trakr_t) \<Rightarrow> status \<times> 'w" where
  "catch_rollback rb r =
     (case r of
        (Done, (w, tr)) \<Rightarrow> (Done, w)
      | (Escape f, (w, tr)) \<Rightarrow> (Escape f, w)
      | (Exc e, (w, tr)) \<Rightarrow>
          (case rb (rev tr) w of (Done, w') \<Rightarrow> (Exc e, w') | (st, w') \<Rightarrow> (st, w')))"

text \<open>The caller marks the object as created when the status is \<open>Done\<close>.\<close>

definition base_create_obj_ndi :: "('w, 'n) obj_ops \<Rightarrow> npu_set_t \<Rightarrow> bool \<Rightarrow> 'w \<Rightarrow> status \<times> 'w" where
  "base_create_obj_ndi new npus rolling w =
     catch_rollback (rollback_create_obj_ndi new) (create_obj_npulist_ndi new rolling npus (w, []))"

definition base_delete_obj_ndi :: "('w, 'n) obj_ops \<Rightarrow> npu_set_t \<Rightarrow> bool \<Rightarrow> 'w \<Rightarrow> status \<times> 'w" where
  "base_delete_obj_ndi old npus rolling w =
     catch_rollback (rollback_delete_obj_ndi old) (delete_obj_npulist_ndi old rolling npus (w, []))"

definition seq :: "status \<times> 's \<Rightarrow> ('s \<Rightarrow> status \<times> 's) \<Rightarrow> status \<times> 's" where
  "seq r k = (case r of (Done, s) \<Rightarrow> k s | (st, s) \<Rightarrow> (st, s))"

text \<open>The body of the \<open>try\<close> block: the NPUs that are new, those that go, those that stay.\<close>

definition modify_forward ::
  "('w, 'n) obj_ops \<Rightarrow> ('w, 'n) obj_ops \<Rightarrow> u64 list \<Rightarrow> npu_set_t \<Rightarrow> npu_set_t \<Rightarrow> bool \<Rightarrow> 'w
     \<Rightarrow> status \<times> ('w \<times> rollback_trakr_t)" where
  "modify_forward new old dirty new_npus old_npus rolling w =
     (case npu_compare new_npus old_npus ([], [], []) of (added, deleted, unchanged) \<Rightarrow>
        seq (seq (create_obj_npulist_ndi new rolling added (w, []))
               (delete_obj_npulist_ndi old rolling deleted))
           (modify_obj_npulist_ndi new rolling dirty unchanged))"

definition base_modify_obj_ndi ::
  "('w, 'n) obj_ops \<Rightarrow> ('w, 'n) obj_ops \<Rightarrow> u64 list \<Rightarrow> npu_set_t \<Rightarrow> npu_set_t \<Rightarrow> bool \<Rightarrow> 'w \<Rightarrow> status \<times> 'w" where
  "base_modify_obj_ndi new old dirty new_npus old_npus rolling w =
     catch_rollback (rollback_modify_obj_ndi old new)
       (modify_forward new old dirty new_npus old_npus rolling w)"

section \<open>Commits\<close>

definition default_npus :: "base_switch_t \<Rightarrow> base_obj_t \<Rightarrow> base_obj_t" where
  "default_npus sw ob =
     (if obj_npus ob = [] then ob\<lparr>following_switch_npus := True, obj_npus := switch_npus sw\<rparr> else ob)"

definition commit_create ::
  "base_switch_t \<Rightarrow> ('w, 'n) obj_ops \<Rightarrow> bool \<Rightarrow> base_obj_t \<times> 'w \<Rightarrow> status \<times> (base_obj_t \<times> 'w)" where
  "commit_create sw ops rolling s =
     (case s of (ob, w) \<Rightarrow>
       (if ndi_created ob then (Exc NAS_BASE_E_PARAM, s)
        else
          (let ob1 = default_npus sw (ob\<lparr>set_attributes := dirty_attributes ob\<rparr>)
           in case base_create_obj_ndi ops (obj_npus ob1) rolling w of
                (Done, w') \<Rightarrow> (Done, (clear_all_dirty_flags (mark_ndi_created ob1), w'))
              | (st, w') \<Rightarrow> (st, (ob1, w')))))"

text \<open>The last component of the result is the set of modified attributes that is returned.\<close>

definition commit_modify ::
  "base_switch_t \<Rightarrow> ('w, 'n) obj_ops \<Rightarrow> ('w, 'n) obj_ops \<Rightarrow> base_obj_t \<Rightarrow> bool \<Rightarrow> base_obj_t \<times> 'w
     \<Rightarrow> status \<times> (base_obj_t \<times> 'w) \<times> attr_set_t option" where
  "commit_modify sw new old obj_old rolling s =
     (case s of (ob, w) \<Rightarrow>
       (if \<not> ndi_created ob then (Exc NAS_BASE_E_PARAM, s, None)
        else
          (let ob1 = default_npus sw
                 (ob\<lparr>set_attributes := attr_plus (set_attributes ob) (dirty_attributes ob)\<rparr>)
           in case base_modify_obj_ndi new old (attributes (dirty_attributes ob1)) (obj_npus ob1)
                     (obj_npus obj_old) rolling w of
                (Done, w') \<Rightarrow> (Done, (clear_all_dirty_flags ob1, w'), Some (dirty_attributes ob1))
              | (st, w') \<Rightarrow> (st, (ob1, w'), None))))"

definition commit_delete ::
  "('w, 'n) obj_ops \<Rightarrow> bool \<Rightarrow> base_obj_t \<times> 'w \<Rightarrow> status \<times> (base_obj_t \<times> 'w)" where
  "commit_delete ops rolling s =
     (case s of (ob, w) \<Rightarrow>
       (if \<not> ndi_created ob then (Exc NAS_BASE_E_PARAM, s)
        else
          (case base_delete_obj_ndi ops (obj_npus ob) rolling w of
             (Done, w') \<Rightarrow> (Done, (clear_all_dirty_flags ob, w'))
           | (st, w') \<Rightarrow> (st, (ob, w')))))"

end
