(* ===== verification/NdiContract.thy ===== *)
theory NdiContract
  imports BaseObj
begin

text \<open>
  What a derived object and its NDI promise to the base classes, as a locale, and what the base
  classes then guarantee: a commit that throws a base exception leaves the NPUs as they were, except
  for those on which a push of the rollback failed too. The contract is about the new and the old
  version of an object, which share the world. A rollback that cannot fail is an extension of it.
\<close>

datatype role = New | Old

section \<open>The rollback as a sequence of pushes\<close>

text \<open>The push that undoes a tracked element, and the NPUs on which it has no success.\<close>

definition rollback_push ::
  "('w, 'n) obj_ops \<Rightarrow> ('w, 'n) obj_ops \<Rightarrow> 'n option \<Rightarrow> rollbk_elem_t \<Rightarrow> 'w \<Rightarrow> push_res \<times> 'w" where
  "rollback_push old new nd e w =
     (case rlbk_type e of
        ROLLBK_CREATE_OBJ \<Rightarrow> push_delete_obj_to_npu new (npu_id_of e) w
      | ROLLBK_DELETE_OBJ \<Rightarrow> push_create_obj_to_npu old (npu_id_of e) (the nd) w
      | ROLLBK_MODIFY_ATTR \<Rightarrow>
          (if length (attr_hierarchy e) = 1
           then push_leaf_attr_to_npu old (hd (attr_hierarchy e)) (npu_id_of e) w
           else rollback_non_leaf_attr_in_npu old (attr_hierarchy e) (npu_id_of e) w)
      | ROLLBK_CREATE_ATTR \<Rightarrow> rollback_create_attr_in_npu new (attr_hierarchy e) (npu_id_of e) w
      | ROLLBK_DELETE_ATTR \<Rightarrow> rollback_delete_attr_in_npu old (attr_hierarchy e) (npu_id_of e) w)"

fun undo_failures ::
  "('w, 'n) obj_ops \<Rightarrow> ('w, 'n) obj_ops \<Rightarrow> 'n option \<Rightarrow> rollback_trakr_t \<Rightarrow> 'w \<Rightarrow> int list" where
  "undo_failures old new nd [] w = []"
| "undo_failures old new nd (e # es) w =
     (case rollback_obj old nd e w of
        (Inl f, w1) \<Rightarrow> []
      | (Inr nd', w1) \<Rightarrow>
        (case rollback_push old new nd' e w1 of (r, w') \<Rightarrow>
           (if r = Pushed then [] else [npu_id_of e]) @ undo_failures old new nd' es w'))"

text \<open>The NPUs that a failed \<open>try\<close> block leaves changed because undoing them failed.\<close>

definition unrestored ::
  "('w, 'n) obj_ops \<Rightarrow> ('w, 'n) obj_ops \<Rightarrow> status \<times> ('w \<times> rollback_trakr_t) \<Rightarrow> int list" where
  "unrestored old new r =
     (case r of (Exc e, (w, tr)) \<Rightarrow> undo_failures old new None (rev tr) w | _ \<Rightarrow> [])"

section \<open>The contract\<close>

text \<open>
  What every push keeps: the world stays well-formed, an object never forgets an NPU it can
  address, memory does not run out, and nothing but base exceptions is thrown. \<open>sure\<close> is any fact
  about a tracked element that its push establishes and no other push destroys; the contract draws no
  conclusion from it, so \<open>\<lambda>_ _. True\<close> is always one. It says what can be undone in the
  extension below.
\<close>

definition grows ::
  "(role \<Rightarrow> 'w \<Rightarrow> int \<Rightarrow> bool) \<Rightarrow> ('w \<Rightarrow> rollbk_elem_t \<Rightarrow> bool) \<Rightarrow> ('w \<Rightarrow> bool) \<Rightarrow> 'w \<Rightarrow> 'w \<Rightarrow> bool" where
  "grows owned sure mem w w' \<longleftrightarrow> (\<forall>y k. owned y w k \<longrightarrow> owned y w' k) \<and>
     (\<forall>e. sure w e \<longrightarrow> sure w' e) \<and> (mem w \<longrightarrow> mem w')"

definition sound ::
  "(role \<Rightarrow> 'w \<Rightarrow> int \<Rightarrow> bool) \<Rightarrow> ('w \<Rightarrow> rollbk_elem_t \<Rightarrow> bool) \<Rightarrow> ('w \<Rightarrow> bool) \<Rightarrow> ('w \<Rightarrow> bool) \<Rightarrow>
     'w \<Rightarrow> push_res \<Rightarrow> 'w \<Rightarrow> bool" where
  "sound owned sure wfw mem w r w' \<longleftrightarrow> wfw w' \<and> grows owned sure mem w w' \<and> (\<forall>f. r \<noteq> Escaped f)"

definition tracked :: "rollbk_type_t \<Rightarrow> int \<Rightarrow> u64 list \<Rightarrow> rollbk_elem_t" where
  "tracked k n h = \<lparr>rlbk_type = k, npu_id_of = n, attr_hierarchy = h\<rparr>"

lemmas tracked_fold = tracked_def [symmetric]

lemma tracked_simps [simp]:
  "rlbk_type (tracked k n h) = k" "npu_id_of (tracked k n h) = n" "attr_hierarchy (tracked k n h) = h"
  by (simp_all add: tracked_def)

locale ndi =
  fixes ops :: "role \<Rightarrow> ('w, 'n) obj_ops"
    and view :: "'w \<Rightarrow> int \<Rightarrow> (u64 \<Rightarrow> 'v) option"
    and vals :: "role \<Rightarrow> u64 \<Rightarrow> 'v"
    and filled :: "role \<Rightarrow> 'n \<Rightarrow> bool"
    and owned :: "role \<Rightarrow> 'w \<Rightarrow> int \<Rightarrow> bool"
    and sure :: "'w \<Rightarrow> rollbk_elem_t \<Rightarrow> bool"
    and wfw :: "'w \<Rightarrow> bool"
    and mem :: "'w \<Rightarrow> bool"
    and npu_ok :: "int \<Rightarrow> bool"
    and attr_ok :: "u64 \<Rightarrow> bool"
  assumes alloc_law:
      "wfw w \<Longrightarrow> alloc_fill_ndi_obj (ops x) w = (al, w') \<Longrightarrow>
         wfw w' \<and> grows owned sure mem w w' \<and> view w' = view w \<and>
         (case al of Inl f \<Rightarrow> \<not> mem w | Inr nd \<Rightarrow> filled x nd)"
    and create_law:
      "wfw w \<Longrightarrow> npu_ok n \<Longrightarrow> filled x nd \<Longrightarrow> push_create_obj_to_npu (ops x) n nd w = (r, w') \<Longrightarrow>
         sound owned sure wfw mem w r w' \<and> (r = Pushed \<longrightarrow> owned x w' n \<and> sure w' (tracked ROLLBK_CREATE_OBJ n [])) \<and>
         view w' = (if r = Pushed then (view w)(n \<mapsto> vals x) else view w)"
    and delete_law:
      "wfw w \<Longrightarrow> npu_ok n \<Longrightarrow> owned x w n \<Longrightarrow> push_delete_obj_to_npu (ops x) n w = (r, w') \<Longrightarrow>
         sound owned sure wfw mem w r w' \<and> (r = Pushed \<longrightarrow> sure w' (tracked ROLLBK_DELETE_OBJ n [])) \<and>
         view w' = (if r = Pushed then (view w)(n := None) else view w)"
    and leaf_law:
      "wfw w \<Longrightarrow> npu_ok n \<Longrightarrow> attr_ok a \<Longrightarrow> owned x w n \<Longrightarrow>
         push_leaf_attr_to_npu (ops x) a n w = (r, w') \<Longrightarrow>
         sound owned sure wfw mem w r w' \<and> (r = Pushed \<longrightarrow> sure w' (tracked ROLLBK_MODIFY_ATTR n [a])) \<and>
         view w' = (if r = Pushed
                    then (view w)(n := map_option (\<lambda>v. v(a := vals x a)) (view w n)) else view w)"
begin

text \<open>
  The effect of a tracked push on the NPUs, with what rolling it back needs. A trail, newest
  element first, leads from one view to another.
\<close>

definition eff :: "'w \<Rightarrow> rollbk_elem_t \<Rightarrow> (int \<Rightarrow> (u64 \<Rightarrow> 'v) option) \<Rightarrow> (int \<Rightarrow> (u64 \<Rightarrow> 'v) option) \<Rightarrow> bool" where
  "eff w e u v \<longleftrightarrow> npu_ok (npu_id_of e) \<and> sure w e \<and>
     (case rlbk_type e of
        ROLLBK_CREATE_OBJ \<Rightarrow>
          u (npu_id_of e) = None \<and> v = u(npu_id_of e \<mapsto> vals New) \<and> owned New w (npu_id_of e)
      | ROLLBK_DELETE_OBJ \<Rightarrow>
          u (npu_id_of e) = Some (vals Old) \<and> v = u(npu_id_of e := None) \<and> owned Old w (npu_id_of e)
      | ROLLBK_MODIFY_ATTR \<Rightarrow>
          (\<exists>a x. attr_hierarchy e = [a] \<and> attr_ok a \<and> u (npu_id_of e) = Some x \<and> x a = vals Old a \<and>
             v = u(npu_id_of e \<mapsto> x(a := vals New a)) \<and> owned Old w (npu_id_of e))
      | _ \<Rightarrow> False)"

fun trail :: "'w \<Rightarrow> (int \<Rightarrow> (u64 \<Rightarrow> 'v) option) \<Rightarrow> rollback_trakr_t \<Rightarrow> (int \<Rightarrow> (u64 \<Rightarrow> 'v) option) \<Rightarrow> bool" where
  "trail w v0 [] v \<longleftrightarrow> v = v0"
| "trail w v0 (e # es) v \<longleftrightarrow> (\<exists>u. trail w v0 es u \<and> eff w e u v)"

definition owns_more :: "'w \<Rightarrow> 'w \<Rightarrow> bool" where
  "owns_more w w' \<longleftrightarrow> (\<forall>y k. owned y w k \<longrightarrow> owned y w' k) \<and>
     (\<forall>e. sure w e \<longrightarrow> sure w' e) \<and> (mem w \<longrightarrow> mem w')"

lemma grows_owns_more: "grows owned sure mem = owns_more"
  by (simp add: fun_eq_iff grows_def owns_more_def)

lemma owns_more_refl [simp]: "owns_more w w"
  by (simp add: owns_more_def)

lemma owns_more_trans: "owns_more a b \<Longrightarrow> owns_more b c \<Longrightarrow> owns_more a c"
  by (simp add: owns_more_def)

text \<open>What a commit keeps of the world, whatever its outcome.\<close>

definition kept :: "'w \<Rightarrow> 'w \<Rightarrow> bool" where
  "kept w w' \<longleftrightarrow> wfw w' \<and> owns_more w w'"

lemma kept_trans: "kept a b \<Longrightarrow> kept b c \<Longrightarrow> kept a c"
  by (auto simp: kept_def owns_more_def)

lemma keptD: "kept w w' \<Longrightarrow> wfw w'" "kept w w' \<Longrightarrow> owns_more w w'"
  "kept w w' \<Longrightarrow> \<not> mem w' \<Longrightarrow> \<not> mem w"
  by (auto simp: kept_def owns_more_def)

lemma eff_more: "eff w e u v \<Longrightarrow> owns_more w w' \<Longrightarrow> eff w' e u v"
  by (auto simp: eff_def owns_more_def split: rollbk_type_t.splits)

lemma trail_more: "trail w v0 es v \<Longrightarrow> owns_more w w' \<Longrightarrow> trail w' v0 es v"
  by (induction es arbitrary: v) (auto intro: eff_more)

lemma soundD:
  "sound owned sure wfw mem w r w' \<Longrightarrow> wfw w'"
  "sound owned sure wfw mem w r w' \<Longrightarrow> owns_more w w'"
  "sound owned sure wfw mem w r w' \<Longrightarrow> r \<noteq> Escaped f"
  by (auto simp: sound_def grows_owns_more)

lemma allocD:
  assumes "wfw w" "alloc_fill_ndi_obj (ops x) w = (a, w')"
  shows "kept w w'" "view w' = view w" "a = Inl f \<Longrightarrow> \<not> mem w" "a = Inr nd \<Longrightarrow> filled x nd"
  using alloc_law [OF assms] by (auto simp: kept_def grows_owns_more)

subsection \<open>Undoing a trail\<close>

text \<open>
  Undoing the newest element of a trail. \<open>F\<close> are the NPUs that already differ from what the trail
  says; a push that fails adds its own.
\<close>

lemma rollback_push_undoes:
  assumes "wfw w" "eff w e u v" "\<forall>n. n \<notin> F \<longrightarrow> view w n = v n"
    "rlbk_type e = ROLLBK_DELETE_OBJ \<Longrightarrow> filled Old (the nd)"
    "rollback_push (ops Old) (ops New) nd e w = (r, w')"
  shows "rollback_elem (ops Old) (ops New) nd e w = (Done, w') \<and> kept w w' \<and>
    (\<forall>n. n \<notin> (if r = Pushed then F else insert (npu_id_of e) F) \<longrightarrow> view w' n = u n)"
proof -
  let ?n = "npu_id_of e"
  have n: "npu_ok ?n" using assms(2) by (simp add: eff_def)
  consider (create) "rlbk_type e = ROLLBK_CREATE_OBJ" | (delete) "rlbk_type e = ROLLBK_DELETE_OBJ"
    | (modify) "rlbk_type e = ROLLBK_MODIFY_ATTR"
    using assms(2) by (cases "rlbk_type e") (auto simp: eff_def)
  then show ?thesis
  proof cases
    case create
    then have u: "u ?n = None" "v = u(?n \<mapsto> vals New)" "owned New w ?n"
      using assms(2) by (auto simp: eff_def)
    have p: "push_delete_obj_to_npu (ops New) ?n w = (r, w')"
      using assms(5) create by (simp add: rollback_push_def)
    note law = delete_law [OF assms(1) n u(3) p]
    note s = law [THEN conjunct1]
    have "rollback_elem (ops Old) (ops New) nd e w = (Done, w')"
      using create p soundD(3) [OF s]
      by (cases r) (auto simp: rollback_elem_def rollback_create_obj_in_npu_def logged_def)
    then show ?thesis
      using law u(1,2) assms(3) soundD(1,2) [OF s] by (auto simp: kept_def)
  next
    case delete
    then have u: "u ?n = Some (vals Old)" "v = u(?n := None)" "owned Old w ?n"
      using assms(2) by (auto simp: eff_def)
    have p: "push_create_obj_to_npu (ops Old) ?n (the nd) w = (r, w')"
      using assms(5) delete by (simp add: rollback_push_def)
    note law = create_law [OF assms(1) n assms(4) [OF delete] p]
    note s = law [THEN conjunct1]
    have "rollback_elem (ops Old) (ops New) nd e w = (Done, w')"
      using delete p soundD(3) [OF s]
      by (cases r) (auto simp: rollback_elem_def rollback_delete_obj_in_npu_def logged_def)
    then show ?thesis
      using law u(1,2) assms(3) soundD(1,2) [OF s] by (auto simp: kept_def)
  next
    case modify
    then obtain a x where u: "attr_hierarchy e = [a]" "attr_ok a" "u ?n = Some x" "x a = vals Old a"
      "v = u(?n \<mapsto> x(a := vals New a))" "owned Old w ?n"
      using assms(2) by (auto simp: eff_def)
    have p: "push_leaf_attr_to_npu (ops Old) a ?n w = (r, w')"
      using assms(5) modify u(1) by (simp add: rollback_push_def)
    note law = leaf_law [OF assms(1) n u(2,6) p]
    note s = law [THEN conjunct1]
    have "rollback_elem (ops Old) (ops New) nd e w = (Done, w')"
      using modify p soundD(3) [OF s] u(1)
      by (cases r) (auto simp: rollback_elem_def rollback_modify_attr_in_npu_def logged_def)
    moreover have "x(a := vals Old a) = x" using u(4) by (simp add: fun_upd_idem)
    ultimately show ?thesis
      using law u(3,5) assms(3) soundD(1,2) [OF s] by (auto simp: kept_def)
  qed
qed

lemma rollback_loop:
  "wfw w \<Longrightarrow> trail w v0 es v \<Longrightarrow> \<forall>n. n \<notin> F \<longrightarrow> view w n = v n \<Longrightarrow> \<forall>x. nd = Some x \<longrightarrow> filled Old x \<Longrightarrow>
   rollback_modify_loop (ops Old) (ops New) nd es w = (st, w') \<Longrightarrow>
   kept w w' \<and>
   ((\<exists>f. st = Escape f \<and> \<not> mem w \<and> nd = None \<and> ROLLBK_DELETE_OBJ \<in> rlbk_type ` set es) \<or>
    st = Done \<and> (\<forall>n. n \<notin> F \<union> set (undo_failures (ops Old) (ops New) nd es w) \<longrightarrow> view w' n = v0 n))"
proof (induction es arbitrary: w v F nd)
  case Nil
  then show ?case by (simp add: kept_def)
next
  case (Cons e es)
  obtain u where u: "trail w v0 es u" "eff w e u v" using Cons.prems(2) by auto
  obtain a w1 where o: "rollback_obj (ops Old) nd e w = (a, w1)" by force
  have k1: "kept w w1" "view w1 = view w"
      "\<forall>f. a = Inl f \<longrightarrow> \<not> mem w \<and> nd = None \<and> rlbk_type e = ROLLBK_DELETE_OBJ"
    and fill: "\<forall>nd'. a = Inr nd' \<longrightarrow> (\<forall>x. nd' = Some x \<longrightarrow> filled Old x) \<and>
      (rlbk_type e = ROLLBK_DELETE_OBJ \<longrightarrow> filled Old (the nd')) \<and> (nd' = None \<longrightarrow> nd = None)"
    using o Cons.prems(1,4) allocD [OF Cons.prems(1)]
    by (auto simp: rollback_obj_def kept_def split: if_splits prod.splits sum.splits)
  show ?case
  proof (cases a)
    case (Inl f)
    then show ?thesis using o k1 Cons.prems(5) by auto
  next
    case (Inr nd')
    obtain r w2 where p: "rollback_push (ops Old) (ops New) nd' e w1 = (r, w2)" by force
    have "rollback_elem (ops Old) (ops New) nd' e w1 = (Done, w2) \<and> kept w1 w2 \<and>
        (\<forall>n. n \<notin> (if r = Pushed then F else insert (npu_id_of e) F) \<longrightarrow> view w2 n = u n)"
    proof (rule rollback_push_undoes [OF _ _ _ _ p])
      show "wfw w1" using k1(1) by (rule keptD)
      show "eff w1 e u v" using u(2) keptD(2) [OF k1(1)] by (rule eff_more)
      show "\<forall>n. n \<notin> F \<longrightarrow> view w1 n = v n" using Cons.prems(3) k1(2) by simp
      show "filled Old (the nd')" if "rlbk_type e = ROLLBK_DELETE_OBJ" using fill Inr that by blast
    qed
    then have e: "rollback_elem (ops Old) (ops New) nd' e w1 = (Done, w2)" "kept w1 w2"
      "\<forall>n. n \<notin> (if r = Pushed then F else insert (npu_id_of e) F) \<longrightarrow> view w2 n = u n" by auto
    have k2: "kept w w2" using k1(1) e(2) by (rule kept_trans)
    have t: "trail w2 v0 es u" using u(1) keptD(2) [OF k2] by (rule trail_more)
    have "kept w2 w' \<and> ((\<exists>f. st = Escape f \<and> \<not> mem w2 \<and> nd' = None \<and> ROLLBK_DELETE_OBJ \<in> rlbk_type ` set es) \<or>
        st = Done \<and> (\<forall>n. n \<notin> (if r = Pushed then F else insert (npu_id_of e) F) \<union>
          set (undo_failures (ops Old) (ops New) nd' es w2) \<longrightarrow> view w' n = v0 n))"
      using Cons.prems(5) fill o Inr e(1) by (intro Cons.IH [OF keptD(1) [OF k2] t e(3)]) auto
    then show ?thesis
      using kept_trans [OF k2] keptD(3) [OF k2] o Inr p fill by (auto split: if_splits)
  qed
qed

text \<open>The two one-sided rollbacks are the general one on a tracker of their own kind.\<close>

lemma rollback_create_is_modify:
  "\<forall>e \<in> set es. rlbk_type e = ROLLBK_CREATE_OBJ \<Longrightarrow>
     rollback_create_obj_ndi new es w = rollback_modify_loop old new nd es w"
  by (induction es arbitrary: w) (auto simp: rollback_elem_def rollback_obj_def split: prod.split status.split)

lemma rollback_delete_is_modify:
  "\<forall>e \<in> set es. rlbk_type e = ROLLBK_DELETE_OBJ \<Longrightarrow>
     rollback_delete_npus old nd es w = rollback_modify_loop old new (Some nd) es w"
  by (induction es arbitrary: w) (auto simp: rollback_elem_def rollback_obj_def split: prod.split status.split)

text \<open>What every forward loop does: it extends the trail, with elements of its own kind; nothing but
  a lack of memory leaves it in another way than by a base exception.\<close>

definition forward ::
  "(int \<Rightarrow> (u64 \<Rightarrow> 'v) option) \<Rightarrow> rollbk_type_t \<Rightarrow> 'w \<Rightarrow> rollback_trakr_t \<Rightarrow> status \<Rightarrow> 'w \<Rightarrow> rollback_trakr_t \<Rightarrow> bool"
where
  "forward v0 k w tr st w' tr' \<longleftrightarrow>
     wfw w' \<and> owns_more w w' \<and> trail w' v0 (rev tr') (view w') \<and> ((\<exists>f. st = Escape f) \<longrightarrow> \<not> mem w) \<and>
     (\<exists>es. tr' = tr @ es \<and> (\<forall>e \<in> set es. rlbk_type e = k))"

lemma forward_refl: "wfw w \<Longrightarrow> trail w v0 (rev tr) (view w) \<Longrightarrow> forward v0 k w tr Done w tr"
  by (simp add: forward_def)

lemma forward_thrown:
  assumes "sound owned sure wfw mem w (Thrown e) w1" "view w1 = view w" "trail w v0 (rev tr) (view w)"
  shows "forward v0 k w tr (Exc e) w1 tr"
  using assms soundD(1,2) [OF assms(1)] trail_more by (auto simp: forward_def)

lemma forward_skip:
  assumes "forward v0 k w1 tr st w' tr'" "owns_more w w1"
  shows "forward v0 k w tr st w' tr'"
  using assms owns_more_trans by (auto simp: forward_def owns_more_def)

lemma forward_more:
  assumes "forward v0 k w1 (tr @ [e]) st w' tr'" "owns_more w w1" "rlbk_type e = k"
  shows "forward v0 k w tr st w' tr'"
  using assms owns_more_trans by (fastforce simp: forward_def owns_more_def)

lemma trail_snoc:
  assumes "trail w v0 (rev tr) (view w)" "owns_more w w1" "eff w1 e (view w) v"
  shows "trail w1 v0 (rev (tr @ [e])) v"
  using trail_more [OF assms(1,2)] assms(3) by auto

lemma create_npus_forward:
  "wfw w \<Longrightarrow> trail w v0 (rev tr) (view w) \<Longrightarrow> distinct ns \<Longrightarrow>
   \<forall>n \<in> set ns. npu_ok n \<and> view w n = None \<Longrightarrow> filled New nd \<Longrightarrow>
   create_npus (ops New) nd False ns (w, tr) = (st, (w', tr')) \<Longrightarrow>
   forward v0 ROLLBK_CREATE_OBJ w tr st w' tr' \<and> (\<forall>n. n \<notin> set ns \<longrightarrow> view w' n = view w n)"
proof (induction ns arbitrary: w tr)
  case Nil
  then show ?case by (auto intro: forward_refl)
next
  case (Cons n ns)
  obtain r w1 where p: "push_create_obj_to_npu (ops New) n nd w = (r, w1)"
    by force
  have n: "npu_ok n" "view w n = None" using Cons.prems(4) by simp_all
  note law = create_law [OF Cons.prems(1) n(1) Cons.prems(5) p]
  note s = law [THEN conjunct1]
  note s' = soundD(1,2) [OF s]
  show ?case
  proof (cases r)
    case Pushed
    let ?e = "tracked ROLLBK_CREATE_OBJ n []"
    have v: "view w1 = (view w)(n \<mapsto> vals New)" "owned New w1 n" "sure w1 ?e" using law Pushed by auto
    have t: "trail w1 v0 (rev (tr @ [?e])) (view w1)"
      using Cons.prems(2) s'(2) by (rule trail_snoc) (simp add: eff_def n v)
    have "forward v0 ROLLBK_CREATE_OBJ w1 (tr @ [?e]) st w' tr' \<and>
        (\<forall>m. m \<notin> set ns \<longrightarrow> view w' m = view w1 m)"
      using Cons.prems(3-6) Pushed p v by (intro Cons.IH [OF s'(1) t]) (auto simp: tracked_fold)
    then show ?thesis using v s'(2) by (auto intro: forward_more)
  next
    case Not_Pushed
    then have v: "view w1 = view w" using law by simp
    then have t: "trail w1 v0 (rev tr) (view w1)" using trail_more [OF Cons.prems(2) s'(2)] by simp
    have "forward v0 ROLLBK_CREATE_OBJ w1 tr st w' tr' \<and> (\<forall>m. m \<notin> set ns \<longrightarrow> view w' m = view w1 m)"
      using Cons.prems(3-6) Not_Pushed p v by (intro Cons.IH [OF s'(1) t]) auto
    then show ?thesis using v s'(2) by (auto intro: forward_skip)
  next
    case (Thrown e)
    then have "view w1 = view w" "sound owned sure wfw mem w (Thrown e) w1" using law by simp_all
    then show ?thesis
      using Cons.prems(2,6) p Thrown by (auto intro: forward_thrown)
  next
    case (Escaped f)
    then show ?thesis using soundD(3) [OF s] by simp
  qed
qed

lemma create_npus_no_escape:
  "wfw w \<Longrightarrow> \<forall>n \<in> set ns. npu_ok n \<Longrightarrow> filled New nd \<Longrightarrow>
   create_npus (ops New) nd False ns (w, tr) = (st, (w', tr')) \<Longrightarrow> st \<noteq> Escape f"
proof (induction ns arbitrary: w tr)
  case (Cons n ns)
  obtain r w1 where p: "push_create_obj_to_npu (ops New) n nd w = (r, w1)" by force
  have n: "npu_ok n" using Cons.prems(2) by simp
  note s = create_law [OF Cons.prems(1) n Cons.prems(3) p, THEN conjunct1]
  show ?case
    using Cons.IH [OF soundD(1) [OF s] _ Cons.prems(3)] Cons.prems(2,4) p soundD(3) [OF s] by (cases r) auto
qed simp

lemma create_forward:
  assumes "wfw w" "trail w v0 (rev tr) (view w)" "distinct ns"
    "\<forall>n \<in> set ns. npu_ok n \<and> view w n = None"
    "create_obj_npulist_ndi (ops New) False ns (w, tr) = (st, (w', tr'))"
  shows "forward v0 ROLLBK_CREATE_OBJ w tr st w' tr' \<and> (\<forall>n. n \<notin> set ns \<longrightarrow> view w' n = view w n) \<and>
    (\<forall>f. st = Escape f \<longrightarrow> view w' = view w)"
proof -
  obtain a w1 where al: "alloc_fill_ndi_obj (ops New) w = (a, w1)" by force
  note k = allocD [OF assms(1) al]
  have t: "trail w1 v0 (rev tr) (view w1)"
    unfolding k(2) using assms(2) keptD(2) [OF k(1)] by (rule trail_more)
  show ?thesis
  proof (cases a)
    case (Inl f)
    then show ?thesis using assms(5) al k keptD(1,2) [OF k(1)] t by (auto simp: create_obj_npulist_ndi_def forward_def)
  next
    case (Inr nd)
    have "forward v0 ROLLBK_CREATE_OBJ w1 tr st w' tr' \<and> (\<forall>n. n \<notin> set ns \<longrightarrow> view w' n = view w1 n)"
      using assms(3-5) al Inr k(2,4)
      by (intro create_npus_forward [OF keptD(1) [OF k(1)] t]) (auto simp: create_obj_npulist_ndi_def)
    moreover have "st \<noteq> Escape f" for f
      using create_npus_no_escape [OF keptD(1) [OF k(1)] _ k(4) [OF Inr], of ns tr st w' tr'] assms(4,5) al Inr
      by (auto simp: create_obj_npulist_ndi_def)
    ultimately show ?thesis using forward_skip [OF _ keptD(2) [OF k(1)]] k(2) by auto
  qed
qed

lemma delete_forward:
  "wfw w \<Longrightarrow> trail w v0 (rev tr) (view w) \<Longrightarrow> distinct ns \<Longrightarrow>
   \<forall>n \<in> set ns. npu_ok n \<and> view w n = Some (vals Old) \<and> owned Old w n \<Longrightarrow>
   delete_obj_npulist_ndi (ops Old) False ns (w, tr) = (st, (w', tr')) \<Longrightarrow>
   forward v0 ROLLBK_DELETE_OBJ w tr st w' tr' \<and> (\<forall>n. view w' n = view w n \<or> n \<in> set ns \<and> view w' n = None)"
proof (induction ns arbitrary: w tr)
  case Nil
  then show ?case by (auto intro: forward_refl)
next
  case (Cons n ns)
  obtain r w1 where p: "push_delete_obj_to_npu (ops Old) n w = (r, w1)" by force
  have n: "npu_ok n" "view w n = Some (vals Old)" "owned Old w n" using Cons.prems(4) by simp_all
  note law = delete_law [OF Cons.prems(1) n(1,3) p]
  note s = law [THEN conjunct1]
  note s' = soundD(1,2) [OF s]
  have own: "owned Old w1 m" if "owned Old w m" for m using that s'(2) by (simp add: owns_more_def)
  show ?case
  proof (cases r)
    case Pushed
    let ?e = "tracked ROLLBK_DELETE_OBJ n []"
    have v: "view w1 = (view w)(n := None)" "sure w1 ?e" using law Pushed by auto
    have t: "trail w1 v0 (rev (tr @ [?e])) (view w1)"
      using Cons.prems(2) s'(2) by (rule trail_snoc) (simp add: eff_def n v own)
    have "forward v0 ROLLBK_DELETE_OBJ w1 (tr @ [?e]) st w' tr' \<and>
        (\<forall>m. view w' m = view w1 m \<or> m \<in> set ns \<and> view w' m = None)"
      using Cons.prems(3-5) Pushed p v own by (intro Cons.IH [OF s'(1) t]) (auto simp: tracked_fold)
    then have "forward v0 ROLLBK_DELETE_OBJ w tr st w' tr'"
      and k: "view w' m = (if m = n then None else view w m) \<or> m \<in> set ns \<and> view w' m = None" for m
      using s'(2) by (auto simp: v(1) intro: forward_more)
    moreover have "view w' m = view w m \<or> m \<in> set (n # ns) \<and> view w' m = None" for m
      using k [of m] by (auto split: if_splits)
    ultimately show ?thesis by blast
  next
    case Not_Pushed
    then have v: "view w1 = view w" using law by simp
    then have t: "trail w1 v0 (rev tr) (view w1)" using trail_more [OF Cons.prems(2) s'(2)] by simp
    have "forward v0 ROLLBK_DELETE_OBJ w1 tr st w' tr' \<and> (\<forall>m. view w' m = view w1 m \<or> m \<in> set ns \<and> view w' m = None)"
      using Cons.prems(3-5) Not_Pushed p v own by (intro Cons.IH [OF s'(1) t]) auto
    then show ?thesis using v s'(2) by (auto intro: forward_skip)
  next
    case (Thrown e)
    then have "view w1 = view w" "sound owned sure wfw mem w (Thrown e) w1" using law by simp_all
    then show ?thesis
      using Cons.prems(2,5) p Thrown by (auto intro: forward_thrown)
  next
    case (Escaped f)
    then show ?thesis using soundD(3) [OF s] by simp
  qed
qed

text \<open>An NPU whose object still has the old value of an attribute.\<close>

definition stale :: "'w \<Rightarrow> u64 \<Rightarrow> int \<Rightarrow> bool" where
  "stale w a n \<longleftrightarrow> (\<exists>x. view w n = Some x \<and> x a = vals Old a)"

lemma leaf_forward:
  "wfw w \<Longrightarrow> trail w v0 (rev tr) (view w) \<Longrightarrow> distinct ns \<Longrightarrow> attr_ok a \<Longrightarrow>
   \<forall>n \<in> set ns. npu_ok n \<and> stale w a n \<and> owned Old w n \<and> owned New w n \<Longrightarrow>
   push_leaf_npulist (ops New) False a ns (w, tr) = (st, (w', tr')) \<Longrightarrow>
   forward v0 ROLLBK_MODIFY_ATTR w tr st w' tr' \<and>
   (\<forall>n b. b \<noteq> a \<longrightarrow> stale w b n \<longrightarrow> stale w' b n)"
proof (induction ns arbitrary: w tr)
  case Nil
  then show ?case by (auto intro: forward_refl)
next
  case (Cons n ns)
  obtain r w1 where p: "push_leaf_attr_to_npu (ops New) a n w = (r, w1)" by force
  have n: "npu_ok n" "owned Old w n" "owned New w n" using Cons.prems(5) by simp_all
  obtain x where x: "view w n = Some x" "x a = vals Old a"
    using Cons.prems(5) by (auto simp: stale_def)
  note law = leaf_law [OF Cons.prems(1) n(1) Cons.prems(4) n(3) p]
  note s = law [THEN conjunct1]
  note s' = soundD(1,2) [OF s]
  have own: "owned y w1 m" if "owned y w m" for y m using that s'(2) by (simp add: owns_more_def)
  show ?case
  proof (cases r)
    case Pushed
    let ?e = "tracked ROLLBK_MODIFY_ATTR n [a]"
    have v: "view w1 = (view w)(n \<mapsto> x(a := vals New a))" "sure w1 ?e" using law Pushed x by auto
    have t: "trail w1 v0 (rev (tr @ [?e])) (view w1)"
      using Cons.prems(2) s'(2) by (rule trail_snoc) (simp add: eff_def n v own x Cons.prems(4))
    have k: "stale w1 b m" if "stale w b m" "b \<noteq> a \<or> m \<noteq> n" for b m
      using that x(1) by (auto simp: stale_def v)
    have k2: "stale w1 a m" if "stale w a m" "m \<noteq> n" for m using k that by blast
    have "forward v0 ROLLBK_MODIFY_ATTR w1 (tr @ [?e]) st w' tr' \<and>
        (\<forall>m b. b \<noteq> a \<longrightarrow> stale w1 b m \<longrightarrow> stale w' b m)"
      using Cons.prems(3-6) Pushed p own k2 by (intro Cons.IH [OF s'(1) t]) (auto simp: tracked_fold)
    then show ?thesis using k s'(2) by (auto intro: forward_more)
  next
    case Not_Pushed
    then have v: "view w1 = view w" using law by simp
    then have t: "trail w1 v0 (rev tr) (view w1)" using trail_more [OF Cons.prems(2) s'(2)] by simp
    have k: "stale w1 = stale w" by (simp add: stale_def v fun_eq_iff)
    have "forward v0 ROLLBK_MODIFY_ATTR w1 tr st w' tr' \<and>
        (\<forall>m b. b \<noteq> a \<longrightarrow> stale w1 b m \<longrightarrow> stale w' b m)"
      using Cons.prems(3-6) Not_Pushed p own k by (intro Cons.IH [OF s'(1) t]) auto
    then show ?thesis using k s'(2) by (auto intro: forward_skip)
  next
    case (Thrown e)
    then have v: "view w1 = view w" and "sound owned sure wfw mem w (Thrown e) w1" using law by simp_all
    then have "forward v0 ROLLBK_MODIFY_ATTR w tr (Exc e) w1 tr"
      using Cons.prems(2) by (blast intro: forward_thrown)
    then show ?thesis using Cons.prems(6) p Thrown v by (auto simp: stale_def)
  next
    case (Escaped f)
    then show ?thesis using soundD(3) [OF s] by simp
  qed
qed

lemma forward_trans:
  "forward v0 k w tr Done w1 tr1 \<Longrightarrow> forward v0 k w1 tr1 st w' tr' \<Longrightarrow> forward v0 k w tr st w' tr'"
  using owns_more_trans by (fastforce simp: forward_def owns_more_def)

lemma forwardD:
  assumes "forward v0 k w tr st w' tr'"
  shows "wfw w'" "owns_more w w'" "trail w' v0 (rev tr') (view w')" "st = Escape f \<Longrightarrow> \<not> mem w"
    "tr = [] \<Longrightarrow> \<forall>x \<in> set tr'. rlbk_type x = k"
  using assms by (auto simp: forward_def)

lemma leaves_forward:
  "wfw w \<Longrightarrow> trail w v0 (rev tr) (view w) \<Longrightarrow> distinct ns \<Longrightarrow> distinct as \<Longrightarrow>
   \<forall>a \<in> set as. attr_ok a \<and> is_leaf_attr (ops New) a \<Longrightarrow>
   \<forall>n \<in> set ns. npu_ok n \<and> owned Old w n \<and> owned New w n \<Longrightarrow>
   \<forall>a \<in> set as. \<forall>n \<in> set ns. stale w a n \<Longrightarrow>
   modify_obj_npulist_ndi (ops New) False as ns (w, tr) = (st, (w', tr')) \<Longrightarrow>
   forward v0 ROLLBK_MODIFY_ATTR w tr st w' tr'"
proof (induction as arbitrary: w tr)
  case Nil
  then show ?case by (auto intro: forward_refl)
next
  case (Cons a as)
  obtain st1 w1 tr1 where p: "push_leaf_npulist (ops New) False a ns (w, tr) = (st1, (w1, tr1))"
    by (metis surj_pair)
  have f: "forward v0 ROLLBK_MODIFY_ATTR w tr st1 w1 tr1" and
    k: "\<forall>n b. b \<noteq> a \<longrightarrow> stale w b n \<longrightarrow> stale w1 b n"
    using leaf_forward [OF Cons.prems(1-3) _ _ p] Cons.prems(5-7) by auto
  have leaf: "is_leaf_attr (ops New) a" using Cons.prems(5) by simp
  show ?case
  proof (cases st1)
    case Done
    have "owned y w1 n" if "owned y w n" for y n
      using that forwardD(2) [OF f] by (simp add: owns_more_def)
    moreover have "\<forall>b \<in> set as. \<forall>n \<in> set ns. stale w1 b n"
      using k Cons.prems(4,7) by (metis distinct.simps(2) list.set_intros(2))
    ultimately have "forward v0 ROLLBK_MODIFY_ATTR w1 tr1 st w' tr'"
      using Cons.prems(3-6,8) leaf p Done
      by (intro Cons.IH [OF forwardD(1,3) [OF f]]) simp_all
    then show ?thesis using f Done by (blast intro: forward_trans)
  qed (use f leaf p Cons.prems(8) in auto)
qed

subsection \<open>All or nothing\<close>

text \<open>How a commit ends; \<open>F\<close> are the NPUs that a rollback could not restore.\<close>

lemma caught:
  assumes "catch_rollback rb (st, (w, tr)) = (st', w')" "kept w0 w" "\<forall>f. st = Escape f \<longrightarrow> \<not> mem w0"
    "\<And>e. st = Exc e \<Longrightarrow> \<exists>st2 w2. rb (rev tr) w = (st2, w2) \<and> kept w w2 \<and>
       ((\<exists>f. st2 = Escape f \<and> \<not> mem w) \<or> st2 = Done \<and> (\<forall>n. n \<notin> F \<longrightarrow> view w2 n = v0 n))"
  shows "kept w0 w' \<and> ((\<exists>f. st' = Escape f \<and> \<not> mem w0) \<or>
    (\<exists>e. st' = Exc e \<and> (\<forall>n. n \<notin> F \<longrightarrow> view w' n = v0 n)) \<or> st = Done \<and> st' = Done \<and> w' = w)"
proof (cases st)
  case (Exc e)
  then obtain st2 w2 where r: "rb (rev tr) w = (st2, w2)" "kept w w2"
    "(\<exists>f. st2 = Escape f \<and> \<not> mem w) \<or> st2 = Done \<and> (\<forall>n. n \<notin> F \<longrightarrow> view w2 n = v0 n)"
    using assms(4) by blast
  then show ?thesis
    using Exc assms(1) kept_trans [OF assms(2) r(2)] keptD(3) [OF assms(2)] by (auto simp: catch_rollback_def)
qed (use assms(1-3) in \<open>auto simp: catch_rollback_def\<close>)

lemma base_create_atomic:
  assumes "wfw w" "distinct ns" "\<forall>n \<in> set ns. npu_ok n \<and> view w n = None"
    "create_obj_npulist_ndi (ops New) False ns (w, []) = r" "base_create_obj_ndi (ops New) ns False w = (st, w')"
  shows "kept w w' \<and> ((\<exists>f. st = Escape f \<and> \<not> mem w \<and> view w' = view w) \<or>
    (\<exists>e. st = Exc e \<and> (\<forall>n. n \<notin> set (unrestored (ops Old) (ops New) r) \<longrightarrow> view w' n = view w n)) \<or>
    st = Done \<and> (\<exists>tr. r = (Done, (w', tr))))"
proof -
  obtain st1 w1 tr1 where p: "r = (st1, (w1, tr1))" by (metis surj_pair)
  note c = assms(4) [unfolded p]
  have f: "forward (view w) ROLLBK_CREATE_OBJ w [] st1 w1 tr1" and v: "\<forall>f. st1 = Escape f \<longrightarrow> view w1 = view w"
    using create_forward [OF assms(1) _ assms(2,3) c, of "view w"] by simp_all
  obtain st2 w2 where rb: "rollback_modify_loop (ops Old) (ops New) None (rev tr1) w1 = (st2, w2)" by force
  have cr: "rollback_create_obj_ndi (ops New) (rev tr1) w1 = (st2, w2)"
    unfolding rb [symmetric] using forwardD(5) [OF f] by (intro rollback_create_is_modify) simp
  have l: "kept w1 w2 \<and> st2 = Done \<and>
      (\<forall>n. n \<notin> set (undo_failures (ops Old) (ops New) None (rev tr1) w1) \<longrightarrow> view w2 n = view w n)"
    using rollback_loop [OF forwardD(1,3) [OF f] _ _ rb, of "{}"] forwardD(5) [OF f] by auto
  show ?thesis
  proof (cases st1)
    case (Exc e)
    then show ?thesis
      using assms(5) [unfolded base_create_obj_ndi_def c] cr l forwardD(1,2) [OF f] kept_trans [of w w1 w2] p
      by (auto simp: catch_rollback_def unrestored_def kept_def)
  qed (use assms(5) [unfolded base_create_obj_ndi_def c] p v forwardD(1,2,4) [OF f] in
      \<open>auto simp: catch_rollback_def kept_def\<close>)
qed

text \<open>The rollback of a deletion allocates first; that is what the general one does at its first element.\<close>

lemma undo_failures_alloc:
  assumes "\<forall>e \<in> set es. rlbk_type e = ROLLBK_DELETE_OBJ" "alloc_fill_ndi_obj old w = (Inr nd, w1)"
  shows "undo_failures old new None es w = undo_failures old new (Some nd) es w1"
  using assms by (cases es) (simp_all add: rollback_obj_def)

lemma base_delete_atomic:
  assumes "wfw w" "distinct ns"
    "\<forall>n \<in> set ns. npu_ok n \<and> view w n = Some (vals Old) \<and> owned Old w n"
    "delete_obj_npulist_ndi (ops Old) False ns (w, []) = r" "base_delete_obj_ndi (ops Old) ns False w = (st, w')"
  shows "kept w w' \<and>
    ((\<exists>f. st = Escape f \<and> \<not> mem w \<and> (\<forall>n. view w' n = view w n \<or> n \<in> set ns \<and> view w' n = None)) \<or>
    (\<exists>e. st = Exc e \<and> (\<forall>n. n \<notin> set (unrestored (ops Old) (ops New) r) \<longrightarrow> view w' n = view w n)) \<or>
    st = Done \<and> (\<exists>tr. r = (Done, (w', tr))))"
proof -
  obtain st1 w1 tr1 where p: "r = (st1, (w1, tr1))" by (metis surj_pair)
  note c = assms(4) [unfolded p]
  have f: "forward (view w) ROLLBK_DELETE_OBJ w [] st1 w1 tr1"
    and v: "\<forall>n. view w1 n = view w n \<or> n \<in> set ns \<and> view w1 n = None"
    using delete_forward [OF assms(1) _ assms(2,3) c, of "view w"] by simp_all
  have ty: "\<forall>e \<in> set (rev tr1). rlbk_type e = ROLLBK_DELETE_OBJ" using forwardD(5) [OF f] by simp
  have k: "kept w w1" using forwardD(1,2) [OF f] by (simp add: kept_def)
  note b = assms(5) [unfolded base_delete_obj_ndi_def c]
  show ?thesis
  proof (cases st1)
    case (Exc e)
    obtain al w2 where al: "alloc_fill_ndi_obj (ops Old) w1 = (al, w2)" by force
    note a = allocD [OF forwardD(1) [OF f] al]
    show ?thesis
    proof (cases al)
      case (Inl g)
      then show ?thesis
        using b Exc al a(2,3) kept_trans [OF k a(1)] keptD(3) [OF k] v
        by (auto simp: catch_rollback_def rollback_delete_obj_ndi_def)
    next
      case (Inr nd)
      obtain st3 w3 where rb: "rollback_modify_loop (ops Old) (ops New) (Some nd) (rev tr1) w2 = (st3, w3)" by force
      have t: "trail w2 (view w) (rev tr1) (view w1)"
        using forwardD(3) [OF f] keptD(2) [OF a(1)] by (rule trail_more)
      have l: "kept w2 w3 \<and> st3 = Done \<and>
          (\<forall>n. n \<notin> set (undo_failures (ops Old) (ops New) (Some nd) (rev tr1) w2) \<longrightarrow> view w3 n = view w n)"
        using rollback_loop [OF keptD(1) [OF a(1)] t _ _ rb, of "{}"] a(2,4) Inr by auto
      have "rollback_delete_npus (ops Old) nd (rev tr1) w2 = (st3, w3)"
        unfolding rb [symmetric] by (rule rollback_delete_is_modify [OF ty])
      then show ?thesis
        using b Exc al Inr l p undo_failures_alloc [OF ty, of "ops Old" w1 nd w2]
          kept_trans [OF kept_trans [OF k a(1)], of w3]
        by (auto simp: catch_rollback_def rollback_delete_obj_ndi_def unrestored_def)
    qed
  qed (use b p k v forwardD(4) [OF f] in \<open>auto simp: catch_rollback_def\<close>)
qed

text \<open>The state from which a modification starts: the old object is on its NPUs with its values,
  the new one can address them, and the NPUs it adds have no object yet.\<close>

definition in_sync :: "'w \<Rightarrow> int list \<Rightarrow> int list \<Rightarrow> bool" where
  "in_sync w new_npus old_npus \<longleftrightarrow> wfw w \<and> (\<forall>n \<in> set new_npus \<union> set old_npus. npu_ok n) \<and>
     (\<forall>n \<in> set old_npus. view w n = Some (vals Old) \<and> owned Old w n \<and> owned New w n) \<and>
     (\<forall>n \<in> set new_npus - set old_npus. view w n = None)"

lemma modify_chain:
  assumes "in_sync w new_npus old_npus" "distinct as"
    "\<forall>a \<in> set as. attr_ok a \<and> is_leaf_attr (ops New) a"
    "distinct added" "distinct deleted" "distinct unchanged"
    "set added = set new_npus - set old_npus" "set deleted = set old_npus - set new_npus"
    "set unchanged = set new_npus \<inter> set old_npus"
    "seq (seq (create_obj_npulist_ndi (ops New) False added (w, []))
            (delete_obj_npulist_ndi (ops Old) False deleted))
       (modify_obj_npulist_ndi (ops New) False as unchanged) = (st, (w', tr'))"
  shows "wfw w' \<and> trail w' (view w) (rev tr') (view w') \<and> (\<forall>f. st = Escape f \<longrightarrow> \<not> mem w) \<and> owns_more w w'"
proof -
  have w: "wfw w" using assms(1) by (simp add: in_sync_def)
  obtain st1 w1 tr1 where 1: "create_obj_npulist_ndi (ops New) False added (w, []) = (st1, (w1, tr1))"
    by (metis surj_pair)
  have f1: "forward (view w) ROLLBK_CREATE_OBJ w [] st1 w1 tr1"
    and k1: "\<forall>n. n \<notin> set added \<longrightarrow> view w1 n = view w n"
    using create_forward [OF w _ assms(4) _ 1, of "view w"] assms(1,7) by (auto simp: in_sync_def)
  show ?thesis
  proof (cases st1)
    case d1: Done
    have o1: "owned y w1 n" if "owned y w n" for y n
      using that forwardD(2) [OF f1] by (simp add: owns_more_def)
    obtain st2 w2 tr2 where 2: "delete_obj_npulist_ndi (ops Old) False deleted (w1, tr1) = (st2, (w2, tr2))"
      by (metis surj_pair)
    have pre: "\<forall>n \<in> set deleted. npu_ok n \<and> view w1 n = Some (vals Old) \<and> owned Old w1 n"
      using assms(1,7,8) k1 o1 by (auto simp: in_sync_def)
    have f2: "forward (view w) ROLLBK_DELETE_OBJ w1 tr1 st2 w2 tr2"
      and k2: "\<forall>n. n \<notin> set deleted \<longrightarrow> view w2 n = view w1 n"
      using delete_forward [OF forwardD(1,3) [OF f1] assms(5) pre 2] by blast+
    show ?thesis
    proof (cases st2)
      case d2: Done
      have o2: "owned y w2 n" if "owned y w1 n" for y n
        using that forwardD(2) [OF f2] by (simp add: owns_more_def)
      have "\<forall>n \<in> set unchanged. npu_ok n \<and> owned Old w2 n \<and> owned New w2 n \<and> view w2 n = Some (vals Old)"
        using assms(1,7-9) k1 k2 o1 o2 by (auto simp: in_sync_def)
      moreover have "modify_obj_npulist_ndi (ops New) False as unchanged (w2, tr2) = (st, (w', tr'))"
        using assms(10) 1 2 d1 d2 by (simp add: seq_def)
      ultimately have "forward (view w) ROLLBK_MODIFY_ATTR w2 tr2 st w' tr'"
        using leaves_forward [OF forwardD(1,3) [OF f2] assms(6,2,3)] by (auto simp: stale_def)
      then show ?thesis using f1 f2 by (auto simp: forward_def owns_more_def)
    qed (use f1 f2 assms(10) 1 2 d1 in \<open>auto simp: forward_def seq_def owns_more_def\<close>)
  qed (use f1 assms(10) 1 in \<open>auto simp: forward_def seq_def\<close>)
qed

text \<open>The body of the \<open>try\<close> block, with the NPU lists that \<open>compare\<close> makes.\<close>

lemma modify_forward_chain:
  assumes "in_sync w new_npus old_npus" "distinct as"
    "\<forall>a \<in> set as. attr_ok a \<and> is_leaf_attr (ops New) a"
    "modify_forward (ops New) (ops Old) as new_npus old_npus False w = (st, (w', tr'))"
  shows "kept w w' \<and> trail w' (view w) (rev tr') (view w') \<and> (\<forall>f. st = Escape f \<longrightarrow> \<not> mem w)"
proof -
  obtain ad de un where c: "npu_compare new_npus old_npus ([], [], []) = (ad, de, un)"
    by (metis surj_pair)
  have "wfw w' \<and> trail w' (view w) (rev tr') (view w') \<and> (\<forall>f. st = Escape f \<longrightarrow> \<not> mem w) \<and> owns_more w w'"
    using compare_parts [OF c] assms(4)
    by (intro modify_chain [OF assms(1-3), of ad de un]) (auto simp: oset_def modify_forward_def c)
  then show ?thesis by (simp add: kept_def)
qed

lemma base_modify_atomic:
  assumes "in_sync w new_npus old_npus" "distinct as"
    "\<forall>a \<in> set as. attr_ok a \<and> is_leaf_attr (ops New) a"
    "modify_forward (ops New) (ops Old) as new_npus old_npus False w = r"
    "base_modify_obj_ndi (ops New) (ops Old) as new_npus old_npus False w = (st, w')"
  shows "kept w w' \<and> ((\<exists>f. st = Escape f \<and> \<not> mem w) \<or>
    (\<exists>e. st = Exc e \<and> (\<forall>n. n \<notin> set (unrestored (ops Old) (ops New) r) \<longrightarrow> view w' n = view w n)) \<or>
    st = Done \<and> (\<exists>tr. r = (Done, (w', tr))))"
proof -
  obtain st1 w1 tr1 where p: "r = (st1, (w1, tr1))" by (metis surj_pair)
  note m = modify_forward_chain [OF assms(1-3) assms(4) [unfolded p]]
  have k: "kept w w1" "wfw w1" "trail w1 (view w) (rev tr1) (view w1)" using m by (auto simp: kept_def)
  have u: "\<exists>st2 w2. rollback_modify_obj_ndi (ops Old) (ops New) (rev tr1) w1 = (st2, w2) \<and> kept w1 w2 \<and>
      ((\<exists>f. st2 = Escape f \<and> \<not> mem w1) \<or>
       st2 = Done \<and> (\<forall>n. n \<notin> set (unrestored (ops Old) (ops New) r) \<longrightarrow> view w2 n = view w n))"
    if "st1 = Exc e" for e
  proof -
    obtain st2 w2 where rb: "rollback_modify_loop (ops Old) (ops New) None (rev tr1) w1 = (st2, w2)" by force
    show ?thesis
      using rollback_loop [OF k(2,3) _ _ rb, of "{}"] rb that
      by (auto simp: rollback_modify_obj_ndi_def p unrestored_def)
  qed
  have "kept w w' \<and> ((\<exists>f. st = Escape f \<and> \<not> mem w) \<or>
      (\<exists>e. st = Exc e \<and> (\<forall>n. n \<notin> set (unrestored (ops Old) (ops New) r) \<longrightarrow> view w' n = view w n)) \<or>
      st1 = Done \<and> st = Done \<and> w' = w1)"
    using assms(4,5) k(1) m u
    by (intro caught [of "rollback_modify_obj_ndi (ops Old) (ops New)" st1 w1 tr1])
      (auto simp: base_modify_obj_ndi_def p)
  then show ?thesis using p by auto
qed

end

text \<open>The stronger contract of an object that is pushed to every NPU it is asked for.\<close>

locale ndi_total = ndi +
  assumes create_total:
      "wfw w \<Longrightarrow> npu_ok n \<Longrightarrow> filled x nd \<Longrightarrow>
         fst (push_create_obj_to_npu (ops x) n nd w) \<noteq> Not_Pushed"
    and delete_total:
      "wfw w \<Longrightarrow> npu_ok n \<Longrightarrow> owned x w n \<Longrightarrow> fst (push_delete_obj_to_npu (ops x) n w) \<noteq> Not_Pushed"
    and leaf_total:
      "wfw w \<Longrightarrow> npu_ok n \<Longrightarrow> attr_ok a \<Longrightarrow> owned x w n \<Longrightarrow>
         fst (push_leaf_attr_to_npu (ops x) a n w) \<noteq> Not_Pushed"
begin

lemma create_npus_complete:
  "wfw w \<Longrightarrow> \<forall>n \<in> set ns. npu_ok n \<Longrightarrow> filled x nd \<Longrightarrow>
   create_npus (ops x) nd False ns (w, tr) = (Done, (w', tr')) \<Longrightarrow>
   view w' = (\<lambda>n. if n \<in> set ns then Some (vals x) else view w n) \<and>
   owns_more w w' \<and> (\<forall>n \<in> set ns. owned x w' n)"
proof (induction ns arbitrary: w tr)
  case (Cons n ns)
  obtain r w1 where p: "push_create_obj_to_npu (ops x) n nd w = (r, w1)" by force
  have n: "npu_ok n" using Cons.prems(2) by simp
  note law = create_law [OF Cons.prems(1) n Cons.prems(3) p]
  note s = law [THEN conjunct1]
  have r: "r = Pushed"
    using Cons.prems(4) p create_total [OF Cons.prems(1) n Cons.prems(3)] by (cases r) auto
  have "view w' = (\<lambda>m. if m \<in> set ns then Some (vals x) else view w1 m) \<and>
      owns_more w1 w' \<and> (\<forall>n \<in> set ns. owned x w' n)"
    using Cons.prems p r by (intro Cons.IH [OF soundD(1) [OF s]]) auto
  then show ?case using law r soundD(2) [OF s] by (auto simp: fun_eq_iff owns_more_def)
qed (auto simp: fun_eq_iff)

lemma create_complete:
  assumes "wfw w" "\<forall>n \<in> set ns. npu_ok n"
    "create_obj_npulist_ndi (ops x) False ns (w, tr) = (Done, (w', tr'))"
  shows "view w' = (\<lambda>n. if n \<in> set ns then Some (vals x) else view w n) \<and>
    owns_more w w' \<and> (\<forall>n \<in> set ns. owned x w' n)"
proof -
  obtain al w1 where al: "alloc_fill_ndi_obj (ops x) w = (al, w1)" by force
  note k = allocD [OF assms(1) al]
  obtain nd where nd: "al = Inr nd" "create_npus (ops x) nd False ns (w1, tr) = (Done, (w', tr'))"
    using assms(3) al by (cases al) (auto simp: create_obj_npulist_ndi_def)
  show ?thesis
    using create_npus_complete [OF keptD(1) [OF k(1)] assms(2) k(4) [OF nd(1)] nd(2)]
      owns_more_trans [OF keptD(2) [OF k(1)]] by (simp add: k(2) fun_eq_iff)
qed

lemma delete_complete:
  "wfw w \<Longrightarrow> \<forall>n \<in> set ns. npu_ok n \<and> owned x w n \<Longrightarrow>
   delete_obj_npulist_ndi (ops x) False ns (w, tr) = (Done, (w', tr')) \<Longrightarrow>
   view w' = (\<lambda>n. if n \<in> set ns then None else view w n)"
proof (induction ns arbitrary: w tr)
  case (Cons n ns)
  obtain r w1 where p: "push_delete_obj_to_npu (ops x) n w = (r, w1)" by force
  have n: "npu_ok n" "owned x w n" using Cons.prems(2) by simp_all
  note law = delete_law [OF Cons.prems(1) n p]
  note s = law [THEN conjunct1]
  have r: "r = Pushed"
    using Cons.prems(3) p delete_total [OF Cons.prems(1) n] by (cases r) auto
  have "owned x w1 m" if "owned x w m" for m using that soundD(2) [OF s] by (simp add: owns_more_def)
  then have "view w' = (\<lambda>m. if m \<in> set ns then None else view w1 m)"
    using Cons.prems p r by (intro Cons.IH [OF soundD(1) [OF s]]) auto
  then show ?case using law r by (auto simp: fun_eq_iff)
qed (auto simp: fun_eq_iff)

lemma leaf_complete:
  "wfw w \<Longrightarrow> distinct ns \<Longrightarrow> attr_ok a \<Longrightarrow> \<forall>n \<in> set ns. npu_ok n \<and> owned x w n \<Longrightarrow>
   push_leaf_npulist (ops x) False a ns (w, tr) = (Done, (w', tr')) \<Longrightarrow>
   wfw w' \<and> owns_more w w' \<and>
   view w' = (\<lambda>n. if n \<in> set ns then map_option (\<lambda>v. v(a := vals x a)) (view w n) else view w n)"
proof (induction ns arbitrary: w tr)
  case (Cons n ns)
  obtain r w1 where p: "push_leaf_attr_to_npu (ops x) a n w = (r, w1)" by force
  have n: "npu_ok n" "owned x w n" using Cons.prems(4) by simp_all
  note law = leaf_law [OF Cons.prems(1) n(1) Cons.prems(3) n(2) p]
  note s = law [THEN conjunct1]
  have r: "r = Pushed"
    using Cons.prems(5) p leaf_total [OF Cons.prems(1) n(1) Cons.prems(3) n(2)] by (cases r) auto
  have "owned x w1 m" if "owned x w m" for m using that soundD(2) [OF s] by (simp add: owns_more_def)
  then have ih: "wfw w' \<and> owns_more w1 w' \<and>
      view w' = (\<lambda>m. if m \<in> set ns then map_option (\<lambda>v. v(a := vals x a)) (view w1 m) else view w1 m)"
    using Cons.prems p r by (intro Cons.IH [OF soundD(1) [OF s]]) auto
  moreover have "view w1 = (view w)(n := map_option (\<lambda>v. v(a := vals x a)) (view w n))"
    using law r by simp
  ultimately show ?case
    using Cons.prems(2) owns_more_trans [OF soundD(2) [OF s]] by (auto simp: fun_eq_iff)
qed (auto simp: fun_eq_iff)

definition set_attrs :: "role \<Rightarrow> u64 list \<Rightarrow> (u64 \<Rightarrow> 'c) \<Rightarrow> (u64 \<Rightarrow> 'c)" where
  "set_attrs x as v = (\<lambda>a. if a \<in> set as then vals x a else v a)"

lemma modify_complete:
  "wfw w \<Longrightarrow> distinct ns \<Longrightarrow> \<forall>a \<in> set as. attr_ok a \<and> is_leaf_attr (ops x) a \<Longrightarrow>
   \<forall>n \<in> set ns. npu_ok n \<and> owned x w n \<Longrightarrow>
   modify_obj_npulist_ndi (ops x) False as ns (w, tr) = (Done, (w', tr')) \<Longrightarrow>
   view w' = (\<lambda>n. if n \<in> set ns then map_option (set_attrs x as) (view w n) else view w n) \<and>
   owns_more w w'"
proof (induction as arbitrary: w tr)
  case Nil
  have "map_option (set_attrs x []) z = z" for z by (cases z) (simp_all add: set_attrs_def)
  with Nil show ?case by (simp add: fun_eq_iff)
next
  case (Cons a as)
  obtain st1 w1 tr1 where p: "push_leaf_npulist (ops x) False a ns (w, tr) = (st1, (w1, tr1))"
    by (metis surj_pair)
  have d: "st1 = Done" using Cons.prems(3,5) p by (cases st1) auto
  have c: "wfw w1 \<and> owns_more w w1 \<and>
      view w1 = (\<lambda>n. if n \<in> set ns then map_option (\<lambda>v. v(a := vals x a)) (view w n) else view w n)"
    using Cons.prems p d by (intro leaf_complete) auto
  then have "view w' = (\<lambda>n. if n \<in> set ns then map_option (set_attrs x as) (view w1 n) else view w1 n) \<and>
      owns_more w1 w'"
    using Cons.prems p d by (intro Cons.IH) (auto simp: owns_more_def)
  moreover have "map_option (set_attrs x as) (map_option (\<lambda>v. v(a := vals x a)) z) =
      map_option (set_attrs x (a # as)) z" for z
    by (cases z) (auto simp: set_attrs_def fun_eq_iff)
  ultimately show ?case using c by (auto simp: fun_eq_iff owns_more_def)
qed

text \<open>A modification that returns leaves exactly the new object's NPUs, each with its values.\<close>

lemma base_modify_complete:
  assumes "in_sync w new_npus old_npus" "distinct as"
    "\<forall>a \<in> set as. attr_ok a \<and> is_leaf_attr (ops New) a"
    "\<forall>a. a \<notin> set as \<longrightarrow> vals New a = vals Old a"
    "base_modify_obj_ndi (ops New) (ops Old) as new_npus old_npus False w = (Done, w')"
  shows "view w' = (\<lambda>n. if n \<in> set new_npus then Some (vals New)
                        else if n \<in> set old_npus then None else view w n) \<and>
    (\<forall>n \<in> set new_npus. owned New w' n)"
proof -
  obtain ad de un where c: "npu_compare new_npus old_npus ([], [], []) = (ad, de, un)"
    by (metis surj_pair)
  note parts = compare_parts [OF c]
  have w: "wfw w" using assms(1) by (simp add: in_sync_def)
  obtain st1 w1 tr1 where 1: "create_obj_npulist_ndi (ops New) False ad (w, []) = (st1, (w1, tr1))"
    by (metis surj_pair)
  obtain st2 w2 tr2 where 2: "delete_obj_npulist_ndi (ops Old) False de (w1, tr1) = (st2, (w2, tr2))"
    by (metis surj_pair)
  obtain st3 w3 tr3 where 3: "modify_obj_npulist_ndi (ops New) False as un (w2, tr2) = (st3, (w3, tr3))"
    by (metis surj_pair)
  have "catch_rollback (rollback_modify_obj_ndi (ops Old) (ops New))
      (seq (seq (st1, (w1, tr1)) (delete_obj_npulist_ndi (ops Old) False de))
         (modify_obj_npulist_ndi (ops New) False as un)) = (Done, w')"
    using assms(5) by (simp add: base_modify_obj_ndi_def modify_forward_def c 1)
  then have d: "st1 = Done" "st2 = Done" "st3 = Done" "w3 = w'"
    using 2 3 by (auto simp: seq_def catch_rollback_def split: status.splits prod.splits)
  have f1: "forward (view w) ROLLBK_CREATE_OBJ w [] Done w1 tr1"
    using create_forward [of w "view w" "[]" ad] 1 w assms(1) parts d(1) by (auto simp: in_sync_def oset_def)
  have v1: "view w1 = (\<lambda>n. if n \<in> set ad then Some (vals New) else view w n)"
    and n1: "\<forall>n \<in> set ad. owned New w1 n"
    using assms(1) parts 1 d(1) create_complete [OF w, of ad New "[]" w1 tr1]
    by (auto simp: in_sync_def)
  have o1: "owned y w1 n" if "owned y w n" for y n
    using that forwardD(2) [OF f1] by (simp add: owns_more_def)
  have pre: "\<forall>n \<in> set de. npu_ok n \<and> view w1 n = Some (vals Old) \<and> owned Old w1 n"
    using assms(1) parts v1 o1 by (auto simp: in_sync_def)
  have f2: "forward (view w) ROLLBK_DELETE_OBJ w1 tr1 Done w2 tr2"
    using delete_forward [OF forwardD(1,3) [OF f1] _ pre] 2 parts d(2) by (auto simp: oset_def)
  have v2: "view w2 = (\<lambda>n. if n \<in> set de then None else view w1 n)"
    using pre 2 d(2) by (intro delete_complete [OF forwardD(1) [OF f1]]) auto
  have o2: "owned y w2 n" if "owned y w1 n" for y n
    using that forwardD(2) [OF f2] by (simp add: owns_more_def)
  have m: "view w' = (\<lambda>n. if n \<in> set un then map_option (set_attrs New as) (view w2 n) else view w2 n) \<and>
      owns_more w2 w'"
    using assms(1,3) parts 3 d(3,4) o1 o2
    by (intro modify_complete [OF forwardD(1) [OF f2]]) (auto simp: in_sync_def oset_def)
  note v3 = m [THEN conjunct1]
  have o3: "owned y w' n" if "owned y w2 n" for y n using m that by (simp add: owns_more_def)
  have own: "owned New w' n" if "n \<in> set new_npus" for n
  proof (cases "n \<in> set old_npus")
    case True
    then show ?thesis using assms(1) o1 o2 o3 unfolding in_sync_def by blast
  next
    case False
    then show ?thesis using n1 parts(1) that o2 o3 by blast
  qed
  have "set_attrs New as (vals Old) = vals New" using assms(4) by (auto simp: set_attrs_def fun_eq_iff)
  then have "view w' = (\<lambda>n. if n \<in> set new_npus then Some (vals New)
      else if n \<in> set old_npus then None else view w n)"
    using assms(1) parts unfolding v3 v2 v1 by (auto simp: in_sync_def fun_eq_iff)
  then show ?thesis using own by blast
qed

end

text \<open>An object whose pushes can always be undone: its rollbacks do not fail.\<close>

locale ndi_steady = ndi +
  assumes undo_create:
      "wfw w \<Longrightarrow> npu_ok n \<Longrightarrow> owned New w n \<Longrightarrow> sure w e \<Longrightarrow> rlbk_type e = ROLLBK_CREATE_OBJ \<Longrightarrow>
         npu_id_of e = n \<Longrightarrow> fst (push_delete_obj_to_npu (ops New) n w) = Pushed"
    and undo_delete:
      "wfw w \<Longrightarrow> npu_ok n \<Longrightarrow> filled Old nd \<Longrightarrow> sure w e \<Longrightarrow> rlbk_type e = ROLLBK_DELETE_OBJ \<Longrightarrow>
         npu_id_of e = n \<Longrightarrow> fst (push_create_obj_to_npu (ops Old) n nd w) = Pushed"
    and undo_leaf:
      "wfw w \<Longrightarrow> npu_ok n \<Longrightarrow> attr_ok a \<Longrightarrow> owned Old w n \<Longrightarrow> sure w e \<Longrightarrow> rlbk_type e = ROLLBK_MODIFY_ATTR \<Longrightarrow>
         npu_id_of e = n \<Longrightarrow> attr_hierarchy e = [a] \<Longrightarrow> fst (push_leaf_attr_to_npu (ops Old) a n w) = Pushed"
begin

lemma undo_pushed:
  assumes "wfw w" "eff w e u v" "rlbk_type e = ROLLBK_DELETE_OBJ \<Longrightarrow> filled Old (the nd)"
  shows "fst (rollback_push (ops Old) (ops New) nd e w) = Pushed"
  using assms undo_create [of w "npu_id_of e" e] undo_delete [of w "npu_id_of e" "the nd" e]
    undo_leaf [of w "npu_id_of e" _ e]
  by (auto simp: eff_def rollback_push_def split: rollbk_type_t.splits)

lemma no_undo_failures:
  "wfw w \<Longrightarrow> trail w v0 es v \<Longrightarrow> \<forall>x. nd = Some x \<longrightarrow> filled Old x \<Longrightarrow>
   undo_failures (ops Old) (ops New) nd es w = []"
proof (induction es arbitrary: w v nd)
  case (Cons e es)
  obtain u where u: "trail w v0 es u" "eff w e u v" using Cons.prems(2) by auto
  obtain al w1 where o: "rollback_obj (ops Old) nd e w = (al, w1)" by force
  have k1: "kept w w1"
    and fill: "\<forall>nd'. al = Inr nd' \<longrightarrow> (\<forall>x. nd' = Some x \<longrightarrow> filled Old x) \<and>
      (rlbk_type e = ROLLBK_DELETE_OBJ \<longrightarrow> filled Old (the nd'))"
    using o Cons.prems(1,3) allocD [OF Cons.prems(1)]
    by (auto simp: rollback_obj_def kept_def split: if_splits prod.splits sum.splits)
  show ?case
  proof (cases al)
    case (Inl f)
    then show ?thesis using o by simp
  next
    case (Inr nd')
    obtain r w2 where p: "rollback_push (ops Old) (ops New) nd' e w1 = (r, w2)" by force
    have e: "eff w1 e u v" using u(2) keptD(2) [OF k1] by (rule eff_more)
    have "r = Pushed" using undo_pushed [OF keptD(1) [OF k1] e, of nd'] fill Inr p by simp
    moreover have "kept w1 w2"
      using rollback_push_undoes [OF keptD(1) [OF k1] e _ _ p, of UNIV] fill Inr by simp
    then have k2: "kept w w2" using k1 by (blast intro: kept_trans)
    have "undo_failures (ops Old) (ops New) nd' es w2 = []"
      using fill Inr by (intro Cons.IH [OF keptD(1) [OF k2] trail_more [OF u(1) keptD(2) [OF k2]]]) blast
    ultimately show ?thesis using o Inr p by simp
  qed
qed simp

lemma create_restores:
  assumes "wfw w" "distinct ns" "\<forall>n \<in> set ns. npu_ok n \<and> view w n = None"
  shows "unrestored (ops Old) (ops New) (create_obj_npulist_ndi (ops New) False ns (w, [])) = []"
proof -
  obtain st w1 tr where p: "create_obj_npulist_ndi (ops New) False ns (w, []) = (st, (w1, tr))"
    by (metis surj_pair)
  show ?thesis
    using create_forward [OF assms(1) _ assms(2,3) p, of "view w"]
      no_undo_failures [of w1 "view w" "rev tr" "view w1" None]
    by (auto simp: p unrestored_def forward_def split: status.split)
qed

lemma delete_restores:
  assumes "wfw w" "distinct ns"
    "\<forall>n \<in> set ns. npu_ok n \<and> view w n = Some (vals Old) \<and> owned Old w n"
  shows "unrestored (ops Old) (ops New) (delete_obj_npulist_ndi (ops Old) False ns (w, [])) = []"
proof -
  obtain st w1 tr where p: "delete_obj_npulist_ndi (ops Old) False ns (w, []) = (st, (w1, tr))"
    by (metis surj_pair)
  show ?thesis
    using delete_forward [OF assms(1) _ assms(2,3) p, of "view w"]
      no_undo_failures [of w1 "view w" "rev tr" "view w1" None]
    by (auto simp: p unrestored_def forward_def split: status.split)
qed

lemma modify_restores:
  assumes "in_sync w new_npus old_npus" "distinct as"
    "\<forall>a \<in> set as. attr_ok a \<and> is_leaf_attr (ops New) a"
  shows "unrestored (ops Old) (ops New) (modify_forward (ops New) (ops Old) as new_npus old_npus False w) = []"
proof -
  obtain st w1 tr where p: "modify_forward (ops New) (ops Old) as new_npus old_npus False w = (st, (w1, tr))"
    by (metis surj_pair)
  show ?thesis
    using modify_forward_chain [OF assms p] no_undo_failures [of w1 "view w" "rev tr" "view w1" None]
    by (auto simp: p unrestored_def kept_def split: status.split)
qed

end

end
