(* ===== verification/NdiCommits.thy ===== *)
theory NdiCommits
  imports NdiContract
begin

text \<open>
  The commits of an object whose pushes meet the contract \<open>ndi_total\<close>: how each of them can end,
  what it leaves on the NPUs, and what it keeps of the world. The properties of the commits and the
  life of an object rest on these lemmas.
\<close>

definition commit_npus :: "base_switch_t \<Rightarrow> base_obj_t \<Rightarrow> npu_set_t" where
  "commit_npus sw ob = (if obj_npus ob = [] then switch_npus sw else obj_npus ob)"

text \<open>The NPUs on which undoing a failed commit had no success: their pushes of the rollback failed.\<close>

definition create_unrestored ::
  "base_switch_t \<Rightarrow> (role \<Rightarrow> ('w, 'n) obj_ops) \<Rightarrow> base_obj_t \<Rightarrow> 'w \<Rightarrow> int set" where
  "create_unrestored sw ops ob w = set (unrestored (ops Old) (ops New)
     (create_obj_npulist_ndi (ops New) False (commit_npus sw ob) (w, [])))"

definition modify_unrestored ::
  "base_switch_t \<Rightarrow> (role \<Rightarrow> ('w, 'n) obj_ops) \<Rightarrow> base_obj_t \<Rightarrow> base_obj_t \<Rightarrow> 'w \<Rightarrow> int set" where
  "modify_unrestored sw ops ob obj_old w = set (unrestored (ops Old) (ops New)
     (modify_forward (ops New) (ops Old) (attributes (dirty_attributes ob)) (commit_npus sw ob)
        (obj_npus obj_old) False w))"

definition delete_unrestored :: "(role \<Rightarrow> ('w, 'n) obj_ops) \<Rightarrow> base_obj_t \<Rightarrow> 'w \<Rightarrow> int set" where
  "delete_unrestored ops ob w = set (unrestored (ops Old) (ops New)
     (delete_obj_npulist_ndi (ops Old) False (obj_npus ob) (w, [])))"

lemma default_npus_eq:
  "obj_npus (default_npus sw (ob\<lparr>set_attributes := s\<rparr>)) = commit_npus sw ob"
  "dirty_attributes (default_npus sw (ob\<lparr>set_attributes := s\<rparr>)) = dirty_attributes ob"
  "ndi_created (default_npus sw (ob\<lparr>set_attributes := s\<rparr>)) = ndi_created ob"
  by (simp_all add: default_npus_def commit_npus_def)

lemma clear_dirty_eq:
  "obj_npus (clear_all_dirty_flags ob) = obj_npus ob"
  "ndi_created (clear_all_dirty_flags ob) = ndi_created ob"
  "attributes (dirty_attributes (clear_all_dirty_flags ob)) = []"
  "attr_inv (dirty_attributes (clear_all_dirty_flags ob))"
  by (simp_all add: clear_all_dirty_flags_def attr_empty_inv) (simp add: attr_clear_def)

context ndi_total begin

lemma commit_create_result:
  assumes "wfw w" "\<not> ndi_created ob"
    "oset (commit_npus sw ob)" "\<forall>n \<in> set (commit_npus sw ob). npu_ok n \<and> view w n = None"
    "commit_create sw (ops New) False (ob, w) = (st, (ob', w'))"
  shows "((\<exists>e. st = Exc e \<and> (\<forall>n. n \<notin> create_unrestored sw ops ob w \<longrightarrow> view w' n = view w n) \<and>
      \<not> ndi_created ob') \<or>
    (\<exists>f. st = Escape f \<and> \<not> mem w \<and> view w' = view w \<and> \<not> ndi_created ob') \<or>
    (st = Done \<and> ndi_created ob' \<and> obj_npus ob' = commit_npus sw ob \<and>
     attributes (dirty_attributes ob') = [] \<and> attr_inv (dirty_attributes ob') \<and>
     view w' = (\<lambda>n. if n \<in> set (commit_npus sw ob) then Some (vals New) else view w n) \<and>
     (\<forall>n \<in> set (commit_npus sw ob). owned New w' n))) \<and> kept w w'"
proof -
  let ?ob = "default_npus sw (ob\<lparr>set_attributes := dirty_attributes ob\<rparr>)"
  let ?ns = "commit_npus sw ob"
  obtain st1 w1 where b: "base_create_obj_ndi (ops New) ?ns False w = (st1, w1)" by force
  have a: "kept w w1 \<and> ((\<exists>f. st1 = Escape f \<and> \<not> mem w \<and> view w1 = view w) \<or>
    (\<exists>e. st1 = Exc e \<and> (\<forall>n. n \<notin> create_unrestored sw ops ob w \<longrightarrow> view w1 n = view w n)) \<or>
    st1 = Done \<and> (\<exists>tr. create_obj_npulist_ndi (ops New) False ?ns (w, []) = (Done, (w1, tr))))"
    using base_create_atomic [OF assms(1) _ assms(4) refl b] assms(3)
    by (simp add: oset_def create_unrestored_def)
  have e: "commit_create sw (ops New) False (ob, w) =
      (case (st1, w1) of
         (Done, w') \<Rightarrow> (Done, (clear_all_dirty_flags (mark_ndi_created ?ob), w'))
       | (st, w') \<Rightarrow> (st, (?ob, w')))"
    using assms(2) b by (simp add: commit_create_def Let_def default_npus_eq)
  show ?thesis
  proof (cases st1)
    case Done
    then obtain tr where "create_obj_npulist_ndi (ops New) False ?ns (w, []) = (Done, (w1, tr))"
      using a by blast
    then have "view w1 = (\<lambda>n. if n \<in> set ?ns then Some (vals New) else view w n) \<and>
        (\<forall>n \<in> set ?ns. owned New w1 n)"
      using create_complete [OF assms(1)] assms(4) by blast
    then show ?thesis
      using e a assms(5) Done by (auto simp: mark_ndi_created_def clear_dirty_eq default_npus_eq)
  qed (use a e assms(2,5) in \<open>auto simp: default_npus_eq\<close>)
qed

lemma commit_modify_result:
  assumes "ndi_created ob" "wfw w"
    "\<forall>n \<in> set (commit_npus sw ob) \<union> set (obj_npus obj_old). npu_ok n"
    "\<forall>n \<in> set (obj_npus obj_old). view w n = Some (vals Old) \<and> owned Old w n \<and> owned New w n"
    "\<forall>n \<in> set (commit_npus sw ob) - set (obj_npus obj_old). view w n = None"
    "attr_inv (dirty_attributes ob)"
    "\<forall>a \<in> set (attributes (dirty_attributes ob)). attr_ok a \<and> is_leaf_attr (ops New) a"
    "\<forall>a. a \<notin> set (attributes (dirty_attributes ob)) \<longrightarrow> vals New a = vals Old a"
    "commit_modify sw (ops New) (ops Old) obj_old False (ob, w) = (st, (ob', w'), changed)"
  shows "((\<exists>e. st = Exc e \<and> (\<forall>n. n \<notin> modify_unrestored sw ops ob obj_old w \<longrightarrow> view w' n = view w n) \<and>
      changed = None) \<or>
    (\<exists>f. st = Escape f \<and> \<not> mem w \<and> changed = None) \<or>
    (st = Done \<and> ndi_created ob' \<and> obj_npus ob' = commit_npus sw ob \<and> changed = Some (dirty_attributes ob) \<and>
     attributes (dirty_attributes ob') = [] \<and> attr_inv (dirty_attributes ob') \<and>
     view w' = (\<lambda>n. if n \<in> set (commit_npus sw ob) then Some (vals New)
                    else if n \<in> set (obj_npus obj_old) then None else view w n) \<and>
     (\<forall>n \<in> set (commit_npus sw ob). owned New w' n))) \<and> kept w w'"
proof -
  let ?ob = "default_npus sw (ob\<lparr>set_attributes := attr_plus (set_attributes ob) (dirty_attributes ob)\<rparr>)"
  let ?as = "attributes (dirty_attributes ob)" and ?ns = "commit_npus sw ob"
  have sync: "in_sync w ?ns (obj_npus obj_old)"
    using assms(2-5) by (simp add: in_sync_def)
  have d: "distinct ?as" using assms(6) by (simp add: attr_inv_def oset_def)
  obtain st1 w1 where b: "base_modify_obj_ndi (ops New) (ops Old) ?as ?ns (obj_npus obj_old) False w = (st1, w1)"
    by force
  have a: "kept w w1 \<and> ((\<exists>f. st1 = Escape f \<and> \<not> mem w) \<or>
    (\<exists>e. st1 = Exc e \<and> (\<forall>n. n \<notin> modify_unrestored sw ops ob obj_old w \<longrightarrow> view w1 n = view w n)) \<or> st1 = Done)"
    using base_modify_atomic [OF sync d assms(7) refl b] by (auto simp: modify_unrestored_def)
  have e: "commit_modify sw (ops New) (ops Old) obj_old False (ob, w) =
      (case (st1, w1) of
         (Done, w') \<Rightarrow> (Done, (clear_all_dirty_flags ?ob, w'), Some (dirty_attributes ob))
       | (st, w') \<Rightarrow> (st, (?ob, w'), None))"
    using assms(1) b by (simp add: commit_modify_def Let_def default_npus_eq split: status.split)
  show ?thesis
  proof (cases st1)
    case Done
    then have "view w1 = (\<lambda>n. if n \<in> set ?ns then Some (vals New)
        else if n \<in> set (obj_npus obj_old) then None else view w n) \<and> (\<forall>n \<in> set ?ns. owned New w1 n)"
      using base_modify_complete [OF sync d assms(7,8)] b by blast
    then show ?thesis
      using e a assms(1,9) Done by (auto simp: clear_dirty_eq default_npus_eq)
  qed (use a e assms(9) in auto)
qed

lemma commit_delete_result:
  assumes "wfw w" "ndi_created ob" "oset (obj_npus ob)"
    "\<forall>n \<in> set (obj_npus ob). npu_ok n \<and> view w n = Some (vals Old) \<and> owned Old w n"
    "commit_delete (ops Old) False (ob, w) = (st, (ob', w'))"
  shows "ndi_created ob' \<and>
    ((\<exists>e. st = Exc e \<and> (\<forall>n. n \<notin> delete_unrestored ops ob w \<longrightarrow> view w' n = view w n) \<and> ob' = ob) \<or>
     (\<exists>f. st = Escape f \<and> \<not> mem w \<and> ob' = ob \<and>
        (\<forall>n. view w' n = view w n \<or> n \<in> set (obj_npus ob) \<and> view w' n = None)) \<or>
     (st = Done \<and> view w' = (\<lambda>n. if n \<in> set (obj_npus ob) then None else view w n))) \<and> kept w w'"
proof -
  obtain st1 w1 where b: "base_delete_obj_ndi (ops Old) (obj_npus ob) False w = (st1, w1)" by force
  have a: "kept w w1 \<and>
    ((\<exists>f. st1 = Escape f \<and> \<not> mem w \<and>
        (\<forall>n. view w1 n = view w n \<or> n \<in> set (obj_npus ob) \<and> view w1 n = None)) \<or>
    (\<exists>e. st1 = Exc e \<and> (\<forall>n. n \<notin> delete_unrestored ops ob w \<longrightarrow> view w1 n = view w n)) \<or>
    st1 = Done \<and> (\<exists>tr. delete_obj_npulist_ndi (ops Old) False (obj_npus ob) (w, []) = (Done, (w1, tr))))"
    using base_delete_atomic [OF assms(1) _ assms(4) refl b] assms(3)
    by (simp add: oset_def delete_unrestored_def)
  show ?thesis
  proof (cases st1)
    case Done
    then obtain tr where t: "delete_obj_npulist_ndi (ops Old) False (obj_npus ob) (w, []) = (Done, (w1, tr))"
      using a by blast
    have "view w1 = (\<lambda>n. if n \<in> set (obj_npus ob) then None else view w n)"
      using assms(4) by (intro delete_complete [OF assms(1) _ t]) blast
    then show ?thesis
      using a assms(2,5) b Done by (auto simp: commit_delete_def clear_dirty_eq)
  qed (use a assms(2,5) b in \<open>auto simp: commit_delete_def\<close>)
qed

end

text \<open>When every push can be undone, a failed commit leaves every NPU as it was.\<close>

context ndi_steady begin

lemma commits_restore:
  "wfw w \<Longrightarrow> oset (commit_npus sw ob) \<Longrightarrow> \<forall>n \<in> set (commit_npus sw ob). npu_ok n \<and> view w n = None \<Longrightarrow>
     create_unrestored sw ops ob w = {}"
  "in_sync w (commit_npus sw ob) (obj_npus obj_old) \<Longrightarrow> attr_inv (dirty_attributes ob) \<Longrightarrow>
   \<forall>a \<in> set (attributes (dirty_attributes ob)). attr_ok a \<and> is_leaf_attr (ops New) a \<Longrightarrow>
     modify_unrestored sw ops ob obj_old w = {}"
  "wfw w \<Longrightarrow> oset (obj_npus ob) \<Longrightarrow>
   \<forall>n \<in> set (obj_npus ob). npu_ok n \<and> view w n = Some (vals Old) \<and> owned Old w n \<Longrightarrow>
     delete_unrestored ops ob w = {}"
  using create_restores [of w "commit_npus sw ob"] delete_restores [of w "obj_npus ob"]
    modify_restores [of w "commit_npus sw ob" "obj_npus obj_old" "attributes (dirty_attributes ob)"]
  by (simp_all add: create_unrestored_def modify_unrestored_def delete_unrestored_def oset_def attr_inv_def)

end

end
