(* ===== verification/BaseObjUt.thy ===== *)
theory BaseObjUt
  imports NdiCommits
begin

text \<open>
  The derived object and the NDI of the repository's own tests
  (\<open>src/src/unit_test/nas_base_ut_simple_derived_obj.cpp\<close> and
  \<open>nas_base_obj_ut_simple.cpp\<close>): an object with two leaf attributes, and an NDI that can be told
  to fail once for one NPU. They provide the contract of \<open>NdiContract\<close>, and with them the
  properties of the commits are stated and applied.
\<close>

section \<open>The NDI stub and the derived object\<close>

record ndi_ut_obj_t =
  ut_attr1 :: u32
  ut_attr2 :: u32

text \<open>
  The globals: which NPU fails next (\<open>RESET_NPU_ID\<close> for none), the counter behind the NDI object
  identifiers, and the identifiers that the new and the old object keep. \<open>ut_cfg\<close> is what the
  calls have programmed into each NPU. \<open>ut_mem\<close> holds the outcomes of the coming allocations of an
  NDI object, which succeed when it is empty.
\<close>

record ut_world =
  simulate_ndi_fail :: int
  simulate_ndi_attr1_fail :: int
  simulate_ndi_attr2_fail :: int
  ut_count :: nat
  ndi_obj_ids :: "role \<Rightarrow> int \<Rightarrow> nat option"
  ut_cfg :: "int \<Rightarrow> (u64 \<Rightarrow> u32) option"
  ut_mem :: "bool list"

definition RESET_NPU_ID :: int where
  "RESET_NPU_ID = 10"

definition BASE_UT_ATTR1 :: u64 where
  "BASE_UT_ATTR1 = 1"

definition BASE_UT_ATTR2 :: u64 where
  "BASE_UT_ATTR2 = 2"

definition ut_vals :: "ndi_ut_obj_t \<Rightarrow> u64 \<Rightarrow> u32" where
  "ut_vals ob a = (if a = BASE_UT_ATTR1 then ut_attr1 ob else if a = BASE_UT_ATTR2 then ut_attr2 ob else 0)"

definition ndi_ut_obj_create :: "int \<Rightarrow> ndi_ut_obj_t \<Rightarrow> ut_world \<Rightarrow> (t_std_error + nat) \<times> ut_world" where
  "ndi_ut_obj_create n ob w =
     (if simulate_ndi_fail w = n
      then (Inl (STD_ERR NPU FAIL (Priv 2)), w\<lparr>simulate_ndi_fail := RESET_NPU_ID\<rparr>)
      else (Inr (ut_count w + 1),
            w\<lparr>ut_count := ut_count w + 1, ut_cfg := (ut_cfg w)(n \<mapsto> ut_vals ob)\<rparr>))"

definition ndi_ut_obj_delete :: "int \<Rightarrow> ut_world \<Rightarrow> t_std_error \<times> ut_world" where
  "ndi_ut_obj_delete n w =
     (if simulate_ndi_fail w = n
      then (STD_ERR NPU FAIL (Priv 2), w\<lparr>simulate_ndi_fail := RESET_NPU_ID\<rparr>)
      else (STD_ERR_OK, w\<lparr>ut_cfg := (ut_cfg w)(n := None)\<rparr>))"

definition ut_cfg_attr :: "int \<Rightarrow> u64 \<Rightarrow> u32 \<Rightarrow> ut_world \<Rightarrow> ut_world" where
  "ut_cfg_attr n a v w = w\<lparr>ut_cfg := (ut_cfg w)(n := map_option (\<lambda>f. f(a := v)) (ut_cfg w n))\<rparr>"

definition ndi_ut_obj_attr1_set :: "int \<Rightarrow> u32 \<Rightarrow> ut_world \<Rightarrow> t_std_error \<times> ut_world" where
  "ndi_ut_obj_attr1_set n v w =
     (if simulate_ndi_attr1_fail w = n
      then (STD_ERR NPU FAIL (Priv 2), w\<lparr>simulate_ndi_attr1_fail := RESET_NPU_ID\<rparr>)
      else (STD_ERR_OK, ut_cfg_attr n BASE_UT_ATTR1 v w))"

definition ndi_ut_obj_attr2_set :: "int \<Rightarrow> u32 \<Rightarrow> ut_world \<Rightarrow> t_std_error \<times> ut_world" where
  "ndi_ut_obj_attr2_set n v w =
     (if simulate_ndi_attr2_fail w = n
      then (STD_ERR NPU FAIL (Priv 2), w\<lparr>simulate_ndi_attr2_fail := RESET_NPU_ID\<rparr>)
      else (STD_ERR_OK, ut_cfg_attr n BASE_UT_ATTR2 v w))"

definition set_ndi_obj_id :: "role \<Rightarrow> int \<Rightarrow> nat \<Rightarrow> ut_world \<Rightarrow> ut_world" where
  "set_ndi_obj_id x n i w = w\<lparr>ndi_obj_ids := (ndi_obj_ids w)(x := (ndi_obj_ids w x)(n \<mapsto> i))\<rparr>"

definition ut_push_create :: "role \<Rightarrow> int \<Rightarrow> ndi_ut_obj_t \<Rightarrow> ut_world \<Rightarrow> push_res \<times> ut_world" where
  "ut_push_create x n nd w =
     (case ndi_ut_obj_create n nd w of
        (Inl rc, w') \<Rightarrow> (Thrown rc, w')
      | (Inr i, w') \<Rightarrow> (Pushed, set_ndi_obj_id x n i w'))"

text \<open>\<open>ndi_obj_id\<close> is a call of \<open>at\<close>, which throws \<open>std::out_of_range\<close> for an unknown NPU.\<close>

definition ut_push_delete :: "role \<Rightarrow> int \<Rightarrow> ut_world \<Rightarrow> push_res \<times> ut_world" where
  "ut_push_delete x n w =
     (case ndi_obj_ids w x n of None \<Rightarrow> (Escaped Uncaught, w)
      | Some _ \<Rightarrow>
        (case ndi_ut_obj_delete n w of (rc, w') \<Rightarrow>
           (if rc \<noteq> STD_ERR_OK then (Thrown rc, w') else (Pushed, set_ndi_obj_id x n 0 w'))))"

definition ut_push_leaf :: "role \<Rightarrow> ndi_ut_obj_t \<Rightarrow> u64 \<Rightarrow> int \<Rightarrow> ut_world \<Rightarrow> push_res \<times> ut_world" where
  "ut_push_leaf x ob a n w =
     (if a = BASE_UT_ATTR1 then
        (case ndi_obj_ids w x n of None \<Rightarrow> (Escaped Uncaught, w)
         | Some _ \<Rightarrow>
           (case ndi_ut_obj_attr1_set n (ut_attr1 ob) w of (rc, w') \<Rightarrow>
              (if rc \<noteq> STD_ERR_OK then Thrown rc else Pushed, w')))
      else if a = BASE_UT_ATTR2 then
        (case ndi_obj_ids w x n of None \<Rightarrow> (Escaped Uncaught, w)
         | Some _ \<Rightarrow>
           (case ndi_ut_obj_attr2_set n (ut_attr2 ob) w of (rc, w') \<Rightarrow>
              (if rc \<noteq> STD_ERR_OK then Thrown rc else Pushed, w')))
      else (Escaped Assert_Fail, w))"

text \<open>\<open>mem_alloc_helper_t::alloc\<close> throws \<open>std::bad_alloc\<close> when there is no memory.\<close>

definition ut_alloc :: "ndi_ut_obj_t \<Rightarrow> ut_world \<Rightarrow> (fault + ndi_ut_obj_t) \<times> ut_world" where
  "ut_alloc ob w =
     (case ut_mem w of [] \<Rightarrow> (Inr ob, w)
      | ok # oks \<Rightarrow> (if ok then Inr ob else Inl Uncaught, w\<lparr>ut_mem := oks\<rparr>))"

text \<open>The virtual functions; those that are not overridden assert.\<close>

definition ut_ops :: "(role \<Rightarrow> ndi_ut_obj_t) \<Rightarrow> role \<Rightarrow> (ut_world, ndi_ut_obj_t) obj_ops" where
  "ut_ops obs x = \<lparr>
     alloc_fill_ndi_obj = ut_alloc (obs x),
     push_create_obj_to_npu = ut_push_create x,
     push_delete_obj_to_npu = ut_push_delete x,
     is_leaf_attr = (\<lambda>_. True),
     push_leaf_attr_to_npu = ut_push_leaf x (obs x),
     push_non_leaf_attr_ndi = (\<lambda>a ns r s. (Escaped Assert_Fail, s)),
     rollback_non_leaf_attr_in_npu = (\<lambda>h n w. (Escaped Assert_Fail, w)),
     rollback_create_attr_in_npu = (\<lambda>h n w. (Escaped Assert_Fail, w)),
     rollback_delete_attr_in_npu = (\<lambda>h n w. (Escaped Assert_Fail, w))\<rparr>"

definition MAX_ATTR1_RANGE :: u32 where
  "MAX_ATTR1_RANGE = 20"

definition MAX_ATTR2_RANGE :: u32 where
  "MAX_ATTR2_RANGE = 10"

definition set_attr1 :: "u32 \<Rightarrow> base_obj_t \<times> ndi_ut_obj_t \<Rightarrow> status \<times> (base_obj_t \<times> ndi_ut_obj_t)" where
  "set_attr1 v s =
     (if v > MAX_ATTR1_RANGE then (Exc NAS_BASE_E_PARAM, s)
      else (Done, (mark_attr_dirty BASE_UT_ATTR1 (fst s), (snd s)\<lparr>ut_attr1 := v\<rparr>)))"

definition set_attr2 :: "u32 \<Rightarrow> base_obj_t \<times> ndi_ut_obj_t \<Rightarrow> status \<times> (base_obj_t \<times> ndi_ut_obj_t)" where
  "set_attr2 v s =
     (if v > MAX_ATTR2_RANGE then (Exc NAS_BASE_E_PARAM, s)
      else (Done, (mark_attr_dirty BASE_UT_ATTR2 (fst s), (snd s)\<lparr>ut_attr2 := v\<rparr>)))"

definition ut_commit_create ::
  "base_switch_t \<Rightarrow> (ut_world, ndi_ut_obj_t) obj_ops \<Rightarrow> bool \<Rightarrow> base_obj_t \<times> ut_world
     \<Rightarrow> status \<times> (base_obj_t \<times> ut_world)" where
  "ut_commit_create sw ops rolling s =
     (if \<not> is_attr_dirty (fst s) BASE_UT_ATTR1 then (Exc NAS_BASE_E_PARAM, s)
      else commit_create sw ops rolling s)"

definition ut_commit_modify ::
  "base_switch_t \<Rightarrow> (ut_world, ndi_ut_obj_t) obj_ops \<Rightarrow> (ut_world, ndi_ut_obj_t) obj_ops \<Rightarrow> ndi_ut_obj_t
     \<Rightarrow> base_obj_t \<Rightarrow> bool \<Rightarrow> base_obj_t \<times> ut_world
     \<Rightarrow> status \<times> (base_obj_t \<times> ut_world) \<times> attr_set_t option" where
  "ut_commit_modify sw new old ob obj_old rolling s =
     (if ut_attr2 ob > ut_attr1 ob then (Exc NAS_BASE_E_PARAM, s, None)
      else commit_modify sw new old obj_old rolling s)"

section \<open>The contract\<close>

definition ut_owned :: "role \<Rightarrow> ut_world \<Rightarrow> int \<Rightarrow> bool" where
  "ut_owned x w n \<longleftrightarrow> ndi_obj_ids w x n \<noteq> None"

definition ut_filled :: "(role \<Rightarrow> ndi_ut_obj_t) \<Rightarrow> role \<Rightarrow> ndi_ut_obj_t \<Rightarrow> bool" where
  "ut_filled obs x nd \<longleftrightarrow> nd = obs x"

definition ut_memory :: "ut_world \<Rightarrow> bool" where
  "ut_memory w \<longleftrightarrow> False \<notin> set (ut_mem w)"

definition ut_wf :: "ut_world \<Rightarrow> bool" where
  "ut_wf w \<longleftrightarrow> True"

text \<open>
  A push that was taken can be undone, whatever failures are armed: the call that undoes it looks at the
  same variable, which did not name its NPU and is only ever reset.
\<close>

definition ut_sure :: "ut_world \<Rightarrow> rollbk_elem_t \<Rightarrow> bool" where
  "ut_sure w e \<longleftrightarrow> npu_id_of e \<noteq> RESET_NPU_ID \<and>
     (case rlbk_type e of
        ROLLBK_CREATE_OBJ \<Rightarrow> simulate_ndi_fail w \<noteq> npu_id_of e
      | ROLLBK_DELETE_OBJ \<Rightarrow> simulate_ndi_fail w \<noteq> npu_id_of e
      | _ \<Rightarrow> (attr_hierarchy e = [BASE_UT_ATTR1] \<longrightarrow> simulate_ndi_attr1_fail w \<noteq> npu_id_of e) \<and>
             (attr_hierarchy e = [BASE_UT_ATTR2] \<longrightarrow> simulate_ndi_attr2_fail w \<noteq> npu_id_of e))"

definition ut_npu_ok :: "int \<Rightarrow> bool" where
  "ut_npu_ok n \<longleftrightarrow> n \<noteq> RESET_NPU_ID"

definition ut_attr_ok :: "u64 \<Rightarrow> bool" where
  "ut_attr_ok a \<longleftrightarrow> a = BASE_UT_ATTR1 \<or> a = BASE_UT_ATTR2"

lemmas ut_defs = ut_ops_def ut_push_create_def ut_push_delete_def ut_push_leaf_def
  ndi_ut_obj_create_def ndi_ut_obj_delete_def ndi_ut_obj_attr1_set_def ndi_ut_obj_attr2_set_def
  set_ndi_obj_id_def ut_cfg_attr_def sound_def grows_def ut_owned_def ut_filled_def
  ut_memory_def ut_wf_def ut_npu_ok_def

lemma ut_sure_reset:
  "ut_sure w e \<Longrightarrow> ut_sure (w\<lparr>simulate_ndi_fail := RESET_NPU_ID\<rparr>) e"
  "ut_sure w e \<Longrightarrow> ut_sure (w\<lparr>simulate_ndi_attr1_fail := RESET_NPU_ID\<rparr>) e"
  "ut_sure w e \<Longrightarrow> ut_sure (w\<lparr>simulate_ndi_attr2_fail := RESET_NPU_ID\<rparr>) e"
  by (auto simp: ut_sure_def split: rollbk_type_t.splits)

lemma ut_sure_frame [simp]:
  "ut_sure (w\<lparr>ut_count := k\<rparr>) e = ut_sure w e" "ut_sure (w\<lparr>ut_cfg := c\<rparr>) e = ut_sure w e"
  "ut_sure (w\<lparr>ndi_obj_ids := i\<rparr>) e = ut_sure w e" "ut_sure (w\<lparr>ut_mem := m\<rparr>) e = ut_sure w e"
  by (cases "rlbk_type e"; simp add: ut_sure_def)+

lemma ut_alloc_law:
  "alloc_fill_ndi_obj (ut_ops obs x) w = (al, w') \<Longrightarrow>
   ut_wf w' \<and> grows ut_owned ut_sure ut_memory w w' \<and> ut_cfg w' = ut_cfg w \<and>
   (case al of Inl f \<Rightarrow> \<not> ut_memory w | Inr nd \<Rightarrow> ut_filled obs x nd)"
  by (auto simp: ut_defs ut_alloc_def split: list.splits if_splits)

lemma ut_create_law:
  "ut_npu_ok n \<Longrightarrow> ut_filled obs x nd \<Longrightarrow> push_create_obj_to_npu (ut_ops obs x) n nd w = (r, w') \<Longrightarrow>
   sound ut_owned ut_sure ut_wf ut_memory w r w' \<and>
   (r = Pushed \<longrightarrow> ut_owned x w' n \<and> ut_sure w' (tracked ROLLBK_CREATE_OBJ n [])) \<and>
   ut_cfg w' = (if r = Pushed then (ut_cfg w)(n \<mapsto> ut_vals (obs x)) else ut_cfg w)"
  by (auto simp: ut_defs ut_sure_reset split: if_splits) (simp_all add: ut_sure_def)

lemma ut_delete_law:
  "ut_npu_ok n \<Longrightarrow> ut_owned x w n \<Longrightarrow> push_delete_obj_to_npu (ut_ops obs x) n w = (r, w') \<Longrightarrow>
   sound ut_owned ut_sure ut_wf ut_memory w r w' \<and>
   (r = Pushed \<longrightarrow> ut_sure w' (tracked ROLLBK_DELETE_OBJ n [])) \<and>
   ut_cfg w' = (if r = Pushed then (ut_cfg w)(n := None) else ut_cfg w)"
  by (auto simp: ut_defs ut_sure_reset split: if_splits) (simp_all add: ut_sure_def)

lemma ut_leaf_law:
  "ut_npu_ok n \<Longrightarrow> ut_attr_ok a \<Longrightarrow> ut_owned x w n \<Longrightarrow>
   push_leaf_attr_to_npu (ut_ops obs x) a n w = (r, w') \<Longrightarrow>
   sound ut_owned ut_sure ut_wf ut_memory w r w' \<and>
   (r = Pushed \<longrightarrow> ut_sure w' (tracked ROLLBK_MODIFY_ATTR n [a])) \<and>
   ut_cfg w' = (if r = Pushed
     then (ut_cfg w)(n := map_option (\<lambda>v. v(a := ut_vals (obs x) a)) (ut_cfg w n)) else ut_cfg w)"
  by (auto simp: ut_defs ut_sure_reset ut_attr_ok_def ut_vals_def BASE_UT_ATTR1_def BASE_UT_ATTR2_def
      split: if_splits)
    (simp_all add: ut_sure_def BASE_UT_ATTR1_def BASE_UT_ATTR2_def)

interpretation ut: ndi_total "ut_ops obs" ut_cfg "\<lambda>x. ut_vals (obs x)" "ut_filled obs" ut_owned ut_sure
  ut_wf ut_memory ut_npu_ok ut_attr_ok for obs
proof (unfold_locales, goal_cases)
  case (1 w x al w') then show ?case by (intro ut_alloc_law)
next
  case (2 w n x nd r w') then show ?case by (intro ut_create_law)
next
  case (3 w n x r w') then show ?case by (intro ut_delete_law)
next
  case (4 w n a x r w') then show ?case by (intro ut_leaf_law)
qed (auto simp: ut_defs split: option.splits)

interpretation ut: ndi_steady "ut_ops obs" ut_cfg "\<lambda>x. ut_vals (obs x)" "ut_filled obs" ut_owned ut_sure
  ut_wf ut_memory ut_npu_ok ut_attr_ok for obs
proof (unfold_locales, goal_cases)
  case (3 w n a e)
  then show ?case
    by (auto simp: ut_defs ut_sure_def ut_attr_ok_def BASE_UT_ATTR1_def BASE_UT_ATTR2_def)
qed (auto simp: ut_defs ut_sure_def)

end
