(* ===== verification/BaseObjProps.thy ===== *)
theory BaseObjProps
  imports BaseObjUt
begin

text \<open>
  The commits of an object are all or nothing up to failures of their own rollback, for every derived
  object and NDI that meet the contract of \<open>NdiContract\<close>; each is applied to the object and the NDI
  of the repository's tests, with a failure armed for one of three NPUs.
\<close>

section \<open>Creation\<close>

text \<open>C13: Creating an object on NPUs where it does not exist ends in one of three ways. It throws a
  base exception: then every NPU is as it was, except those on which the deletion that undoes the
  creation failed too (\<open>create_unrestored\<close>; the code logs that and goes on), and the object does not
  count as created. It leaves with \<open>bad_alloc\<close>, only for lack of memory: no NPU has changed. Or it
  returns: every NPU of the object (those of the switch when it has none) has it with its values, no
  other NPU has changed, and no attribute is dirty. The contract (\<open>ndi_total\<close>) is that a push
  succeeds, or throws a base exception and changes nothing, and never declines an NPU; pushes may
  fail at any time, also in the rollback.\<close>

theorem commit_create_atomic:
  assumes "ndi_total ops view vals filled owned sure wfw mem npu_ok attr_ok" "wfw w" "\<not> ndi_created ob"
    "oset (commit_npus sw ob)" "\<forall>n \<in> set (commit_npus sw ob). npu_ok n \<and> view w n = None"
    "commit_create sw (ops New) False (ob, w) = (st, (ob', w'))"
  shows "(\<exists>e. st = Exc e \<and> (\<forall>n. n \<notin> create_unrestored sw ops ob w \<longrightarrow> view w' n = view w n) \<and>
      \<not> ndi_created ob') \<or>
    (\<exists>f. st = Escape f \<and> \<not> mem w \<and> view w' = view w \<and> \<not> ndi_created ob') \<or>
    (st = Done \<and> ndi_created ob' \<and> obj_npus ob' = commit_npus sw ob \<and>
     attributes (dirty_attributes ob') = [] \<and>
     view w' = (\<lambda>n. if n \<in> set (commit_npus sw ob) then Some (vals New) else view w n))"
  using ndi_total.commit_create_result [OF assms] by auto

text \<open>The three NPUs of the tests' logical switch, and a world with nothing on them.\<close>

definition ut_switch :: base_switch_t where
  "ut_switch = \<lparr>switch_id = 0, switch_npus = [0, 1, 2]\<rparr>"

definition ut_init :: "int \<Rightarrow> int \<Rightarrow> ut_world" where
  "ut_init f f1 = \<lparr>simulate_ndi_fail = f, simulate_ndi_attr1_fail = f1,
     simulate_ndi_attr2_fail = RESET_NPU_ID, ut_count = 0, ndi_obj_ids = (\<lambda>_ _. None),
     ut_cfg = (\<lambda>_. None), ut_mem = []\<rparr>"

definition ut_objs :: "role \<Rightarrow> ndi_ut_obj_t" where
  "ut_objs x = (case x of New \<Rightarrow> \<lparr>ut_attr1 = 5, ut_attr2 = 2\<rparr> | Old \<Rightarrow> \<lparr>ut_attr1 = 4, ut_attr2 = 2\<rparr>)"

lemma ut_contract:
  "ndi_total (ut_ops obs) ut_cfg (\<lambda>x. ut_vals (obs x)) (ut_filled obs) ut_owned ut_sure ut_wf ut_memory
     ut_npu_ok ut_attr_ok"
  by unfold_locales

lemma ut_create_fails_at_2:
  "fst (commit_create ut_switch (ut_ops ut_objs New) False (new_base_obj, ut_init 2 RESET_NPU_ID)) =
     Exc (STD_ERR NPU FAIL (Priv 2))"
  by (simp add: commit_create_def new_base_obj_def default_npus_def ut_switch_def Let_def
      base_create_obj_ndi_def create_obj_npulist_ndi_def ut_alloc_def ut_init_def ut_defs
      RESET_NPU_ID_def catch_rollback_def
      rollback_create_obj_in_npu_def logged_def)

lemma commit_create_atomic_witness:
  "ut_cfg (snd (snd (commit_create ut_switch (ut_ops ut_objs New) False (new_base_obj, ut_init 2 RESET_NPU_ID)))) =
     (\<lambda>_. None)"
proof -
  let ?w = "ut_init 2 RESET_NPU_ID"
  obtain st ob' w' where c: "commit_create ut_switch (ut_ops ut_objs New) False (new_base_obj, ?w) =
      (st, (ob', w'))" by (metis surj_pair)
  have pre: "ut_wf ?w" "\<not> ndi_created new_base_obj" "oset (commit_npus ut_switch new_base_obj)"
    "\<forall>n \<in> set (commit_npus ut_switch new_base_obj). ut_npu_ok n \<and> ut_cfg ?w n = None"
    by (simp_all add: ut_wf_def ut_init_def new_base_obj_def commit_npus_def ut_switch_def oset_def
        ut_npu_ok_def RESET_NPU_ID_def)
  have "create_unrestored ut_switch (ut_ops ut_objs) new_base_obj ?w = {}"
    using pre(1,3,4) by (rule ut.commits_restore(1))
  with commit_create_atomic [OF ut_contract pre c] ut_create_fails_at_2 c
  show ?thesis by (auto simp: ut_init_def fun_eq_iff)
qed

section \<open>Modification\<close>

text \<open>C4: Modifying an object whose old version is on its NPUs ends in one of three ways. It throws a
  base exception, in adding the object to an NPU, in removing it from one or in changing an attribute:
  then every NPU is as it was, except those on which undoing failed too (\<open>modify_unrestored\<close>; the code
  logs that and goes on). It leaves with \<open>bad_alloc\<close>, only for lack of memory, also in the rollback. Or
  it returns: exactly the new NPUs have the object with its new values, the NPUs it left do not have
  it, and the set of the changed attributes is returned. The changed attributes are leaves. The
  contract (\<open>ndi_total\<close>) is that a push succeeds, or throws a base exception and changes nothing, and
  never declines an NPU; pushes may fail at any time, also in the rollback.\<close>

theorem commit_modify_atomic:
  assumes "ndi_total ops view vals filled owned sure wfw mem npu_ok attr_ok" "ndi_created ob" "wfw w"
    "\<forall>n \<in> set (commit_npus sw ob) \<union> set (obj_npus obj_old). npu_ok n"
    "\<forall>n \<in> set (obj_npus obj_old). view w n = Some (vals Old) \<and> owned Old w n \<and> owned New w n"
    "\<forall>n \<in> set (commit_npus sw ob) - set (obj_npus obj_old). view w n = None"
    "attr_inv (dirty_attributes ob)"
    "\<forall>a \<in> set (attributes (dirty_attributes ob)). attr_ok a \<and> is_leaf_attr (ops New) a"
    "\<forall>a. a \<notin> set (attributes (dirty_attributes ob)) \<longrightarrow> vals New a = vals Old a"
    "commit_modify sw (ops New) (ops Old) obj_old False (ob, w) = (st, (ob', w'), changed)"
  shows "(\<exists>e. st = Exc e \<and> (\<forall>n. n \<notin> modify_unrestored sw ops ob obj_old w \<longrightarrow> view w' n = view w n) \<and>
      changed = None) \<or>
    (\<exists>f. st = Escape f \<and> \<not> mem w \<and> changed = None) \<or>
    (st = Done \<and> obj_npus ob' = commit_npus sw ob \<and> changed = Some (dirty_attributes ob) \<and>
     attributes (dirty_attributes ob') = [] \<and>
     view w' = (\<lambda>n. if n \<in> set (commit_npus sw ob) then Some (vals New)
                    else if n \<in> set (obj_npus obj_old) then None else view w n))"
  using ndi_total.commit_modify_result [OF assms] by auto

text \<open>
  The old object is on NPUs 0 and 1 with attribute 1 equal to 4; the new one is on 1 and 2 with 5,
  and the change of attribute 1 on NPU 1 fails after 2 was added and 0 was removed.
\<close>

definition ut_old :: base_obj_t where
  "ut_old = new_base_obj\<lparr>ndi_created := True, obj_npus := [0, 1]\<rparr>"

definition ut_new :: base_obj_t where
  "ut_new = mark_attr_dirty BASE_UT_ATTR1 (ut_old\<lparr>obj_npus := [1, 2]\<rparr>)"

definition ut_mod_world :: ut_world where
  "ut_mod_world = (ut_init RESET_NPU_ID 1)\<lparr>
     ndi_obj_ids := (\<lambda>_. [0 \<mapsto> 1, 1 \<mapsto> 2]),
     ut_cfg := [0 \<mapsto> ut_vals (ut_objs Old), 1 \<mapsto> ut_vals (ut_objs Old)]\<rparr>"

lemma ut_new_eq: "obj_npus ut_new = [1, 2]" "attributes (dirty_attributes ut_new) = [BASE_UT_ATTR1]"
  "ndi_created ut_new" "attr_inv (dirty_attributes ut_new)"
proof -
  show "attr_inv (dirty_attributes ut_new)"
    by (simp add: ut_new_def mark_attr_dirty_def ut_old_def new_base_obj_def attr_add_inv attr_empty_inv)
qed (simp_all add: ut_new_def mark_attr_dirty_def ut_old_def new_base_obj_def attr_add_eq
      attr_set_empty_def oset_insert_def)

lemma ut_in_sync:
  "ut_wf ut_mod_world"
  "\<forall>n \<in> set (commit_npus ut_switch ut_new) \<union> set (obj_npus ut_old). ut_npu_ok n"
  "\<forall>n \<in> set (obj_npus ut_old). ut_cfg ut_mod_world n = Some (ut_vals (ut_objs Old)) \<and>
     ut_owned Old ut_mod_world n \<and> ut_owned New ut_mod_world n"
  "\<forall>n \<in> set (commit_npus ut_switch ut_new) - set (obj_npus ut_old). ut_cfg ut_mod_world n = None"
  by (simp_all add: ut_mod_world_def ut_init_def ut_wf_def ut_npu_ok_def RESET_NPU_ID_def
      commit_npus_def ut_new_eq ut_old_def ut_owned_def)

lemma ut_modify_fails:
  "fst (commit_modify ut_switch (ut_ops ut_objs New) (ut_ops ut_objs Old) ut_old False (ut_new, ut_mod_world)) =
     Exc (STD_ERR NPU FAIL (Priv 2))"
proof -
  have c: "npu_compare [1, 2] [0, 1] ([], [], []) = ([2], [0], [1])"
    by (simp add: npu_compare_def npu_contains_def npu_add_def oset_insert_def)
  show ?thesis
    by (simp add: commit_modify_def Let_def default_npus_eq commit_npus_def ut_new_eq ut_old_def
        base_modify_obj_ndi_def modify_forward_def create_obj_npulist_ndi_def ut_alloc_def c seq_def
        catch_rollback_def ut_mod_world_def ut_init_def ut_defs RESET_NPU_ID_def
        rollback_modify_obj_ndi_def rollback_obj_def rollback_elem_def rollback_create_obj_in_npu_def
        rollback_delete_obj_in_npu_def logged_def)
qed

lemma commit_modify_atomic_witness:
  "ut_cfg (snd (fst (snd (commit_modify ut_switch (ut_ops ut_objs New) (ut_ops ut_objs Old) ut_old False
     (ut_new, ut_mod_world))))) = ut_cfg ut_mod_world"
proof -
  obtain st ob' w' ch where c: "commit_modify ut_switch (ut_ops ut_objs New) (ut_ops ut_objs Old) ut_old False
      (ut_new, ut_mod_world) = (st, (ob', w'), ch)" by (metis surj_pair)
  have leaf: "\<forall>a \<in> set (attributes (dirty_attributes ut_new)). ut_attr_ok a \<and> is_leaf_attr (ut_ops ut_objs New) a"
    by (simp add: ut_new_eq ut_attr_ok_def ut_ops_def)
  have "ut.in_sync ut_objs ut_mod_world (commit_npus ut_switch ut_new) (obj_npus ut_old)"
    using ut_in_sync by (simp add: ut.in_sync_def)
  then have "modify_unrestored ut_switch (ut_ops ut_objs) ut_new ut_old ut_mod_world = {}"
    using ut_new_eq(4) leaf by (rule ut.commits_restore(2))
  moreover have "\<forall>a. a \<notin> set (attributes (dirty_attributes ut_new)) \<longrightarrow>
      ut_vals (ut_objs New) a = ut_vals (ut_objs Old) a"
    by (simp add: ut_new_eq ut_vals_def ut_objs_def)
  ultimately show ?thesis
    using commit_modify_atomic [OF ut_contract ut_new_eq(3) ut_in_sync ut_new_eq(4) leaf _ c]
      ut_modify_fails c by (auto simp: fun_eq_iff)
qed

section \<open>Deletion\<close>

text \<open>C14: Deleting an object that is on its NPUs ends in one of three ways. It throws a base
  exception: then every NPU is as it was, except those on which creating it again failed too
  (\<open>delete_unrestored\<close>; the code logs that and goes on). It leaves with \<open>bad_alloc\<close>, only for lack of
  memory: the rollback allocates before it restores anything, so each NPU is as it was or, if it is one
  of the object's, without it. Or it returns: none of the object's NPUs has it and no other NPU has
  changed. The object keeps counting as created in all cases: it is for the caller to unmark it. The
  contract (\<open>ndi_total\<close>) is that a push succeeds, or throws a base exception and changes nothing, and
  never declines an NPU; pushes may fail at any time, also in the rollback.\<close>

theorem commit_delete_atomic:
  assumes "ndi_total ops view vals filled owned sure wfw mem npu_ok attr_ok" "wfw w" "ndi_created ob"
    "oset (obj_npus ob)"
    "\<forall>n \<in> set (obj_npus ob). npu_ok n \<and> view w n = Some (vals Old) \<and> owned Old w n"
    "commit_delete (ops Old) False (ob, w) = (st, (ob', w'))"
  shows "ndi_created ob' \<and>
    ((\<exists>e. st = Exc e \<and> (\<forall>n. n \<notin> delete_unrestored ops ob w \<longrightarrow> view w' n = view w n)) \<or>
     (\<exists>f. st = Escape f \<and> \<not> mem w \<and>
        (\<forall>n. view w' n = view w n \<or> n \<in> set (obj_npus ob) \<and> view w' n = None)) \<or>
     (st = Done \<and> view w' = (\<lambda>n. if n \<in> set (obj_npus ob) then None else view w n)))"
  using ndi_total.commit_delete_result [OF assms] by auto

lemma commit_delete_atomic_witness:
  "ut_cfg (snd (snd (commit_delete (ut_ops ut_objs Old) False (ut_old, ut_mod_world)))) = (\<lambda>_. None)"
proof -
  obtain st ob' w' where c: "commit_delete (ut_ops ut_objs Old) False (ut_old, ut_mod_world) = (st, (ob', w'))"
    by (metis surj_pair)
  have "fst (commit_delete (ut_ops ut_objs Old) False (ut_old, ut_mod_world)) = Done"
    by (simp add: commit_delete_def ut_old_def base_delete_obj_ndi_def catch_rollback_def
        ut_mod_world_def ut_init_def ut_defs RESET_NPU_ID_def)
  then have st: "st = Done" using c by simp
  have "ut_wf ut_mod_world" "ndi_created ut_old" "oset (obj_npus ut_old)"
    "\<forall>n \<in> set (obj_npus ut_old). ut_npu_ok n \<and>
       ut_cfg ut_mod_world n = Some (ut_vals (ut_objs Old)) \<and> ut_owned Old ut_mod_world n"
    by (simp_all add: ut_wf_def ut_mod_world_def ut_init_def ut_old_def oset_def ut_npu_ok_def
        RESET_NPU_ID_def ut_owned_def)
  from commit_delete_atomic [OF ut_contract this c] st c
  show ?thesis by (auto simp: ut_mod_world_def ut_old_def fun_eq_iff)
qed

end
