(* ===== verification/SwProfile.thy ===== *)
theory SwProfile
  imports CLib "HOL-Library.List_Lexorder" "HOL-Library.Char_ord"
begin

text \<open>
  The switch profile data of \<open>src/inc/opx/nas_sw_profile.h\<close> and the readers that fill it from the
  nodes of \<open>switch.xml\<close> (\<open>src/src/nas_switch_profile.cpp\<close>). Each configurable value exists three
  times: the default from the file, the current one, and the one for the next boot. The getters
  and setters are in \<open>SwProfileOps\<close>, the ACL profile in \<open>SwAclProfile\<close>.
\<close>

section \<open>Data\<close>

definition NAS_CMN_PROFILE_NAME_SIZE :: nat where
  "NAS_CMN_PROFILE_NAME_SIZE = 64"

definition NAS_CMN_NPU_PROFILE_ATTR_SIZE :: nat where
  "NAS_CMN_NPU_PROFILE_ATTR_SIZE = 256"

text \<open>\<open>sizeof\<close> of a profile name's array.\<close>

definition PROFILE_NAME_SIZEOF :: nat where
  "PROFILE_NAME_SIZEOF = NAS_CMN_PROFILE_NAME_SIZE + 1"

record nas_cmn_uft_info_t =
  uft_mode :: u32
  l2_table_size :: u32
  l3_route_table_size :: u32
  l3_host_table_size :: u32

record nas_cmn_acl_profile_app_info_t =
  num_units_per_entry :: u32
  app_name :: string

record nas_cmn_acl_profile_app_group_info_t =
  num_app :: u8
  default_pool_count :: u8
  current_pool_count :: u8
  next_boot_pool_count :: u8
  depth_per_pool :: u16
  stage_type :: u16
  app_group_name :: string
  app_info :: "nas_cmn_acl_profile_app_info_t list"

text \<open>
  \<open>nas_cmn_sw_init_info_t\<close>, of which the program has one, \<open>nas_switch_info\<close>, zero at the start.
  An array is the list of its allocated elements. \<open>npu_profile_kvpair\<close> is the \<open>std::map\<close> next
  to it, as the list of its pairs in the order of the keys.
\<close>

record nas_cmn_sw_init_info_t =
  num_profiles :: u8
  num_uft_modes :: u8
  acl_profile_max_ingress_pool_count :: u8
  acl_profile_max_egress_pool_count :: u8
  profiles :: "string list"
  current_profile :: string
  next_boot_profile :: string
  def_profile :: string
  uft_info :: "nas_cmn_uft_info_t list"
  acl_groups :: "nas_cmn_acl_profile_app_group_info_t list"
  acl_profile_valid :: bool
  current_uftmode :: u32
  next_boot_uftmode :: u32
  def_uftmode :: u32
  cur_max_ecmp_per_grp :: u32
  next_boot_max_ecmp_per_grp :: u32
  def_max_ecmp_per_grp :: u32
  is_ipv6_ext_prefix_cfg_req :: u32
  def_ipv6_ext_prefix_routes :: u32
  max_ipv6_ext_prefix_routes :: u32
  cur_ipv6_ext_prefix_routes :: u32
  next_ipv6_ext_prefix_routes :: u32
  ipv6_ext_prefix_route_blk_size :: u32
  rif_table_size :: u32
  l3_nexthop_table_size :: u32
  rif_block_size :: u32
  l3_nexthop_block_size :: u32
  cur_vxlan_riot_enable :: bool
  next_boot_vxlan_riot_enable :: bool
  def_vxlan_riot_enable :: bool
  cur_max_vxlan_overlay_rifs :: u32
  next_boot_max_vxlan_overlay_rifs :: u32
  def_max_vxlan_overlay_rifs :: u32
  cur_max_vxlan_overlay_nexthops :: u32
  next_boot_max_vxlan_overlay_nexthops :: u32
  def_max_vxlan_overlay_nexthops :: u32
  is_deep_buffer_mode_cfg_req :: bool
  def_deep_buffer_mode :: bool
  cur_deep_buffer_mode :: bool
  next_boot_deep_buffer_mode :: bool
  npu_profile_kvpair :: "(string \<times> string) list"

definition nas_switch_info_init :: nas_cmn_sw_init_info_t where
  "nas_switch_info_init = \<lparr>
     num_profiles = 0, num_uft_modes = 0,
     acl_profile_max_ingress_pool_count = 0, acl_profile_max_egress_pool_count = 0,
     profiles = [], current_profile = [], next_boot_profile = [], def_profile = [],
     uft_info = [], acl_groups = [], acl_profile_valid = False,
     current_uftmode = 0, next_boot_uftmode = 0, def_uftmode = 0,
     cur_max_ecmp_per_grp = 0, next_boot_max_ecmp_per_grp = 0, def_max_ecmp_per_grp = 0,
     is_ipv6_ext_prefix_cfg_req = 0, def_ipv6_ext_prefix_routes = 0, max_ipv6_ext_prefix_routes = 0,
     cur_ipv6_ext_prefix_routes = 0, next_ipv6_ext_prefix_routes = 0,
     ipv6_ext_prefix_route_blk_size = 0,
     rif_table_size = 0, l3_nexthop_table_size = 0, rif_block_size = 0, l3_nexthop_block_size = 0,
     cur_vxlan_riot_enable = False, next_boot_vxlan_riot_enable = False, def_vxlan_riot_enable = False,
     cur_max_vxlan_overlay_rifs = 0, next_boot_max_vxlan_overlay_rifs = 0,
     def_max_vxlan_overlay_rifs = 0,
     cur_max_vxlan_overlay_nexthops = 0, next_boot_max_vxlan_overlay_nexthops = 0,
     def_max_vxlan_overlay_nexthops = 0,
     is_deep_buffer_mode_cfg_req = False, def_deep_buffer_mode = False,
     cur_deep_buffer_mode = False, next_boot_deep_buffer_mode = False,
     npu_profile_kvpair = []\<rparr>"

text \<open>The constants of the generated headers \<open>dell-base-switch-element.h\<close> and \<open>dell-base-acl.h\<close>.\<close>

record sw_consts =
  BASE_SWITCH_UFT_MODE_MIN :: u32
  BASE_SWITCH_UFT_MODE_MAX :: u32
  BASE_ACL_STAGE_INGRESS :: u32
  BASE_ACL_STAGE_EGRESS :: u32

abbreviation PARAM_2 :: t_std_error where
  "PARAM_2 \<equiv> STD_ERR HALCOM PARAM (Priv 2)"

section \<open>Attributes of a node\<close>

definition nas_std_child_node_count_get :: "'n config_api \<Rightarrow> 'n \<Rightarrow> u32" where
  "nas_std_child_node_count_get api node = of_nat (length (config_children api node))"

text \<open>The value of the destination afterwards, from what it was before.\<close>

definition nas_std_cfg_str_attr_update ::
  "'n config_api \<Rightarrow> strcopy \<Rightarrow> 'n \<Rightarrow> string \<Rightarrow> string \<Rightarrow> string" where
  "nas_std_cfg_str_attr_update api cpy node attr dest =
     (case config_attr api node attr of
        None \<Rightarrow> dest
      | Some v \<Rightarrow> cpy v NAS_CMN_PROFILE_NAME_SIZE)"

definition nas_std_cfg_attr_update :: "'n config_api \<Rightarrow> 'n \<Rightarrow> string \<Rightarrow> u32 \<Rightarrow> u32" where
  "nas_std_cfg_attr_update api node attr dest =
     (case config_attr api node attr of None \<Rightarrow> dest | Some v \<Rightarrow> strtoul_u32 v)"

section \<open>Readers\<close>

definition nas_switch_update_profile_info ::
  "'n config_api \<Rightarrow> strcopy \<Rightarrow> bool \<Rightarrow> 'n \<Rightarrow> nas_cmn_sw_init_info_t \<Rightarrow> t_std_error \<times> nas_cmn_sw_init_info_t" where
  "nas_switch_update_profile_info api cpy mem_ok node s =
     (let s1 = s\<lparr>def_profile := nas_std_cfg_str_attr_update api cpy node ''default_profile'' (def_profile s)\<rparr>
      in if nas_std_child_node_count_get api node = 0 then (PARAM_2, s1)
         else if \<not> mem_ok then (PARAM_2, s1\<lparr>profiles := []\<rparr>)
         else
           (let names = map (\<lambda>c. nas_std_cfg_str_attr_update api cpy c ''supported_profile'' [])
                          (config_children api node)
            in (STD_ERR_OK,
                s1\<lparr>profiles := names,
                   current_profile := cpy (def_profile s1) PROFILE_NAME_SIZEOF,
                   num_profiles := of_nat (length names)\<rparr>)))"

text \<open>\<open>find\<close>, then \<open>insert\<close> or an assignment through the iterator.\<close>

definition kv_put :: "string \<Rightarrow> string \<Rightarrow> (string \<times> string) list \<Rightarrow> (string \<times> string) list" where
  "kv_put k v kvs =
     (if k \<in> fst ` set kvs then map (\<lambda>p. if fst p = k then (k, v) else p) kvs
      else insort_key fst (k, v) kvs)"

definition npu_profile_step ::
  "'n config_api \<Rightarrow> 'n \<Rightarrow> (string \<times> string) list \<Rightarrow> (string \<times> string) list" where
  "npu_profile_step api node kvs =
     (case (config_attr api node ''id'', config_attr api node ''value'') of
        (Some k, Some v) \<Rightarrow>
          if length k \<ge> NAS_CMN_NPU_PROFILE_ATTR_SIZE \<or> length v \<ge> NAS_CMN_NPU_PROFILE_ATTR_SIZE
          then kvs else kv_put k v kvs
      | _ \<Rightarrow> kvs)"

definition nas_switch_update_npu_profile_info ::
  "'n config_api \<Rightarrow> 'n \<Rightarrow> nas_cmn_sw_init_info_t \<Rightarrow> t_std_error \<times> nas_cmn_sw_init_info_t" where
  "nas_switch_update_npu_profile_info api node s =
     (if nas_std_child_node_count_get api node = 0 then (STD_ERR HALCOM PARAM Priv_ENOENT, s)
      else (STD_ERR_OK,
            s\<lparr>npu_profile_kvpair :=
                 fold (npu_profile_step api) (config_children api node) (npu_profile_kvpair s)\<rparr>))"

text \<open>
  The iterator behind a key, and the query: an empty name asks for the first pair. The result is
  what the two buffers hold afterwards; \<open>value_ok\<close> is whether the second one is not \<open>NULL\<close>.
\<close>

fun kv_after :: "string \<Rightarrow> (string \<times> string) list \<Rightarrow> (string \<times> string) list" where
  "kv_after k [] = []"
| "kv_after k (p # ps) = (if fst p = k then ps else kv_after k ps)"

definition nas_switch_npu_profile_get_next_value ::
  "strcopy \<Rightarrow> string option \<Rightarrow> bool \<Rightarrow> nas_cmn_sw_init_info_t \<Rightarrow> t_std_error \<times> (string \<times> string) option" where
  "nas_switch_npu_profile_get_next_value cpy variable value_ok s =
     (let out = (\<lambda>p. (STD_ERR_OK, Some (cpy (fst p) NAS_CMN_NPU_PROFILE_ATTR_SIZE,
                                        cpy (snd p) NAS_CMN_NPU_PROFILE_ATTR_SIZE)))
      in case variable of
           None \<Rightarrow> (STD_ERR HALCOM PARAM Priv_ENOENT, None)
         | Some k \<Rightarrow>
           (if \<not> value_ok then (STD_ERR HALCOM PARAM Priv_ENOENT, None)
            else if k = [] then
              (case npu_profile_kvpair s of
                 [] \<Rightarrow> (STD_ERR HALCOM PARAM Priv_ENOENT, None)
               | p # _ \<Rightarrow> out p)
            else if k \<notin> fst ` set (npu_profile_kvpair s) then (STD_ERR HALCOM FAIL (Priv 0), None)
            else
              (case kv_after k (npu_profile_kvpair s) of
                 [] \<Rightarrow> (STD_ERR HALCOM FAIL (Priv 0), None)
               | p # _ \<Rightarrow> out p)))"

text \<open>One element of the UFT array, which \<open>calloc\<close> has set to 0; a mode out of range is 0.\<close>

definition uft_entry :: "'n config_api \<Rightarrow> sw_consts \<Rightarrow> 'n \<Rightarrow> nas_cmn_uft_info_t" where
  "uft_entry api K c =
     (let m = nas_std_cfg_attr_update api c ''mode'' 0
      in if m < BASE_SWITCH_UFT_MODE_MIN K \<or> m > BASE_SWITCH_UFT_MODE_MAX K
         then \<lparr>uft_mode = 0, l2_table_size = 0, l3_route_table_size = 0, l3_host_table_size = 0\<rparr>
         else \<lparr>uft_mode = m,
                l2_table_size = nas_std_cfg_attr_update api c ''l2_max'' 0,
                l3_route_table_size = nas_std_cfg_attr_update api c ''l3_max'' 0,
                l3_host_table_size = nas_std_cfg_attr_update api c ''arp_max'' 0\<rparr>)"

definition nas_switch_update_uft_info ::
  "'n config_api \<Rightarrow> sw_consts \<Rightarrow> bool \<Rightarrow> 'n \<Rightarrow> nas_cmn_sw_init_info_t \<Rightarrow> t_std_error \<times> nas_cmn_sw_init_info_t" where
  "nas_switch_update_uft_info api K mem_ok node s =
     (let s1 = s\<lparr>def_uftmode := nas_std_cfg_attr_update api node ''default_mode'' (def_uftmode s)\<rparr>
      in if nas_std_child_node_count_get api node = 0 then (PARAM_2, s1)
         else if \<not> mem_ok then (PARAM_2, s1\<lparr>uft_info := []\<rparr>)
         else
           (let es = map (uft_entry api K) (config_children api node)
            in (STD_ERR_OK,
                s1\<lparr>uft_info := es, current_uftmode := def_uftmode s1,
                   num_uft_modes := of_nat (length es)\<rparr>)))"

definition nas_switch_update_ecmp_info ::
  "'n config_api \<Rightarrow> 'n \<Rightarrow> nas_cmn_sw_init_info_t \<Rightarrow> t_std_error \<times> nas_cmn_sw_init_info_t" where
  "nas_switch_update_ecmp_info api node s =
     (let s1 = s\<lparr>def_max_ecmp_per_grp :=
          nas_std_cfg_attr_update api node ''default_max_ecmp_per_grp'' (def_max_ecmp_per_grp s)\<rparr>
      in (STD_ERR_OK, s1\<lparr>cur_max_ecmp_per_grp := def_max_ecmp_per_grp s1\<rparr>))"

definition nas_switch_update_ipv6_extended_prefix_info ::
  "'n config_api \<Rightarrow> 'n \<Rightarrow> nas_cmn_sw_init_info_t \<Rightarrow> t_std_error \<times> nas_cmn_sw_init_info_t" where
  "nas_switch_update_ipv6_extended_prefix_info api node s =
     (let s1 = s\<lparr>is_ipv6_ext_prefix_cfg_req :=
          nas_std_cfg_attr_update api node ''config_required'' (is_ipv6_ext_prefix_cfg_req s)\<rparr>
      in if is_ipv6_ext_prefix_cfg_req s1 = 0 then (STD_ERR_OK, s1)
         else
           (let s2 = s1\<lparr>
                def_ipv6_ext_prefix_routes :=
                  nas_std_cfg_attr_update api node ''default_routes'' (def_ipv6_ext_prefix_routes s1),
                max_ipv6_ext_prefix_routes :=
                  nas_std_cfg_attr_update api node ''max_routes'' (max_ipv6_ext_prefix_routes s1),
                ipv6_ext_prefix_route_blk_size :=
                  nas_std_cfg_attr_update api node ''lpm_block_size'' (ipv6_ext_prefix_route_blk_size s1)\<rparr>
            in (STD_ERR_OK,
                s2\<lparr>cur_ipv6_ext_prefix_routes := def_ipv6_ext_prefix_routes s2,
                   next_ipv6_ext_prefix_routes := def_ipv6_ext_prefix_routes s2\<rparr>)))"

definition nas_switch_update_vxlan_riot_info ::
  "'n config_api \<Rightarrow> 'n \<Rightarrow> nas_cmn_sw_init_info_t \<Rightarrow> t_std_error \<times> nas_cmn_sw_init_info_t" where
  "nas_switch_update_vxlan_riot_info api node s =
     (let s1 = s\<lparr>def_vxlan_riot_enable := (nas_std_cfg_attr_update api node ''enable'' 0 \<noteq> 0)\<rparr>
      in if \<not> def_vxlan_riot_enable s1 then (STD_ERR_OK, s1)
         else
           (let s2 = s1\<lparr>
                def_max_vxlan_overlay_rifs :=
                  nas_std_cfg_attr_update api node ''max_overlay_rifs'' (def_max_vxlan_overlay_rifs s1),
                def_max_vxlan_overlay_nexthops :=
                  nas_std_cfg_attr_update api node ''max_overlay_nexthops''
                    (def_max_vxlan_overlay_nexthops s1)\<rparr>
            in (STD_ERR_OK,
                s2\<lparr>cur_vxlan_riot_enable := def_vxlan_riot_enable s2,
                   cur_max_vxlan_overlay_rifs := def_max_vxlan_overlay_rifs s2,
                   cur_max_vxlan_overlay_nexthops := def_max_vxlan_overlay_nexthops s2\<rparr>)))"

definition nas_switch_update_l3_table_size_info ::
  "'n config_api \<Rightarrow> 'n \<Rightarrow> nas_cmn_sw_init_info_t \<Rightarrow> t_std_error \<times> nas_cmn_sw_init_info_t" where
  "nas_switch_update_l3_table_size_info api node s =
     (STD_ERR_OK,
      s\<lparr>rif_table_size := nas_std_cfg_attr_update api node ''max_rifs'' (rif_table_size s),
        rif_block_size := nas_std_cfg_attr_update api node ''rif_block_size'' (rif_block_size s),
        l3_nexthop_table_size := nas_std_cfg_attr_update api node ''max_nexthops'' (l3_nexthop_table_size s),
        l3_nexthop_block_size :=
          nas_std_cfg_attr_update api node ''nexthop_block_size'' (l3_nexthop_block_size s)\<rparr>)"

text \<open>
  The two local variables are not initialised: without the attribute, what is stored is an
  unassigned variable.
\<close>

definition nas_switch_update_deep_buffer_mode_info ::
  "'n config_api \<Rightarrow> 'n \<Rightarrow> nas_cmn_sw_init_info_t \<Rightarrow> fault + (t_std_error \<times> nas_cmn_sw_init_info_t)" where
  "nas_switch_update_deep_buffer_mode_info api node s =
     (case config_attr api node ''config_required'' of
        None \<Rightarrow> Inl Uninitialised
      | Some r \<Rightarrow>
        (let s1 = s\<lparr>is_deep_buffer_mode_cfg_req := (strtoul_u32 r \<noteq> 0)\<rparr>
         in if \<not> is_deep_buffer_mode_cfg_req s1 then Inr (STD_ERR_OK, s1)
            else (case config_attr api node ''default_dbm'' of
                    None \<Rightarrow> Inl Uninitialised
                  | Some d \<Rightarrow>
                    (let s2 = s1\<lparr>def_deep_buffer_mode := (strtoul_u32 d \<noteq> 0)\<rparr>
                     in Inr (STD_ERR_OK,
                          s2\<lparr>cur_deep_buffer_mode := def_deep_buffer_mode s2,
                             next_boot_deep_buffer_mode := def_deep_buffer_mode s2\<rparr>)))))"

end
