(* ===== verification/SwProfileOps.thy ===== *)
theory SwProfileOps
  imports SwProfile
begin

text \<open>
  The operations of \<open>src/src/nas_switch_profile.cpp\<close> on the data of \<open>SwProfile\<close>: the getters,
  the setters of the values for the next boot, and the update of all of them from the startup
  configuration when the switch starts. The configuration data base of the CPS library is a
  parameter: what its startup part returns, and whether a write to its running part succeeds.

  An output argument that the code checks for \<open>NULL\<close> is a flag of the definition (\<open>out\<close>), and
  the value written to it is an option, \<open>None\<close> when the function returns without writing it.
\<close>

section \<open>The configuration data base\<close>

text \<open>
  The attributes of a \<open>BASE_SWITCH_SWITCHING_ENTITIES_SWITCHING_ENTITY\<close> object that the code
  reads or writes, any other one is \<open>OTHER_ATTR\<close>; an object is the list of its attributes.
\<close>

datatype sw_attr =
    SWITCH_ID u32
  | SWITCH_PROFILE string
  | UFT_MODE u32
  | MAX_ECMP_ENTRY_PER_GROUP u32
  | IPV6_EXTENDED_PREFIX_ROUTES u32
  | VXLAN_RIOT_ENABLE u32
  | MAX_VXLAN_OVERLAY_RIFS u32
  | MAX_VXLAN_OVERLAY_NEXTHOPS u32
  | DEEP_BUFFER_MODE_ENABLE u32
  | SUPPORTED_PROFILES string
  | OTHER_ATTR

type_synonym sw_obj = "sw_attr list"

datatype cps_oper = cps_api_oper_DELETE | cps_api_oper_CREATE | cps_api_oper_SET | cps_api_oper_ACTION

text \<open>
  The startup query: \<open>alloc\<close> is whether the list and the key object can be created, \<open>answer\<close>
  what \<open>cps_api_db_get\<close> finds, \<open>None\<close> for any return code but \<open>OK\<close>.
\<close>

definition nas_sw_profile_startup_cps_db_get :: "bool \<Rightarrow> sw_obj list option \<Rightarrow> sw_obj list option" where
  "nas_sw_profile_startup_cps_db_get alloc answer = (if alloc then answer else None)"

text \<open>\<open>cps_api_object_get_data\<close>: the first attribute of the asked kind.\<close>

fun get_data :: "(sw_attr \<Rightarrow> 'a option) \<Rightarrow> sw_obj \<Rightarrow> 'a option" where
  "get_data f [] = None"
| "get_data f (a # as) = (case f a of None \<Rightarrow> get_data f as | Some x \<Rightarrow> Some x)"

fun as_profile :: "sw_attr \<Rightarrow> string option" where
  "as_profile (SWITCH_PROFILE p) = Some p" | "as_profile _ = None"

fun as_uft :: "sw_attr \<Rightarrow> u32 option" where
  "as_uft (UFT_MODE v) = Some v" | "as_uft _ = None"

fun as_ecmp :: "sw_attr \<Rightarrow> u32 option" where
  "as_ecmp (MAX_ECMP_ENTRY_PER_GROUP v) = Some v" | "as_ecmp _ = None"

fun as_ipv6 :: "sw_attr \<Rightarrow> u32 option" where
  "as_ipv6 (IPV6_EXTENDED_PREFIX_ROUTES v) = Some v" | "as_ipv6 _ = None"

fun as_riot :: "sw_attr \<Rightarrow> u32 option" where
  "as_riot (VXLAN_RIOT_ENABLE v) = Some v" | "as_riot _ = None"

fun as_rifs :: "sw_attr \<Rightarrow> u32 option" where
  "as_rifs (MAX_VXLAN_OVERLAY_RIFS v) = Some v" | "as_rifs _ = None"

fun as_nhs :: "sw_attr \<Rightarrow> u32 option" where
  "as_nhs (MAX_VXLAN_OVERLAY_NEXTHOPS v) = Some v" | "as_nhs _ = None"

fun as_dbm :: "sw_attr \<Rightarrow> u32 option" where
  "as_dbm (DEEP_BUFFER_MODE_ENABLE v) = Some v" | "as_dbm _ = None"

text \<open>What the first object of the startup list says; only that object is looked at.\<close>

definition startup_value :: "(sw_attr \<Rightarrow> 'a option) \<Rightarrow> sw_obj list option \<Rightarrow> 'a option" where
  "startup_value f db = (case db of None \<Rightarrow> None | Some [] \<Rightarrow> None | Some (ob # _) \<Rightarrow> get_data f ob)"

abbreviation PARAM_NOTSUPPORTED :: t_std_error where
  "PARAM_NOTSUPPORTED \<equiv> STD_ERR HALCOM PARAM (Priv_code NOTSUPPORTED)"

abbreviation PARAM_PARAM :: t_std_error where
  "PARAM_PARAM \<equiv> STD_ERR HALCOM PARAM (Priv_code PARAM)"

section \<open>Switch profile\<close>

definition nas_sw_profile_current_profile_get ::
  "strcopy \<Rightarrow> bool \<Rightarrow> u32 \<Rightarrow> nas_cmn_sw_init_info_t \<Rightarrow> t_std_error \<times> string option" where
  "nas_sw_profile_current_profile_get cpy out len s =
     (if \<not> out then (PARAM_2, None)
      else if num_profiles s = 0 then (PARAM_2, None)
      else (STD_ERR_OK, Some (cpy (current_profile s) (unat len))))"

text \<open>The \<open>int\<close> length is converted to the \<open>size_t\<close> of the copy.\<close>

definition int_size :: "i32 \<Rightarrow> nat" where
  "int_size len = unat (scast len :: u64)"

definition nas_sw_profile_default_profile_get ::
  "strcopy \<Rightarrow> bool \<Rightarrow> i32 \<Rightarrow> nas_cmn_sw_init_info_t \<Rightarrow> t_std_error \<times> string option" where
  "nas_sw_profile_default_profile_get cpy out len s =
     (if \<not> out then (PARAM_2, None)
      else if num_profiles s = 0 then (PARAM_2, None)
      else (STD_ERR_OK, Some (cpy (def_profile s) (int_size len))))"

text \<open>
  The buffer first receives the default profile; the configured one then replaces it, copied
  with the length of the default one as the size of the buffer.
\<close>

definition nas_sw_profile_conf_profile_get ::
  "strcopy \<Rightarrow> bool \<Rightarrow> i32 \<Rightarrow> sw_obj list option \<Rightarrow> nas_cmn_sw_init_info_t \<Rightarrow> t_std_error \<times> string option" where
  "nas_sw_profile_conf_profile_get cpy out len db s =
     (if \<not> out then (PARAM_2, None)
      else if num_profiles s = 0 then (PARAM_2, None)
      else
        (let conf_profile = cpy (def_profile s) (int_size len)
         in case startup_value as_profile db of
              None \<Rightarrow> (STD_ERR_OK, Some conf_profile)
            | Some nb \<Rightarrow> (STD_ERR_OK, Some (cpy nb (length conf_profile + 1)))))"

text \<open>The attributes that are added to the object, one per profile.\<close>

definition nas_sw_profile_supported_profiles_get :: "nas_cmn_sw_init_info_t \<Rightarrow> t_std_error \<times> sw_attr list" where
  "nas_sw_profile_supported_profiles_get s =
     (if num_profiles s = 0 then (PARAM_2, [])
      else (STD_ERR_OK, map SUPPORTED_PROFILES (take (unat (num_profiles s)) (profiles s))))"

definition nas_sw_profile_supported :: "string option \<Rightarrow> nas_cmn_sw_init_info_t \<Rightarrow> bool" where
  "nas_sw_profile_supported conf_profile s =
     (case conf_profile of
        None \<Rightarrow> False
      | Some p \<Rightarrow>
        (if num_profiles s = 0 then False
         else p \<in> set (take (unat (num_profiles s)) (profiles s))))"

definition nas_sw_profile_conf_profile_set ::
  "strcopy \<Rightarrow> string option \<Rightarrow> cps_oper \<Rightarrow> nas_cmn_sw_init_info_t \<Rightarrow> t_std_error \<times> nas_cmn_sw_init_info_t" where
  "nas_sw_profile_conf_profile_set cpy conf_profile op_type s =
     (if op_type = cps_api_oper_DELETE
      then (STD_ERR_OK, s\<lparr>next_boot_profile := cpy (def_profile s) PROFILE_NAME_SIZEOF\<rparr>)
      else if \<not> nas_sw_profile_supported conf_profile s then (PARAM_2, s)
      else (STD_ERR_OK, s\<lparr>next_boot_profile := cpy (the conf_profile) PROFILE_NAME_SIZEOF\<rparr>))"

definition nas_sw_profile_num_profiles_get ::
  "bool \<Rightarrow> nas_cmn_sw_init_info_t \<Rightarrow> t_std_error \<times> u32 option" where
  "nas_sw_profile_num_profiles_get out s =
     (if \<not> out then (PARAM_2, None) else (STD_ERR_OK, Some (ucast (num_profiles s))))"

section \<open>UFT mode\<close>

abbreviation uft_modes :: "nas_cmn_sw_init_info_t \<Rightarrow> nas_cmn_uft_info_t list" where
  "uft_modes s \<equiv> take (unat (num_uft_modes s)) (uft_info s)"

definition nas_sw_uft_mode_supported :: "sw_consts \<Rightarrow> u32 \<Rightarrow> nas_cmn_sw_init_info_t \<Rightarrow> bool" where
  "nas_sw_uft_mode_supported K mode s =
     (if num_uft_modes s = 0 then False
      else if mode < BASE_SWITCH_UFT_MODE_MIN K \<or> mode > BASE_SWITCH_UFT_MODE_MAX K then False
      else (\<exists>e \<in> set (uft_modes s). uft_mode e = mode))"

definition nas_sw_profile_current_uft_get ::
  "bool \<Rightarrow> nas_cmn_sw_init_info_t \<Rightarrow> t_std_error \<times> u32 option" where
  "nas_sw_profile_current_uft_get out s =
     (if \<not> out then (PARAM_2, None)
      else if num_uft_modes s = 0 then (PARAM_2, None)
      else (STD_ERR_OK, Some (current_uftmode s)))"

definition nas_sw_profile_conf_uft_get ::
  "bool \<Rightarrow> sw_obj list option \<Rightarrow> nas_cmn_sw_init_info_t \<Rightarrow> t_std_error \<times> u32 option" where
  "nas_sw_profile_conf_uft_get out db s =
     (if \<not> out then (PARAM_2, None)
      else if num_uft_modes s = 0 then (PARAM_2, None)
      else (STD_ERR_OK,
            Some (case startup_value as_uft db of None \<Rightarrow> def_uftmode s | Some v \<Rightarrow> v)))"

definition nas_sw_profile_conf_uft_set ::
  "sw_consts \<Rightarrow> u32 \<Rightarrow> cps_oper \<Rightarrow> nas_cmn_sw_init_info_t \<Rightarrow> t_std_error \<times> nas_cmn_sw_init_info_t" where
  "nas_sw_profile_conf_uft_set K conf_uft op_type s =
     (if op_type = cps_api_oper_DELETE then (STD_ERR_OK, s\<lparr>next_boot_uftmode := def_uftmode s\<rparr>)
      else if \<not> nas_sw_uft_mode_supported K conf_uft s then (PARAM_2, s)
      else (STD_ERR_OK, s\<lparr>next_boot_uftmode := conf_uft\<rparr>))"

text \<open>The loop runs to the end: the last entry of the mode is the one that stays.\<close>

definition nas_sw_fill_uft_info ::
  "u32 \<Rightarrow> nas_cmn_sw_init_info_t \<Rightarrow> (u32 \<times> u32 \<times> u32) option" where
  "nas_sw_fill_uft_info mode s =
     fold (\<lambda>e acc. if uft_mode e = mode
                   then Some (l2_table_size e, l3_route_table_size e, l3_host_table_size e) else acc)
       (uft_modes s) None"

definition nas_sw_profile_uft_info_get ::
  "sw_consts \<Rightarrow> u32 \<Rightarrow> bool \<Rightarrow> nas_cmn_sw_init_info_t \<Rightarrow> t_std_error \<times> (u32 \<times> u32 \<times> u32) option" where
  "nas_sw_profile_uft_info_get K mode out s =
     (if \<not> nas_sw_uft_mode_supported K mode s then (PARAM_2, None)
      else if \<not> out then (PARAM_2, None)
      else (STD_ERR_OK, nas_sw_fill_uft_info mode s))"

definition nas_sw_profile_uft_num_modes_get ::
  "bool \<Rightarrow> nas_cmn_sw_init_info_t \<Rightarrow> t_std_error \<times> u32 option" where
  "nas_sw_profile_uft_num_modes_get out s =
     (if num_uft_modes s = 0 then (PARAM_2, None)
      else if \<not> out then (PARAM_2, None)
      else (STD_ERR_OK, Some (ucast (num_uft_modes s))))"

definition nas_sw_profile_uft_default_mode_info_get ::
  "bool \<Rightarrow> nas_cmn_sw_init_info_t \<Rightarrow> t_std_error \<times> u32 option \<times> (u32 \<times> u32 \<times> u32) option" where
  "nas_sw_profile_uft_default_mode_info_get out s =
     (if num_uft_modes s = 0 then (PARAM_2, None, None)
      else if \<not> out then (PARAM_2, None, None)
      else (STD_ERR_OK, Some (def_uftmode s), nas_sw_fill_uft_info (def_uftmode s) s))"

section \<open>ECMP entries per group\<close>

definition NAS_CMN_MAX_ECMP_ENTRIES_PER_GRP_MIN :: u32 where
  "NAS_CMN_MAX_ECMP_ENTRIES_PER_GRP_MIN = 2"

definition NAS_CMN_MAX_ECMP_ENTRIES_PER_GRP_MAX :: u32 where
  "NAS_CMN_MAX_ECMP_ENTRIES_PER_GRP_MAX = 1024"

definition nas_sw_max_ecmp_per_grp_supported :: "u32 \<Rightarrow> bool" where
  "nas_sw_max_ecmp_per_grp_supported v =
     (if v < NAS_CMN_MAX_ECMP_ENTRIES_PER_GRP_MIN \<or> v > NAS_CMN_MAX_ECMP_ENTRIES_PER_GRP_MAX
      then False else True)"

definition nas_sw_profile_cur_max_ecmp_per_grp_get ::
  "bool \<Rightarrow> nas_cmn_sw_init_info_t \<Rightarrow> t_std_error \<times> u32 option" where
  "nas_sw_profile_cur_max_ecmp_per_grp_get out s =
     (if \<not> out then (PARAM_2, None) else (STD_ERR_OK, Some (cur_max_ecmp_per_grp s)))"

definition nas_sw_profile_conf_max_ecmp_per_grp_get ::
  "bool \<Rightarrow> sw_obj list option \<Rightarrow> nas_cmn_sw_init_info_t \<Rightarrow> t_std_error \<times> u32 option" where
  "nas_sw_profile_conf_max_ecmp_per_grp_get out db s =
     (if \<not> out then (PARAM_2, None)
      else (STD_ERR_OK,
            Some (case startup_value as_ecmp db of None \<Rightarrow> def_max_ecmp_per_grp s | Some v \<Rightarrow> v)))"

definition nas_sw_profile_conf_max_ecmp_per_grp_set ::
  "u32 \<Rightarrow> cps_oper \<Rightarrow> nas_cmn_sw_init_info_t \<Rightarrow> t_std_error \<times> nas_cmn_sw_init_info_t" where
  "nas_sw_profile_conf_max_ecmp_per_grp_set conf op_type s =
     (if op_type = cps_api_oper_DELETE
      then (STD_ERR_OK, s\<lparr>next_boot_max_ecmp_per_grp := def_max_ecmp_per_grp s\<rparr>)
      else if \<not> nas_sw_max_ecmp_per_grp_supported conf then (PARAM_2, s)
      else (STD_ERR_OK, s\<lparr>next_boot_max_ecmp_per_grp := conf\<rparr>))"

section \<open>IPv6 extended prefix routes\<close>

definition nas_sw_profile_is_ipv6_ext_prefix_config_required :: "nas_cmn_sw_init_info_t \<Rightarrow> bool" where
  "nas_sw_profile_is_ipv6_ext_prefix_config_required s = (is_ipv6_ext_prefix_cfg_req s \<noteq> 0)"

definition nas_sw_profile_cur_ipv6_ext_prefix_routes_get ::
  "bool \<Rightarrow> nas_cmn_sw_init_info_t \<Rightarrow> t_std_error \<times> u32 option" where
  "nas_sw_profile_cur_ipv6_ext_prefix_routes_get out s =
     (if \<not> nas_sw_profile_is_ipv6_ext_prefix_config_required s then (PARAM_NOTSUPPORTED, None)
      else if \<not> out then (PARAM_PARAM, None)
      else (STD_ERR_OK, Some (cur_ipv6_ext_prefix_routes s)))"

definition nas_sw_profile_max_ipv6_ext_prefix_routes_get ::
  "bool \<Rightarrow> nas_cmn_sw_init_info_t \<Rightarrow> t_std_error \<times> u32 option" where
  "nas_sw_profile_max_ipv6_ext_prefix_routes_get out s =
     (if \<not> nas_sw_profile_is_ipv6_ext_prefix_config_required s then (PARAM_NOTSUPPORTED, None)
      else if \<not> out then (PARAM_PARAM, None)
      else (STD_ERR_OK, Some (max_ipv6_ext_prefix_routes s)))"

definition nas_sw_profile_ipv6_ext_prefix_route_lpm_blk_size_get ::
  "bool \<Rightarrow> nas_cmn_sw_init_info_t \<Rightarrow> t_std_error \<times> u32 option" where
  "nas_sw_profile_ipv6_ext_prefix_route_lpm_blk_size_get out s =
     (if \<not> nas_sw_profile_is_ipv6_ext_prefix_config_required s then (PARAM_NOTSUPPORTED, None)
      else if \<not> out then (PARAM_PARAM, None)
      else (STD_ERR_OK, Some (ipv6_ext_prefix_route_blk_size s)))"

definition nas_sw_profile_conf_ipv6_ext_prefix_routes_get ::
  "bool \<Rightarrow> sw_obj list option \<Rightarrow> nas_cmn_sw_init_info_t \<Rightarrow> t_std_error \<times> u32 option" where
  "nas_sw_profile_conf_ipv6_ext_prefix_routes_get out db s =
     (if \<not> out then (PARAM_PARAM, None)
      else if \<not> nas_sw_profile_is_ipv6_ext_prefix_config_required s then (PARAM_NOTSUPPORTED, None)
      else (STD_ERR_OK,
            Some (case startup_value as_ipv6 db of
                    None \<Rightarrow> def_ipv6_ext_prefix_routes s | Some v \<Rightarrow> v)))"

text \<open>The remainder by a block size of 0 is undefined.\<close>

definition nas_sw_profile_validate_ipv6_ext_prefix_routes_size ::
  "u32 \<Rightarrow> nas_cmn_sw_init_info_t \<Rightarrow> fault + t_std_error" where
  "nas_sw_profile_validate_ipv6_ext_prefix_routes_size routes s =
     (if routes > max_ipv6_ext_prefix_routes s then Inr PARAM_PARAM
      else if ipv6_ext_prefix_route_blk_size s = 0 then Inl Div_By_Zero
      else if routes mod ipv6_ext_prefix_route_blk_size s \<noteq> 0 then Inr PARAM_PARAM
      else Inr STD_ERR_OK)"

definition nas_sw_profile_conf_ipv6_ext_prefix_routes_set ::
  "u32 \<Rightarrow> cps_oper \<Rightarrow> nas_cmn_sw_init_info_t \<Rightarrow> fault + (t_std_error \<times> nas_cmn_sw_init_info_t)" where
  "nas_sw_profile_conf_ipv6_ext_prefix_routes_set conf op_type s =
     (if \<not> nas_sw_profile_is_ipv6_ext_prefix_config_required s then Inr (PARAM_NOTSUPPORTED, s)
      else if op_type = cps_api_oper_DELETE
      then Inr (STD_ERR_OK, s\<lparr>next_ipv6_ext_prefix_routes := def_ipv6_ext_prefix_routes s\<rparr>)
      else (case nas_sw_profile_validate_ipv6_ext_prefix_routes_size conf s of
              Inl f \<Rightarrow> Inl f
            | Inr rc \<Rightarrow>
                (if rc \<noteq> STD_ERR_OK then Inr (rc, s)
                 else Inr (STD_ERR_OK, s\<lparr>next_ipv6_ext_prefix_routes := conf\<rparr>))))"

section \<open>VXLAN RIOT\<close>

definition u32_of_bool :: "bool \<Rightarrow> u32" where
  "u32_of_bool b = (if b then 1 else 0)"

definition nas_sw_profile_vxlan_riot_conf_get ::
  "nas_cmn_sw_init_info_t \<Rightarrow> t_std_error \<times> u32 \<times> u32 \<times> u32" where
  "nas_sw_profile_vxlan_riot_conf_get s =
     (STD_ERR_OK, u32_of_bool (next_boot_vxlan_riot_enable s),
      next_boot_max_vxlan_overlay_rifs s, next_boot_max_vxlan_overlay_nexthops s)"

definition nas_sw_profile_vxlan_riot_status_set ::
  "u32 \<Rightarrow> cps_oper \<Rightarrow> nas_cmn_sw_init_info_t \<Rightarrow> t_std_error \<times> nas_cmn_sw_init_info_t" where
  "nas_sw_profile_vxlan_riot_status_set conf op_type s =
     (if \<not> def_vxlan_riot_enable s then (PARAM_NOTSUPPORTED, s)
      else if op_type = cps_api_oper_DELETE
      then (STD_ERR_OK, s\<lparr>next_boot_vxlan_riot_enable := def_vxlan_riot_enable s\<rparr>)
      else (STD_ERR_OK, s\<lparr>next_boot_vxlan_riot_enable := (conf \<noteq> 0)\<rparr>))"

definition nas_sw_profile_max_vxlan_overlay_rifs_set ::
  "u32 \<Rightarrow> cps_oper \<Rightarrow> nas_cmn_sw_init_info_t \<Rightarrow> t_std_error \<times> nas_cmn_sw_init_info_t" where
  "nas_sw_profile_max_vxlan_overlay_rifs_set conf op_type s =
     (if \<not> def_vxlan_riot_enable s \<or> rif_block_size s = 0 then (PARAM_NOTSUPPORTED, s)
      else if op_type = cps_api_oper_DELETE
      then (STD_ERR_OK, s\<lparr>next_boot_max_vxlan_overlay_rifs := def_max_vxlan_overlay_rifs s\<rparr>)
      else if conf mod rif_block_size s \<noteq> 0 then (PARAM_PARAM, s)
      else (STD_ERR_OK, s\<lparr>next_boot_max_vxlan_overlay_rifs := conf\<rparr>))"

definition nas_sw_profile_max_vxlan_overlay_nhs_set ::
  "u32 \<Rightarrow> cps_oper \<Rightarrow> nas_cmn_sw_init_info_t \<Rightarrow> t_std_error \<times> nas_cmn_sw_init_info_t" where
  "nas_sw_profile_max_vxlan_overlay_nhs_set conf op_type s =
     (if \<not> def_vxlan_riot_enable s \<or> l3_nexthop_block_size s = 0 then (PARAM_NOTSUPPORTED, s)
      else if op_type = cps_api_oper_DELETE
      then (STD_ERR_OK, s\<lparr>next_boot_max_vxlan_overlay_nexthops := def_max_vxlan_overlay_nexthops s\<rparr>)
      else if conf mod l3_nexthop_block_size s \<noteq> 0 then (PARAM_PARAM, s)
      else (STD_ERR_OK, s\<lparr>next_boot_max_vxlan_overlay_nexthops := conf\<rparr>))"

text \<open>The current value and the one for the next boot.\<close>

definition nas_sw_profile_vxlan_riot_status_get ::
  "nas_cmn_sw_init_info_t \<Rightarrow> t_std_error \<times> u32 \<times> u32" where
  "nas_sw_profile_vxlan_riot_status_get s =
     (STD_ERR_OK, u32_of_bool (cur_vxlan_riot_enable s), u32_of_bool (next_boot_vxlan_riot_enable s))"

definition nas_sw_profile_max_vxlan_overlay_rifs_get ::
  "nas_cmn_sw_init_info_t \<Rightarrow> t_std_error \<times> u32 \<times> u32" where
  "nas_sw_profile_max_vxlan_overlay_rifs_get s =
     (STD_ERR_OK, cur_max_vxlan_overlay_rifs s, next_boot_max_vxlan_overlay_rifs s)"

definition nas_sw_profile_max_vxlan_overlay_nhs_get ::
  "nas_cmn_sw_init_info_t \<Rightarrow> t_std_error \<times> u32 \<times> u32" where
  "nas_sw_profile_max_vxlan_overlay_nhs_get s =
     (STD_ERR_OK, cur_max_vxlan_overlay_nexthops s, next_boot_max_vxlan_overlay_nexthops s)"

section \<open>Table sizes\<close>

definition nas_sw_profile_rif_table_size_get ::
  "nas_cmn_sw_init_info_t \<Rightarrow> t_std_error \<times> u32 option" where
  "nas_sw_profile_rif_table_size_get s =
     (if rif_table_size s = 0 then (PARAM_NOTSUPPORTED, None)
      else (STD_ERR_OK, Some (rif_table_size s)))"

definition nas_sw_profile_l3_nexthop_table_size_get ::
  "nas_cmn_sw_init_info_t \<Rightarrow> t_std_error \<times> u32 option" where
  "nas_sw_profile_l3_nexthop_table_size_get s =
     (if l3_nexthop_table_size s = 0 then (PARAM_NOTSUPPORTED, None)
      else (STD_ERR_OK, Some (l3_nexthop_table_size s)))"

section \<open>Deep buffer mode\<close>

definition nas_sw_profile_is_deep_buffer_mode_config_required :: "nas_cmn_sw_init_info_t \<Rightarrow> bool" where
  "nas_sw_profile_is_deep_buffer_mode_config_required s =
     (if is_deep_buffer_mode_cfg_req s then True else False)"

definition nas_sw_profile_cur_deep_buffer_mode_get ::
  "bool \<Rightarrow> nas_cmn_sw_init_info_t \<Rightarrow> t_std_error \<times> bool option" where
  "nas_sw_profile_cur_deep_buffer_mode_get out s =
     (if \<not> nas_sw_profile_is_deep_buffer_mode_config_required s then (PARAM_NOTSUPPORTED, None)
      else if \<not> out then (PARAM_PARAM, None)
      else (STD_ERR_OK, Some (cur_deep_buffer_mode s)))"

definition nas_sw_profile_conf_deep_buffer_mode_get ::
  "bool \<Rightarrow> sw_obj list option \<Rightarrow> nas_cmn_sw_init_info_t \<Rightarrow> t_std_error \<times> bool option" where
  "nas_sw_profile_conf_deep_buffer_mode_get out db s =
     (if \<not> out then (PARAM_PARAM, None)
      else if \<not> nas_sw_profile_is_deep_buffer_mode_config_required s then (PARAM_NOTSUPPORTED, None)
      else (STD_ERR_OK,
            Some (case startup_value as_dbm db of
                    None \<Rightarrow> def_deep_buffer_mode s | Some v \<Rightarrow> v \<noteq> 0)))"

definition nas_sw_profile_conf_deep_buffer_mode_set ::
  "bool \<Rightarrow> nas_cmn_sw_init_info_t \<Rightarrow> t_std_error \<times> nas_cmn_sw_init_info_t" where
  "nas_sw_profile_conf_deep_buffer_mode_set enable s =
     (if \<not> nas_sw_profile_is_deep_buffer_mode_config_required s then (PARAM_NOTSUPPORTED, s)
      else if enable then (STD_ERR_OK, s\<lparr>next_boot_deep_buffer_mode := True\<rparr>)
      else (STD_ERR_OK, s\<lparr>next_boot_deep_buffer_mode := False\<rparr>))"

section \<open>Start of the switch\<close>

text \<open>The flags of the parser that remember which values the data base had.\<close>

record db_found =
  profile_found :: bool
  uft_found :: bool
  ecmp_found :: bool
  ipv6_ext_prefix_found :: bool
  vxlan_riot_conf_found :: bool
  deep_buffer_mode_found :: bool

definition none_found :: db_found where
  "none_found = \<lparr>profile_found = False, uft_found = False, ecmp_found = False,
     ipv6_ext_prefix_found = False, vxlan_riot_conf_found = False, deep_buffer_mode_found = False\<rparr>"

text \<open>One attribute of the data base, then all attributes of all objects.\<close>

fun db_attr ::
  "strcopy \<Rightarrow> sw_attr \<Rightarrow> db_found \<times> nas_cmn_sw_init_info_t \<Rightarrow> db_found \<times> nas_cmn_sw_init_info_t" where
  "db_attr cpy (SWITCH_PROFILE p) (f, s) =
     (f\<lparr>profile_found := True\<rparr>, s\<lparr>next_boot_profile := cpy p PROFILE_NAME_SIZEOF\<rparr>)"
| "db_attr cpy (UFT_MODE v) (f, s) = (f\<lparr>uft_found := True\<rparr>, s\<lparr>next_boot_uftmode := v\<rparr>)"
| "db_attr cpy (MAX_ECMP_ENTRY_PER_GROUP v) (f, s) =
     (f\<lparr>ecmp_found := True\<rparr>, s\<lparr>next_boot_max_ecmp_per_grp := v\<rparr>)"
| "db_attr cpy (IPV6_EXTENDED_PREFIX_ROUTES v) (f, s) =
     (f\<lparr>ipv6_ext_prefix_found := True\<rparr>, s\<lparr>next_ipv6_ext_prefix_routes := v\<rparr>)"
| "db_attr cpy (VXLAN_RIOT_ENABLE v) (f, s) =
     (f\<lparr>vxlan_riot_conf_found := True\<rparr>, s\<lparr>next_boot_vxlan_riot_enable := (v \<noteq> 0)\<rparr>)"
| "db_attr cpy (MAX_VXLAN_OVERLAY_RIFS v) (f, s) = (f, s\<lparr>next_boot_max_vxlan_overlay_rifs := v\<rparr>)"
| "db_attr cpy (MAX_VXLAN_OVERLAY_NEXTHOPS v) (f, s) =
     (f, s\<lparr>next_boot_max_vxlan_overlay_nexthops := v\<rparr>)"
| "db_attr cpy (DEEP_BUFFER_MODE_ENABLE v) (f, s) =
     (f\<lparr>deep_buffer_mode_found := True\<rparr>, s\<lparr>next_boot_deep_buffer_mode := (v \<noteq> 0)\<rparr>)"
| "db_attr cpy _ (f, s) = (f, s)"

definition db_parse ::
  "strcopy \<Rightarrow> sw_obj list \<Rightarrow> nas_cmn_sw_init_info_t \<Rightarrow> db_found \<times> nas_cmn_sw_init_info_t" where
  "db_parse cpy db s = fold (fold (db_attr cpy)) db (none_found, s)"

definition db_defaults ::
  "strcopy \<Rightarrow> db_found \<times> nas_cmn_sw_init_info_t \<Rightarrow> nas_cmn_sw_init_info_t" where
  "db_defaults cpy fs =
     (let (f, s) = fs;
          s = (if profile_found f then s
               else s\<lparr>next_boot_profile := cpy (def_profile s) PROFILE_NAME_SIZEOF\<rparr>);
          s = (if uft_found f then s else s\<lparr>next_boot_uftmode := def_uftmode s\<rparr>);
          s = (if ecmp_found f then s
               else s\<lparr>next_boot_max_ecmp_per_grp := def_max_ecmp_per_grp s\<rparr>);
          s = (if ipv6_ext_prefix_found f then s
               else s\<lparr>next_ipv6_ext_prefix_routes := def_ipv6_ext_prefix_routes s\<rparr>);
          s = (if vxlan_riot_conf_found f then s
               else s\<lparr>next_boot_vxlan_riot_enable := def_vxlan_riot_enable s,
                      next_boot_max_vxlan_overlay_rifs := def_max_vxlan_overlay_rifs s,
                      next_boot_max_vxlan_overlay_nexthops := def_max_vxlan_overlay_nexthops s\<rparr>);
          s = (if deep_buffer_mode_found f then s
               else s\<lparr>next_boot_deep_buffer_mode := def_deep_buffer_mode s\<rparr>)
      in s)"

definition db_current :: "strcopy \<Rightarrow> nas_cmn_sw_init_info_t \<Rightarrow> nas_cmn_sw_init_info_t" where
  "db_current cpy s = s\<lparr>
     current_profile := cpy (next_boot_profile s) PROFILE_NAME_SIZEOF,
     current_uftmode := next_boot_uftmode s,
     cur_max_ecmp_per_grp := next_boot_max_ecmp_per_grp s,
     cur_ipv6_ext_prefix_routes := next_ipv6_ext_prefix_routes s,
     cur_deep_buffer_mode := next_boot_deep_buffer_mode s,
     cur_vxlan_riot_enable := next_boot_vxlan_riot_enable s,
     cur_max_vxlan_overlay_rifs := next_boot_max_vxlan_overlay_rifs s,
     cur_max_vxlan_overlay_nexthops := next_boot_max_vxlan_overlay_nexthops s\<rparr>"

text \<open>The whole update of the state from the list that the startup query returns.\<close>

definition sw_db_update ::
  "strcopy \<Rightarrow> sw_obj list option \<Rightarrow> nas_cmn_sw_init_info_t \<Rightarrow> nas_cmn_sw_init_info_t" where
  "sw_db_update cpy db s =
     (let objs = (case db of None \<Rightarrow> [] | Some os \<Rightarrow> os);
          s0 = s\<lparr>current_profile := [], next_boot_profile := []\<rparr>
      in db_current cpy (db_defaults cpy (db_parse cpy objs s0)))"

text \<open>The object that is written to the running configuration.\<close>

definition running_obj :: "u32 \<Rightarrow> nas_cmn_sw_init_info_t \<Rightarrow> sw_obj" where
  "running_obj sw_id s =
     [SWITCH_ID sw_id]
     @ (if nas_sw_profile_supported (Some (current_profile s)) s
        then [SWITCH_PROFILE (current_profile s)] else [])
     @ [UFT_MODE (current_uftmode s),
        MAX_ECMP_ENTRY_PER_GROUP (cur_max_ecmp_per_grp s),
        IPV6_EXTENDED_PREFIX_ROUTES (cur_ipv6_ext_prefix_routes s),
        VXLAN_RIOT_ENABLE (u32_of_bool (cur_vxlan_riot_enable s)),
        MAX_VXLAN_OVERLAY_RIFS (cur_max_vxlan_overlay_rifs s),
        MAX_VXLAN_OVERLAY_NEXTHOPS (cur_max_vxlan_overlay_nexthops s),
        DEEP_BUFFER_MODE_ENABLE (u32_of_bool (cur_deep_buffer_mode s))]"

end
