(* ===== verification/SwBoot.thy ===== *)
theory SwBoot
  imports SwProfileOps
begin

text \<open>
  The two contracts of the switch profile. A configurable value is set for the next boot only,
  to what a caller asks for when it is allowed and to the default when it is deleted: the
  interface \<open>boot_param\<close>, which every setter of \<open>SwProfileOps\<close> fulfils. When the switch starts, a
  value is the last one of its kind in the data base, or the default: the interface \<open>db_field\<close>,
  which every attribute fulfils. The properties are about any sequence of requests, a start,
  and a start from what the last one saved.
\<close>

section \<open>A value that is set for the next boot\<close>

text \<open>What a sequence of requests leaves, on the state and on the value alone.\<close>

definition boot_run ::
  "('r \<Rightarrow> cps_oper \<Rightarrow> 's \<Rightarrow> t_std_error \<times> 's) \<Rightarrow> ('r \<times> cps_oper) list \<Rightarrow> 's \<Rightarrow> 's" where
  "boot_run setv reqs s = fold (\<lambda>(v, opr) s. snd (setv v opr s)) reqs s"

definition boot_next ::
  "bool \<Rightarrow> ('r \<Rightarrow> bool) \<Rightarrow> ('r \<Rightarrow> 'v) \<Rightarrow> 'v \<Rightarrow> 'r \<times> cps_oper \<Rightarrow> 'v \<Rightarrow> 'v" where
  "boot_next avail ok conv d = (\<lambda>(r, opr) n.
     if \<not> avail then n else if opr = cps_api_oper_DELETE then d else if ok r then conv r else n)"

locale boot_param =
  fixes nxt :: "'s \<Rightarrow> 'v"
    and dflt :: "'s \<Rightarrow> 'v"
    and conv :: "'r \<Rightarrow> 'v"
    and setv :: "'r \<Rightarrow> cps_oper \<Rightarrow> 's \<Rightarrow> t_std_error \<times> 's"
    and avail :: "'s \<Rightarrow> bool"
    and ok :: "'s \<Rightarrow> 'r \<Rightarrow> bool"
    and rest :: "'s \<Rightarrow> 's"
  assumes set_avail: "fst (setv v opr s) = STD_ERR_OK \<longleftrightarrow> avail s \<and> (opr = cps_api_oper_DELETE \<or> ok s v)"
    and set_error: "\<not> (avail s \<and> (opr = cps_api_oper_DELETE \<or> ok s v)) \<Longrightarrow> snd (setv v opr s) = s"
    and set_delete: "avail s \<Longrightarrow> nxt (snd (setv v cps_api_oper_DELETE s)) = dflt s"
    and set_value: "avail s \<Longrightarrow> opr \<noteq> cps_api_oper_DELETE \<Longrightarrow> ok s v \<Longrightarrow> nxt (snd (setv v opr s)) = conv v"
    and set_rest: "rest (snd (setv v opr s)) = rest s"
    and rest_same: "rest s = rest t \<Longrightarrow> dflt s = dflt t \<and> avail s = avail t \<and> ok s = ok t"
begin

lemma set_next: "nxt (snd (setv v opr s)) = boot_next (avail s) (ok s) conv (dflt s) (v, opr) (nxt s)"
  using set_avail [of v opr s] set_error [where v=v and opr=opr and s=s]
    set_delete [of s v] set_value [of s opr v]
  by (cases "opr = cps_api_oper_DELETE") (auto simp: boot_next_def)

lemma run_rest: "rest (boot_run setv reqs s) = rest s"
  by (induction reqs arbitrary: s) (auto simp: boot_run_def set_rest)

lemma run_next:
  "nxt (boot_run setv reqs s) = fold (boot_next (avail s) (ok s) conv (dflt s)) reqs (nxt s)"
proof (induction reqs arbitrary: s)
  case Nil
  then show ?case by (simp add: boot_run_def)
next
  case (Cons r reqs)
  obtain v opr where r: "r = (v, opr)" by (cases r)
  let ?t = "snd (setv v opr s)"
  have same: "dflt ?t = dflt s" "avail ?t = avail s" "ok ?t = ok s"
    using rest_same [OF set_rest [of v opr s]] by simp_all
  have "nxt (boot_run setv (r # reqs) s) = nxt (boot_run setv reqs ?t)"
    by (simp add: boot_run_def r)
  also have "\<dots> = fold (boot_next (avail s) (ok s) conv (dflt s)) reqs (nxt ?t)"
    by (simp add: Cons.IH same)
  finally show ?case by (simp add: r set_next)
qed

text \<open>The value is always the one before, the default, or an allowed one that was asked for.\<close>

lemma run_next_from:
  "nxt (boot_run setv reqs s) \<in> {nxt s, dflt s} \<union> conv ` {v. ok s v \<and> v \<in> fst ` set reqs}"
proof -
  have "fold (boot_next a okf conv d) reqs n \<in> {n, d} \<union> conv ` {v. okf v \<and> v \<in> fst ` set reqs}"
    for a okf d n
  proof (induction reqs arbitrary: n)
    case (Cons r reqs)
    have "boot_next a okf conv d r n \<in> {n, d} \<union> conv ` {v. okf v \<and> v = fst r}"
      by (cases r) (simp add: boot_next_def)
    with Cons.IH [of "boot_next a okf conv d r n"] show ?case by auto
  qed simp
  then show ?thesis by (simp add: run_next)
qed

end

section \<open>A value that the start reads from the data base\<close>

text \<open>The last attribute of a kind in a list of attributes.\<close>

fun last_value :: "('a \<Rightarrow> 'b option) \<Rightarrow> 'a list \<Rightarrow> 'b option" where
  "last_value f [] = None"
| "last_value f (a # as) = (case last_value f as of None \<Rightarrow> f a | Some v \<Rightarrow> Some v)"

locale db_value =
  fixes step :: "'a \<Rightarrow> 'f \<times> 's \<Rightarrow> 'f \<times> 's"
    and kind :: "'a \<Rightarrow> 'b option"
    and conv :: "'b \<Rightarrow> 'v"
    and nxt :: "'s \<Rightarrow> 'v"
  assumes step_next: "nxt (snd (step a p)) = (case kind a of None \<Rightarrow> nxt (snd p) | Some x \<Rightarrow> conv x)"
begin

lemma fold_next:
  "nxt (snd (fold step as p)) = (case last_value kind as of None \<Rightarrow> nxt (snd p) | Some x \<Rightarrow> conv x)"
  by (induction as arbitrary: p) (auto simp: step_next split: option.splits)

end

text \<open>A value with a flag; two attributes have none.\<close>

locale db_field = db_value +
  fixes found :: "'f \<Rightarrow> bool"
  assumes step_found: "found (fst (step a p)) \<longleftrightarrow> found (fst p) \<or> kind a \<noteq> None"
begin

lemma fold_found: "found (fst (fold step as p)) \<longleftrightarrow> found (fst p) \<or> last_value kind as \<noteq> None"
  by (induction as arbitrary: p) (auto simp: step_found split: option.splits)

end

section \<open>The setters fulfil the contract\<close>

interpretation uft: boot_param next_boot_uftmode def_uftmode id "nas_sw_profile_conf_uft_set K"
  "\<lambda>_. True" "\<lambda>s v. nas_sw_uft_mode_supported K v s" "\<lambda>s. s\<lparr>next_boot_uftmode := 0\<rparr>" for K
proof
  fix s t :: nas_cmn_sw_init_info_t
  assume "s\<lparr>next_boot_uftmode := 0\<rparr> = t\<lparr>next_boot_uftmode := 0\<rparr>"
  then show "def_uftmode s = def_uftmode t \<and> True = True \<and>
      (\<lambda>v. nas_sw_uft_mode_supported K v s) = (\<lambda>v. nas_sw_uft_mode_supported K v t)"
    by (cases s, cases t) (simp add: nas_sw_uft_mode_supported_def)
qed (auto simp: nas_sw_profile_conf_uft_set_def)

interpretation ecmp: boot_param next_boot_max_ecmp_per_grp def_max_ecmp_per_grp id
  nas_sw_profile_conf_max_ecmp_per_grp_set "\<lambda>_. True" "\<lambda>s v. nas_sw_max_ecmp_per_grp_supported v"
  "\<lambda>s. s\<lparr>next_boot_max_ecmp_per_grp := 0\<rparr>"
proof
  fix s t :: nas_cmn_sw_init_info_t
  assume "s\<lparr>next_boot_max_ecmp_per_grp := 0\<rparr> = t\<lparr>next_boot_max_ecmp_per_grp := 0\<rparr>"
  then show "def_max_ecmp_per_grp s = def_max_ecmp_per_grp t \<and> True = True \<and>
      nas_sw_max_ecmp_per_grp_supported = nas_sw_max_ecmp_per_grp_supported"
    by (cases s, cases t) simp
qed (auto simp: nas_sw_profile_conf_max_ecmp_per_grp_set_def)

interpretation riot: boot_param next_boot_vxlan_riot_enable def_vxlan_riot_enable
  "\<lambda>v. v \<noteq> 0" nas_sw_profile_vxlan_riot_status_set def_vxlan_riot_enable "\<lambda>s v. True"
  "\<lambda>s. s\<lparr>next_boot_vxlan_riot_enable := False\<rparr>"
proof
  fix s t :: nas_cmn_sw_init_info_t
  assume "s\<lparr>next_boot_vxlan_riot_enable := False\<rparr> = t\<lparr>next_boot_vxlan_riot_enable := False\<rparr>"
  then show "def_vxlan_riot_enable s = def_vxlan_riot_enable t \<and>
      def_vxlan_riot_enable s = def_vxlan_riot_enable t \<and> (\<lambda>v::u32. True) = (\<lambda>v. True)"
    by (cases s, cases t) simp
qed (auto simp: nas_sw_profile_vxlan_riot_status_set_def)

interpretation rifs: boot_param next_boot_max_vxlan_overlay_rifs def_max_vxlan_overlay_rifs id
  nas_sw_profile_max_vxlan_overlay_rifs_set "\<lambda>s. def_vxlan_riot_enable s \<and> rif_block_size s \<noteq> 0"
  "\<lambda>s v. v mod rif_block_size s = 0" "\<lambda>s. s\<lparr>next_boot_max_vxlan_overlay_rifs := 0\<rparr>"
proof
  fix s t :: nas_cmn_sw_init_info_t
  assume "s\<lparr>next_boot_max_vxlan_overlay_rifs := 0\<rparr> = t\<lparr>next_boot_max_vxlan_overlay_rifs := 0\<rparr>"
  then show "def_max_vxlan_overlay_rifs s = def_max_vxlan_overlay_rifs t \<and>
      (def_vxlan_riot_enable s \<and> rif_block_size s \<noteq> 0) =
      (def_vxlan_riot_enable t \<and> rif_block_size t \<noteq> 0) \<and>
      (\<lambda>v. v mod rif_block_size s = 0) = (\<lambda>v. v mod rif_block_size t = 0)"
    by (cases s, cases t) simp
qed (auto simp: nas_sw_profile_max_vxlan_overlay_rifs_set_def)

interpretation nhs: boot_param next_boot_max_vxlan_overlay_nexthops def_max_vxlan_overlay_nexthops id
  nas_sw_profile_max_vxlan_overlay_nhs_set
  "\<lambda>s. def_vxlan_riot_enable s \<and> l3_nexthop_block_size s \<noteq> 0"
  "\<lambda>s v. v mod l3_nexthop_block_size s = 0" "\<lambda>s. s\<lparr>next_boot_max_vxlan_overlay_nexthops := 0\<rparr>"
proof
  fix s t :: nas_cmn_sw_init_info_t
  assume "s\<lparr>next_boot_max_vxlan_overlay_nexthops := 0\<rparr> = t\<lparr>next_boot_max_vxlan_overlay_nexthops := 0\<rparr>"
  then show "def_max_vxlan_overlay_nexthops s = def_max_vxlan_overlay_nexthops t \<and>
      (def_vxlan_riot_enable s \<and> l3_nexthop_block_size s \<noteq> 0) =
      (def_vxlan_riot_enable t \<and> l3_nexthop_block_size t \<noteq> 0) \<and>
      (\<lambda>v. v mod l3_nexthop_block_size s = 0) = (\<lambda>v. v mod l3_nexthop_block_size t = 0)"
    by (cases s, cases t) simp
qed (auto simp: nas_sw_profile_max_vxlan_overlay_nhs_set_def)

text \<open>
  The set of the IPv6 routes faults exactly when it reaches the remainder with a block size of
  0; the contract is that of the calls that return.
\<close>

definition ipv6_set :: "u32 \<Rightarrow> cps_oper \<Rightarrow> nas_cmn_sw_init_info_t \<Rightarrow> t_std_error \<times> nas_cmn_sw_init_info_t" where
  "ipv6_set v opr s =
     (case nas_sw_profile_conf_ipv6_ext_prefix_routes_set v opr s of
        Inl f \<Rightarrow> (PARAM_PARAM, s) | Inr r \<Rightarrow> r)"

lemma ipv6_set_fault:
  "nas_sw_profile_conf_ipv6_ext_prefix_routes_set v opr s =
     (if nas_sw_profile_is_ipv6_ext_prefix_config_required s \<and> opr \<noteq> cps_api_oper_DELETE
         \<and> v \<le> max_ipv6_ext_prefix_routes s \<and> ipv6_ext_prefix_route_blk_size s = 0
      then Inl Div_By_Zero else Inr (ipv6_set v opr s))"
  by (auto simp: ipv6_set_def nas_sw_profile_conf_ipv6_ext_prefix_routes_set_def
      nas_sw_profile_validate_ipv6_ext_prefix_routes_size_def not_less)

definition ipv6_ok :: "nas_cmn_sw_init_info_t \<Rightarrow> u32 \<Rightarrow> bool" where
  "ipv6_ok s v \<longleftrightarrow> v \<le> max_ipv6_ext_prefix_routes s \<and> ipv6_ext_prefix_route_blk_size s \<noteq> 0
     \<and> v mod ipv6_ext_prefix_route_blk_size s = 0"

interpretation ipv6: boot_param next_ipv6_ext_prefix_routes def_ipv6_ext_prefix_routes id ipv6_set
  nas_sw_profile_is_ipv6_ext_prefix_config_required ipv6_ok "\<lambda>s. s\<lparr>next_ipv6_ext_prefix_routes := 0\<rparr>"
proof
  fix s t :: nas_cmn_sw_init_info_t
  assume "s\<lparr>next_ipv6_ext_prefix_routes := 0\<rparr> = t\<lparr>next_ipv6_ext_prefix_routes := 0\<rparr>"
  then show "def_ipv6_ext_prefix_routes s = def_ipv6_ext_prefix_routes t \<and>
      nas_sw_profile_is_ipv6_ext_prefix_config_required s =
      nas_sw_profile_is_ipv6_ext_prefix_config_required t \<and> ipv6_ok s = ipv6_ok t"
    by (cases s, cases t)
      (simp add: fun_eq_iff ipv6_ok_def nas_sw_profile_is_ipv6_ext_prefix_config_required_def)
qed (auto simp: ipv6_set_def ipv6_ok_def nas_sw_profile_conf_ipv6_ext_prefix_routes_set_def
    nas_sw_profile_validate_ipv6_ext_prefix_routes_size_def not_less del: mod_0_imp_dvd)

interpretation profile: boot_param next_boot_profile "\<lambda>s. cpy (def_profile s) PROFILE_NAME_SIZEOF"
  "\<lambda>p. cpy (the p) PROFILE_NAME_SIZEOF" "nas_sw_profile_conf_profile_set cpy" "\<lambda>_. True"
  "\<lambda>s p. nas_sw_profile_supported p s" "\<lambda>s. s\<lparr>next_boot_profile := []\<rparr>" for cpy
proof
  fix s t :: nas_cmn_sw_init_info_t
  assume "s\<lparr>next_boot_profile := []\<rparr> = t\<lparr>next_boot_profile := []\<rparr>"
  then have "def_profile s = def_profile t" "num_profiles s = num_profiles t" "profiles s = profiles t"
    by (cases s, cases t, simp)+
  then show "cpy (def_profile s) PROFILE_NAME_SIZEOF = cpy (def_profile t) PROFILE_NAME_SIZEOF \<and>
      True = True \<and> (\<lambda>p. nas_sw_profile_supported p s) = (\<lambda>p. nas_sw_profile_supported p t)"
    by (simp add: nas_sw_profile_supported_def)
qed (auto simp: nas_sw_profile_conf_profile_set_def)

section \<open>The attributes of the data base fulfil the contract\<close>

lemma fold_fold_concat: "fold (fold g) xss p = fold g (concat xss) p"
  by (induction xss arbitrary: p) simp_all

interpretation db_profile: db_field "db_attr cpy" as_profile "\<lambda>p. cpy p PROFILE_NAME_SIZEOF"
  next_boot_profile profile_found for cpy
proof
  fix a p
  show "next_boot_profile (snd (db_attr cpy a p)) = (case as_profile a of
      None \<Rightarrow> next_boot_profile (snd p) | Some x \<Rightarrow> cpy x PROFILE_NAME_SIZEOF)"
    by (cases a; cases p) simp_all
  show "profile_found (fst (db_attr cpy a p)) \<longleftrightarrow> profile_found (fst p) \<or> as_profile a \<noteq> None"
    by (cases a; cases p) simp_all
qed

interpretation db_uft: db_field "db_attr cpy" as_uft id next_boot_uftmode uft_found for cpy
proof
  fix a p
  show "next_boot_uftmode (snd (db_attr cpy a p)) = (case as_uft a of
      None \<Rightarrow> next_boot_uftmode (snd p) | Some x \<Rightarrow> id x)"
    by (cases a; cases p) simp_all
  show "uft_found (fst (db_attr cpy a p)) \<longleftrightarrow> uft_found (fst p) \<or> as_uft a \<noteq> None"
    by (cases a; cases p) simp_all
qed

interpretation db_ecmp: db_field "db_attr cpy" as_ecmp id next_boot_max_ecmp_per_grp ecmp_found for cpy
proof
  fix a p
  show "next_boot_max_ecmp_per_grp (snd (db_attr cpy a p)) = (case as_ecmp a of
      None \<Rightarrow> next_boot_max_ecmp_per_grp (snd p) | Some x \<Rightarrow> id x)"
    by (cases a; cases p) simp_all
  show "ecmp_found (fst (db_attr cpy a p)) \<longleftrightarrow> ecmp_found (fst p) \<or> as_ecmp a \<noteq> None"
    by (cases a; cases p) simp_all
qed

interpretation db_ipv6: db_field "db_attr cpy" as_ipv6 id next_ipv6_ext_prefix_routes
  ipv6_ext_prefix_found for cpy
proof
  fix a p
  show "next_ipv6_ext_prefix_routes (snd (db_attr cpy a p)) = (case as_ipv6 a of
      None \<Rightarrow> next_ipv6_ext_prefix_routes (snd p) | Some x \<Rightarrow> id x)"
    by (cases a; cases p) simp_all
  show "ipv6_ext_prefix_found (fst (db_attr cpy a p)) \<longleftrightarrow>
      ipv6_ext_prefix_found (fst p) \<or> as_ipv6 a \<noteq> None"
    by (cases a; cases p) simp_all
qed

interpretation db_riot: db_field "db_attr cpy" as_riot "\<lambda>v. v \<noteq> 0" next_boot_vxlan_riot_enable
  vxlan_riot_conf_found for cpy
proof
  fix a p
  show "next_boot_vxlan_riot_enable (snd (db_attr cpy a p)) = (case as_riot a of
      None \<Rightarrow> next_boot_vxlan_riot_enable (snd p) | Some x \<Rightarrow> x \<noteq> 0)"
    by (cases a; cases p) simp_all
  show "vxlan_riot_conf_found (fst (db_attr cpy a p)) \<longleftrightarrow>
      vxlan_riot_conf_found (fst p) \<or> as_riot a \<noteq> None"
    by (cases a; cases p) simp_all
qed

interpretation db_dbm: db_field "db_attr cpy" as_dbm "\<lambda>v. v \<noteq> 0" next_boot_deep_buffer_mode
  deep_buffer_mode_found for cpy
proof
  fix a p
  show "next_boot_deep_buffer_mode (snd (db_attr cpy a p)) = (case as_dbm a of
      None \<Rightarrow> next_boot_deep_buffer_mode (snd p) | Some x \<Rightarrow> x \<noteq> 0)"
    by (cases a; cases p) simp_all
  show "deep_buffer_mode_found (fst (db_attr cpy a p)) \<longleftrightarrow>
      deep_buffer_mode_found (fst p) \<or> as_dbm a \<noteq> None"
    by (cases a; cases p) simp_all
qed

interpretation db_rifs: db_value "db_attr cpy" as_rifs id next_boot_max_vxlan_overlay_rifs for cpy
proof
  fix a p
  show "next_boot_max_vxlan_overlay_rifs (snd (db_attr cpy a p)) = (case as_rifs a of
      None \<Rightarrow> next_boot_max_vxlan_overlay_rifs (snd p) | Some x \<Rightarrow> id x)"
    by (cases a; cases p) simp_all
qed

interpretation db_nhs: db_value "db_attr cpy" as_nhs id next_boot_max_vxlan_overlay_nexthops for cpy
proof
  fix a p
  show "next_boot_max_vxlan_overlay_nexthops (snd (db_attr cpy a p)) = (case as_nhs a of
      None \<Rightarrow> next_boot_max_vxlan_overlay_nexthops (snd p) | Some x \<Rightarrow> id x)"
    by (cases a; cases p) simp_all
qed

text \<open>What the file said, and the part of the state that neither the start nor a request sets.\<close>

definition file_data :: "nas_cmn_sw_init_info_t \<Rightarrow> nas_cmn_sw_init_info_t" where
  "file_data s = s\<lparr>
     next_boot_profile := [], next_boot_uftmode := 0, next_boot_max_ecmp_per_grp := 0,
     next_ipv6_ext_prefix_routes := 0, next_boot_vxlan_riot_enable := False,
     next_boot_max_vxlan_overlay_rifs := 0, next_boot_max_vxlan_overlay_nexthops := 0,
     next_boot_deep_buffer_mode := False,
     current_profile := [], current_uftmode := 0, cur_max_ecmp_per_grp := 0,
     cur_ipv6_ext_prefix_routes := 0, cur_vxlan_riot_enable := False,
     cur_max_vxlan_overlay_rifs := 0, cur_max_vxlan_overlay_nexthops := 0,
     cur_deep_buffer_mode := False\<rparr>"

lemma file_data_db_attr: "file_data (snd (db_attr cpy a p)) = file_data (snd p)"
  by (cases a; cases p) (simp_all add: file_data_def)

lemma file_data_fold: "file_data (snd (fold (db_attr cpy) as p)) = file_data (snd p)"
  by (induction as arbitrary: p) (simp_all add: file_data_db_attr)

end
