(* ===== verification/SwBootProps.thy ===== *)
theory SwBootProps
  imports SwBoot
begin

text \<open>
  The properties of the switch profile: what the start of the switch takes from the data base,
  that a restart from the saved running configuration changes nothing, that the getters of the
  configured values predict the next start, and that requests only touch the next boot.
\<close>

section \<open>The start\<close>

definition db_attrs :: "sw_obj list option \<Rightarrow> sw_attr list" where
  "db_attrs db = (case db of None \<Rightarrow> [] | Some os \<Rightarrow> concat os)"

text \<open>A value of the data base: the last one of its kind, or the default.\<close>

definition db_or :: "(sw_attr \<Rightarrow> 'b option) \<Rightarrow> ('b \<Rightarrow> 'v) \<Rightarrow> 'v \<Rightarrow> sw_obj list option \<Rightarrow> 'v" where
  "db_or kind conv d db = (case last_value kind (db_attrs db) of None \<Rightarrow> d | Some x \<Rightarrow> conv x)"

definition cleared :: "nas_cmn_sw_init_info_t \<Rightarrow> nas_cmn_sw_init_info_t" where
  "cleared s = s\<lparr>current_profile := [], next_boot_profile := []\<rparr>"

lemma sw_db_update_alt:
  "sw_db_update cpy db s =
     db_current cpy (db_defaults cpy (fold (db_attr cpy) (db_attrs db) (none_found, cleared s)))"
  by (cases db) (simp_all add: sw_db_update_def db_parse_def fold_fold_concat db_attrs_def cleared_def)

lemma file_data_same:
  assumes "file_data s = file_data t"
  shows "def_profile s = def_profile t" "def_uftmode s = def_uftmode t"
    "def_max_ecmp_per_grp s = def_max_ecmp_per_grp t"
    "def_ipv6_ext_prefix_routes s = def_ipv6_ext_prefix_routes t"
    "def_vxlan_riot_enable s = def_vxlan_riot_enable t"
    "def_max_vxlan_overlay_rifs s = def_max_vxlan_overlay_rifs t"
    "def_max_vxlan_overlay_nexthops s = def_max_vxlan_overlay_nexthops t"
    "def_deep_buffer_mode s = def_deep_buffer_mode t"
    "num_profiles s = num_profiles t" "profiles s = profiles t"
  using assms by (cases s, cases t, simp add: file_data_def)+

text \<open>A state is what the file said and its sixteen values.\<close>

lemma file_data_ext:
  assumes "file_data s = file_data t"
    and "next_boot_profile s = next_boot_profile t" "next_boot_uftmode s = next_boot_uftmode t"
    "next_boot_max_ecmp_per_grp s = next_boot_max_ecmp_per_grp t"
    "next_ipv6_ext_prefix_routes s = next_ipv6_ext_prefix_routes t"
    "next_boot_vxlan_riot_enable s = next_boot_vxlan_riot_enable t"
    "next_boot_max_vxlan_overlay_rifs s = next_boot_max_vxlan_overlay_rifs t"
    "next_boot_max_vxlan_overlay_nexthops s = next_boot_max_vxlan_overlay_nexthops t"
    "next_boot_deep_buffer_mode s = next_boot_deep_buffer_mode t"
    "current_profile s = current_profile t" "current_uftmode s = current_uftmode t"
    "cur_max_ecmp_per_grp s = cur_max_ecmp_per_grp t"
    "cur_ipv6_ext_prefix_routes s = cur_ipv6_ext_prefix_routes t"
    "cur_vxlan_riot_enable s = cur_vxlan_riot_enable t"
    "cur_max_vxlan_overlay_rifs s = cur_max_vxlan_overlay_rifs t"
    "cur_max_vxlan_overlay_nexthops s = cur_max_vxlan_overlay_nexthops t"
    "cur_deep_buffer_mode s = cur_deep_buffer_mode t"
  shows "s = t"
  using assms by (cases s, cases t) (simp add: file_data_def)

lemma file_data_cleared: "file_data (cleared s) = file_data s"
  by (simp add: file_data_def cleared_def)

lemma cleared_tables:
  "next_boot_max_vxlan_overlay_rifs (cleared s) = next_boot_max_vxlan_overlay_rifs s"
  "next_boot_max_vxlan_overlay_nexthops (cleared s) = next_boot_max_vxlan_overlay_nexthops s"
  by (simp_all add: cleared_def)

lemma none_found_flags:
  "\<not> profile_found none_found" "\<not> uft_found none_found" "\<not> ecmp_found none_found"
  "\<not> ipv6_ext_prefix_found none_found" "\<not> vxlan_riot_conf_found none_found"
  "\<not> deep_buffer_mode_found none_found"
  by (simp_all add: none_found_def)

lemma db_defaults_next:
  "next_boot_profile (db_defaults cpy p) =
     (if profile_found (fst p) then next_boot_profile (snd p) else cpy (def_profile (snd p)) PROFILE_NAME_SIZEOF)"
  "next_boot_uftmode (db_defaults cpy p) =
     (if uft_found (fst p) then next_boot_uftmode (snd p) else def_uftmode (snd p))"
  "next_boot_max_ecmp_per_grp (db_defaults cpy p) =
     (if ecmp_found (fst p) then next_boot_max_ecmp_per_grp (snd p) else def_max_ecmp_per_grp (snd p))"
  "next_ipv6_ext_prefix_routes (db_defaults cpy p) =
     (if ipv6_ext_prefix_found (fst p) then next_ipv6_ext_prefix_routes (snd p)
      else def_ipv6_ext_prefix_routes (snd p))"
  "next_boot_vxlan_riot_enable (db_defaults cpy p) =
     (if vxlan_riot_conf_found (fst p) then next_boot_vxlan_riot_enable (snd p)
      else def_vxlan_riot_enable (snd p))"
  "next_boot_max_vxlan_overlay_rifs (db_defaults cpy p) =
     (if vxlan_riot_conf_found (fst p) then next_boot_max_vxlan_overlay_rifs (snd p)
      else def_max_vxlan_overlay_rifs (snd p))"
  "next_boot_max_vxlan_overlay_nexthops (db_defaults cpy p) =
     (if vxlan_riot_conf_found (fst p) then next_boot_max_vxlan_overlay_nexthops (snd p)
      else def_max_vxlan_overlay_nexthops (snd p))"
  "next_boot_deep_buffer_mode (db_defaults cpy p) =
     (if deep_buffer_mode_found (fst p) then next_boot_deep_buffer_mode (snd p)
      else def_deep_buffer_mode (snd p))"
  "file_data (db_defaults cpy p) = file_data (snd p)"
  by (cases p, simp add: db_defaults_def Let_def file_data_def)+

lemma db_current_next:
  "next_boot_profile (db_current cpy s) = next_boot_profile s"
  "next_boot_uftmode (db_current cpy s) = next_boot_uftmode s"
  "next_boot_max_ecmp_per_grp (db_current cpy s) = next_boot_max_ecmp_per_grp s"
  "next_ipv6_ext_prefix_routes (db_current cpy s) = next_ipv6_ext_prefix_routes s"
  "next_boot_vxlan_riot_enable (db_current cpy s) = next_boot_vxlan_riot_enable s"
  "next_boot_max_vxlan_overlay_rifs (db_current cpy s) = next_boot_max_vxlan_overlay_rifs s"
  "next_boot_max_vxlan_overlay_nexthops (db_current cpy s) = next_boot_max_vxlan_overlay_nexthops s"
  "next_boot_deep_buffer_mode (db_current cpy s) = next_boot_deep_buffer_mode s"
  "file_data (db_current cpy s) = file_data s"
  by (simp_all add: db_current_def file_data_def)

text \<open>The flags and the defaults that the parser hands on.\<close>

lemma parsed_defaults:
  fixes s :: nas_cmn_sw_init_info_t and cpy :: strcopy and as :: "sw_attr list"
  defines "t \<equiv> snd (fold (db_attr cpy) as (none_found, cleared s))"
  shows "def_profile t = def_profile s" "def_uftmode t = def_uftmode s"
    "def_max_ecmp_per_grp t = def_max_ecmp_per_grp s"
    "def_ipv6_ext_prefix_routes t = def_ipv6_ext_prefix_routes s"
    "def_vxlan_riot_enable t = def_vxlan_riot_enable s"
    "def_max_vxlan_overlay_rifs t = def_max_vxlan_overlay_rifs s"
    "def_max_vxlan_overlay_nexthops t = def_max_vxlan_overlay_nexthops s"
    "def_deep_buffer_mode t = def_deep_buffer_mode s"
proof -
  have "file_data t = file_data s"
    by (simp add: t_def file_data_fold file_data_cleared)
  from file_data_same [OF this]
  show "def_profile t = def_profile s" "def_uftmode t = def_uftmode s"
    "def_max_ecmp_per_grp t = def_max_ecmp_per_grp s"
    "def_ipv6_ext_prefix_routes t = def_ipv6_ext_prefix_routes s"
    "def_vxlan_riot_enable t = def_vxlan_riot_enable s"
    "def_max_vxlan_overlay_rifs t = def_max_vxlan_overlay_rifs s"
    "def_max_vxlan_overlay_nexthops t = def_max_vxlan_overlay_nexthops s"
    "def_deep_buffer_mode t = def_deep_buffer_mode s"
    by simp_all
qed

lemma sw_db_update_file: "file_data (sw_db_update cpy db s) = file_data s"
  by (simp add: sw_db_update_alt db_current_next db_defaults_next file_data_fold file_data_cleared)

lemma sw_db_update_next:
  "next_boot_profile (sw_db_update cpy db s) =
     db_or as_profile (\<lambda>p. cpy p PROFILE_NAME_SIZEOF) (cpy (def_profile s) PROFILE_NAME_SIZEOF) db"
  "next_boot_uftmode (sw_db_update cpy db s) = db_or as_uft id (def_uftmode s) db"
  "next_boot_max_ecmp_per_grp (sw_db_update cpy db s) = db_or as_ecmp id (def_max_ecmp_per_grp s) db"
  "next_ipv6_ext_prefix_routes (sw_db_update cpy db s) =
     db_or as_ipv6 id (def_ipv6_ext_prefix_routes s) db"
  "next_boot_vxlan_riot_enable (sw_db_update cpy db s) =
     db_or as_riot (\<lambda>v. v \<noteq> 0) (def_vxlan_riot_enable s) db"
  "next_boot_deep_buffer_mode (sw_db_update cpy db s) =
     db_or as_dbm (\<lambda>v. v \<noteq> 0) (def_deep_buffer_mode s) db"
  by (auto simp: sw_db_update_alt db_current_next db_defaults_next db_or_def none_found_flags
      parsed_defaults
      db_profile.fold_next db_profile.fold_found db_uft.fold_next db_uft.fold_found
      db_ecmp.fold_next db_ecmp.fold_found db_ipv6.fold_next db_ipv6.fold_found
      db_riot.fold_next db_riot.fold_found db_dbm.fold_next db_dbm.fold_found split: option.split)

text \<open>The two table sizes have no flag of their own: they follow that of the VXLAN switch.\<close>

lemma sw_db_update_next_tables:
  "next_boot_max_vxlan_overlay_rifs (sw_db_update cpy db s) =
     (if last_value as_riot (db_attrs db) = None then def_max_vxlan_overlay_rifs s
      else db_or as_rifs id (next_boot_max_vxlan_overlay_rifs s) db)"
  "next_boot_max_vxlan_overlay_nexthops (sw_db_update cpy db s) =
     (if last_value as_riot (db_attrs db) = None then def_max_vxlan_overlay_nexthops s
      else db_or as_nhs id (next_boot_max_vxlan_overlay_nexthops s) db)"
  by (auto simp: sw_db_update_alt db_current_next db_defaults_next db_or_def none_found_flags
      parsed_defaults cleared_tables
      db_riot.fold_found db_rifs.fold_next db_nhs.fold_next split: option.split)

lemma sw_db_update_current:
  fixes s :: nas_cmn_sw_init_info_t and cpy :: strcopy and db :: "sw_obj list option"
  defines "t \<equiv> sw_db_update cpy db s"
  shows "current_profile t = cpy (next_boot_profile t) PROFILE_NAME_SIZEOF"
    "current_uftmode t = next_boot_uftmode t"
    "cur_max_ecmp_per_grp t = next_boot_max_ecmp_per_grp t"
    "cur_ipv6_ext_prefix_routes t = next_ipv6_ext_prefix_routes t"
    "cur_vxlan_riot_enable t = next_boot_vxlan_riot_enable t"
    "cur_max_vxlan_overlay_rifs t = next_boot_max_vxlan_overlay_rifs t"
    "cur_max_vxlan_overlay_nexthops t = next_boot_max_vxlan_overlay_nexthops t"
    "cur_deep_buffer_mode t = next_boot_deep_buffer_mode t"
  by (simp_all add: t_def sw_db_update_alt db_current_def)

lemmas start_facts = sw_db_update_next sw_db_update_next_tables sw_db_update_current

text \<open>What the start leaves depends on the file and on the two table sizes, on nothing else.\<close>

lemma sw_db_update_forgets:
  assumes "file_data s = file_data t"
    and "next_boot_max_vxlan_overlay_rifs s = next_boot_max_vxlan_overlay_rifs t"
    "next_boot_max_vxlan_overlay_nexthops s = next_boot_max_vxlan_overlay_nexthops t"
  shows "sw_db_update cpy db s = sw_db_update cpy db t"
  by (rule file_data_ext)
    (simp_all add: sw_db_update_file start_facts assms file_data_same [OF assms(1)])

text \<open>C6: When the switch starts, every configured value is the last one of its kind in the
  startup data base, or the default of \<open>switch.xml\<close> when the data base has none, and it is both
  the current value and the one for the next boot. The two VXLAN table sizes get their default
  only when the data base does not have the VXLAN switch.\<close>

theorem start_takes_last_or_default:
  fixes s :: nas_cmn_sw_init_info_t and cpy :: strcopy and db :: "sw_obj list option"
  defines "t \<equiv> sw_db_update cpy db s"
  shows "current_uftmode t = db_or as_uft id (def_uftmode s) db \<and>
    cur_max_ecmp_per_grp t = db_or as_ecmp id (def_max_ecmp_per_grp s) db \<and>
    cur_ipv6_ext_prefix_routes t = db_or as_ipv6 id (def_ipv6_ext_prefix_routes s) db \<and>
    cur_vxlan_riot_enable t = db_or as_riot (\<lambda>v. v \<noteq> 0) (def_vxlan_riot_enable s) db \<and>
    cur_deep_buffer_mode t = db_or as_dbm (\<lambda>v. v \<noteq> 0) (def_deep_buffer_mode s) db \<and>
    current_profile t = cpy (next_boot_profile t) PROFILE_NAME_SIZEOF \<and>
    next_boot_profile t = db_or as_profile (\<lambda>p. cpy p PROFILE_NAME_SIZEOF)
      (cpy (def_profile s) PROFILE_NAME_SIZEOF) db \<and>
    cur_max_vxlan_overlay_rifs t =
      (if last_value as_riot (db_attrs db) = None then def_max_vxlan_overlay_rifs s
       else db_or as_rifs id (next_boot_max_vxlan_overlay_rifs s) db) \<and>
    cur_max_vxlan_overlay_nexthops t =
      (if last_value as_riot (db_attrs db) = None then def_max_vxlan_overlay_nexthops s
       else db_or as_nhs id (next_boot_max_vxlan_overlay_nexthops s) db) \<and>
    next_boot_uftmode t = current_uftmode t \<and> next_boot_max_ecmp_per_grp t = cur_max_ecmp_per_grp t \<and>
    next_ipv6_ext_prefix_routes t = cur_ipv6_ext_prefix_routes t \<and>
    next_boot_vxlan_riot_enable t = cur_vxlan_riot_enable t \<and>
    next_boot_max_vxlan_overlay_rifs t = cur_max_vxlan_overlay_rifs t \<and>
    next_boot_max_vxlan_overlay_nexthops t = cur_max_vxlan_overlay_nexthops t \<and>
    next_boot_deep_buffer_mode t = cur_deep_buffer_mode t \<and> file_data t = file_data s"
  by (simp add: t_def start_facts sw_db_update_file)

text \<open>A switch that supports one profile, 12 overlay interfaces and next hops by default.\<close>

definition sample_file :: nas_cmn_sw_init_info_t where
  "sample_file = nas_switch_info_init\<lparr>num_profiles := 1, profiles := [''l2''], def_profile := ''l2'',
     def_uftmode := 1, def_max_ecmp_per_grp := 64, def_vxlan_riot_enable := True,
     def_max_vxlan_overlay_rifs := 12, def_max_vxlan_overlay_nexthops := 12\<rparr>"

text \<open>A data base that has the VXLAN switch and not the table sizes leaves both sizes at 0,
  although the file has a default of 12 for them: the defaults are taken only when the switch is
  missing too.\<close>

theorem vxlan_sizes_lose_default:
  "def_max_vxlan_overlay_rifs sample_file = 12 \<and> def_max_vxlan_overlay_nexthops sample_file = 12 \<and>
   cur_vxlan_riot_enable (sw_db_update trunc_copy (Some [[VXLAN_RIOT_ENABLE 1]]) sample_file) \<and>
   cur_max_vxlan_overlay_rifs (sw_db_update trunc_copy (Some [[VXLAN_RIOT_ENABLE 1]]) sample_file) = 0 \<and>
   cur_max_vxlan_overlay_nexthops
     (sw_db_update trunc_copy (Some [[VXLAN_RIOT_ENABLE 1]]) sample_file) = 0"
  by (simp add: start_facts db_or_def db_attrs_def sample_file_def nas_switch_info_init_def)

section \<open>The restart\<close>

text \<open>The single values of the object that is written.\<close>

lemma running_obj_values:
  fixes s :: nas_cmn_sw_init_info_t and i :: u32
  defines "db \<equiv> Some [running_obj i s]"
  shows "db_or as_uft id d1 db = current_uftmode s"
    "db_or as_ecmp id d1 db = cur_max_ecmp_per_grp s"
    "db_or as_ipv6 id d1 db = cur_ipv6_ext_prefix_routes s"
    "db_or as_riot (\<lambda>v. v \<noteq> 0) d2 db = cur_vxlan_riot_enable s"
    "db_or as_dbm (\<lambda>v. v \<noteq> 0) d2 db = cur_deep_buffer_mode s"
    "db_or as_rifs id d1 db = cur_max_vxlan_overlay_rifs s"
    "db_or as_nhs id d1 db = cur_max_vxlan_overlay_nexthops s"
    "last_value as_riot (db_attrs db) \<noteq> None"
    "nas_sw_profile_supported (Some (current_profile s)) s \<Longrightarrow>
       db_or as_profile g d3 db = g (current_profile s)"
  by (simp_all add: db_def db_or_def db_attrs_def running_obj_def u32_of_bool_def)

text \<open>C19: Restarting from the running configuration that a start wrote gives the same current
  values and writes the same object, when the current profile is one of those of the file and
  names are shorter than their array.\<close>

theorem restart_from_saved:
  assumes cpy: "safestrncpy_spec cpy"
    and t: "t = sw_db_update cpy db s"
    and supported: "nas_sw_profile_supported (Some (current_profile t)) t"
    and same_file: "file_data s' = file_data s"
    and t': "t' = sw_db_update cpy (Some [running_obj i t]) s'"
  shows "t' = t \<and> running_obj i t' = running_obj i t"
proof -
  have len: "length (current_profile t) < PROFILE_NAME_SIZEOF" "length (next_boot_profile t) < PROFILE_NAME_SIZEOF"
    using safestrncpy_length [OF cpy]
    by (auto simp: t start_facts PROFILE_NAME_SIZEOF_def db_or_def split: option.split)
  have id: "cpy (current_profile t) PROFILE_NAME_SIZEOF = current_profile t"
    "current_profile t = next_boot_profile t"
    using safestrncpy_fits [OF cpy len(1)] safestrncpy_fits [OF cpy len(2)]
    by (simp_all add: t sw_db_update_current)
  have same: "file_data t' = file_data t"
    by (simp add: t t' same_file sw_db_update_file)
  note cur = sw_db_update_current [of cpy db s, folded t]
    sw_db_update_current [of cpy "Some [running_obj i t]" s', folded t']
  note nxt = sw_db_update_next [of cpy "Some [running_obj i t]" s', folded t']
    sw_db_update_next_tables [of cpy "Some [running_obj i t]" s', folded t']
  have next_profile: "next_boot_profile t' = next_boot_profile t"
    unfolding nxt running_obj_values(9) [OF supported] using id by simp
  have next_same: "next_boot_uftmode t' = next_boot_uftmode t"
    "next_boot_max_ecmp_per_grp t' = next_boot_max_ecmp_per_grp t"
    "next_ipv6_ext_prefix_routes t' = next_ipv6_ext_prefix_routes t"
    "next_boot_vxlan_riot_enable t' = next_boot_vxlan_riot_enable t"
    "next_boot_max_vxlan_overlay_rifs t' = next_boot_max_vxlan_overlay_rifs t"
    "next_boot_max_vxlan_overlay_nexthops t' = next_boot_max_vxlan_overlay_nexthops t"
    "next_boot_deep_buffer_mode t' = next_boot_deep_buffer_mode t"
    by (simp_all add: nxt running_obj_values cur)
  have "t' = t"
    by (rule file_data_ext [OF same]) (simp_all add: next_profile next_same cur)
  then show ?thesis by simp
qed

lemma sample_started:
  "nas_sw_profile_supported (Some (current_profile (sw_db_update trunc_copy None sample_file)))
     (sw_db_update trunc_copy None sample_file)"
  using file_data_same(9,10) [OF sw_db_update_file [of trunc_copy None sample_file]]
  by (simp add: nas_sw_profile_supported_def start_facts db_or_def db_attrs_def trunc_copy_def
      PROFILE_NAME_SIZEOF_def NAS_CMN_PROFILE_NAME_SIZE_def sample_file_def nas_switch_info_init_def)

theorem restart_from_saved_witness:
  "sw_db_update trunc_copy (Some [running_obj 0 (sw_db_update trunc_copy None sample_file)]) sample_file
     = sw_db_update trunc_copy None sample_file \<and>
   current_profile (sw_db_update trunc_copy None sample_file) = ''l2''"
proof
  show "sw_db_update trunc_copy (Some [running_obj 0 (sw_db_update trunc_copy None sample_file)]) sample_file
     = sw_db_update trunc_copy None sample_file"
    using restart_from_saved [OF trunc_copy_spec refl sample_started refl refl] by blast
  show "current_profile (sw_db_update trunc_copy None sample_file) = ''l2''"
    by (simp add: start_facts db_or_def db_attrs_def trunc_copy_def
      PROFILE_NAME_SIZEOF_def NAS_CMN_PROFILE_NAME_SIZE_def sample_file_def nas_switch_info_init_def)
qed

section \<open>What the getters of the configured values predict\<close>

text \<open>At most one attribute of a kind.\<close>

definition one_of_kind :: "('a \<Rightarrow> 'b option) \<Rightarrow> 'a list \<Rightarrow> bool" where
  "one_of_kind kind as \<longleftrightarrow> length (filter (\<lambda>a. kind a \<noteq> None) as) \<le> 1"

lemma last_value_None: "filter (\<lambda>a. kind a \<noteq> None) as = [] \<Longrightarrow> last_value kind as = None"
  by (induction as) (auto split: if_splits)

lemma one_of_kind_first: "one_of_kind kind as \<Longrightarrow> get_data kind as = last_value kind as"
  by (induction as) (auto simp: one_of_kind_def last_value_None split: option.splits if_splits)

lemma startup_value_start:
  assumes "\<And>os. db = Some os \<Longrightarrow> length os \<le> 1 \<and> list_all (one_of_kind kind) os"
  shows "startup_value kind db = last_value kind (db_attrs db)"
proof (cases db)
  case (Some os)
  then show ?thesis
    using assms [OF Some]
    by (cases os) (auto simp: startup_value_def db_attrs_def one_of_kind_first)
qed (simp add: startup_value_def db_attrs_def)

text \<open>A data base with one object at most, which has each kind once at most.\<close>

definition plain_db :: "sw_obj list option \<Rightarrow> bool" where
  "plain_db db = (case db of None \<Rightarrow> True | Some os \<Rightarrow> length os \<le> 1 \<and>
     list_all (\<lambda>ob. one_of_kind as_profile ob \<and> one_of_kind as_uft ob \<and> one_of_kind as_ecmp ob
       \<and> one_of_kind as_ipv6 ob \<and> one_of_kind as_dbm ob) os)"

lemma plain_startup:
  assumes "plain_db db"
  shows "startup_value as_profile db = last_value as_profile (db_attrs db)"
    "startup_value as_uft db = last_value as_uft (db_attrs db)"
    "startup_value as_ecmp db = last_value as_ecmp (db_attrs db)"
    "startup_value as_ipv6 db = last_value as_ipv6 (db_attrs db)"
    "startup_value as_dbm db = last_value as_dbm (db_attrs db)"
  using assms by (auto intro!: startup_value_start simp: plain_db_def list_all_iff)

text \<open>C22: With a data base that has one object at most, and each kind of attribute once at most in
  it, the getters of the configured UFT mode, ECMP group size, IPv6 extended prefix routes and deep
  buffer mode report what the next start from it will make current, and so does that of the profile
  when the configured name is not longer than the default one and both fit the caller's buffer. The
  getters of the VXLAN values do not look at the data base but at the values kept for the next boot:
  right after a start these are what another start from the same data base makes current.\<close>

theorem conf_get_predicts_start:
  assumes "plain_db db"
  shows "(\<forall>v. nas_sw_profile_conf_uft_get True db s = (STD_ERR_OK, Some v) \<longrightarrow>
            current_uftmode (sw_db_update cpy db s) = v) \<and>
    (\<forall>v. nas_sw_profile_conf_max_ecmp_per_grp_get True db s = (STD_ERR_OK, Some v) \<longrightarrow>
            cur_max_ecmp_per_grp (sw_db_update cpy db s) = v) \<and>
    (\<forall>v. nas_sw_profile_conf_ipv6_ext_prefix_routes_get True db s = (STD_ERR_OK, Some v) \<longrightarrow>
            cur_ipv6_ext_prefix_routes (sw_db_update cpy db s) = v) \<and>
    (\<forall>v. nas_sw_profile_conf_deep_buffer_mode_get True db s = (STD_ERR_OK, Some v) \<longrightarrow>
            cur_deep_buffer_mode (sw_db_update cpy db s) = v) \<and>
    (\<forall>v len. safestrncpy_spec cpy \<and> length (def_profile s) < min (int_size len) PROFILE_NAME_SIZEOF \<and>
       (\<forall>p. last_value as_profile (db_attrs db) = Some p \<longrightarrow> length p \<le> length (def_profile s)) \<and>
       nas_sw_profile_conf_profile_get cpy True len db s = (STD_ERR_OK, Some v) \<longrightarrow>
            current_profile (sw_db_update cpy db s) = v) \<and>
    (let t = sw_db_update cpy db s; u = sw_db_update cpy db t
     in nas_sw_profile_vxlan_riot_conf_get t =
          (STD_ERR_OK, u32_of_bool (cur_vxlan_riot_enable u), cur_max_vxlan_overlay_rifs u,
           cur_max_vxlan_overlay_nexthops u) \<and>
        nas_sw_profile_vxlan_riot_status_get t =
          (STD_ERR_OK, u32_of_bool (cur_vxlan_riot_enable t), u32_of_bool (cur_vxlan_riot_enable u)) \<and>
        nas_sw_profile_max_vxlan_overlay_rifs_get t =
          (STD_ERR_OK, cur_max_vxlan_overlay_rifs t, cur_max_vxlan_overlay_rifs u) \<and>
        nas_sw_profile_max_vxlan_overlay_nhs_get t =
          (STD_ERR_OK, cur_max_vxlan_overlay_nexthops t, cur_max_vxlan_overlay_nexthops u))"
proof -
  note start = start_facts db_or_def plain_startup [OF assms]
  have uft: "nas_sw_profile_conf_uft_get True db s = (STD_ERR_OK, Some v) \<Longrightarrow>
      current_uftmode (sw_db_update cpy db s) = v" for v
    by (auto simp: nas_sw_profile_conf_uft_get_def start split: if_splits option.splits)
  have ecmp: "nas_sw_profile_conf_max_ecmp_per_grp_get True db s = (STD_ERR_OK, Some v) \<Longrightarrow>
      cur_max_ecmp_per_grp (sw_db_update cpy db s) = v" for v
    by (auto simp: nas_sw_profile_conf_max_ecmp_per_grp_get_def start split: if_splits option.splits)
  have ipv6: "nas_sw_profile_conf_ipv6_ext_prefix_routes_get True db s = (STD_ERR_OK, Some v) \<Longrightarrow>
      cur_ipv6_ext_prefix_routes (sw_db_update cpy db s) = v" for v
    by (auto simp: nas_sw_profile_conf_ipv6_ext_prefix_routes_get_def start split: if_splits option.splits)
  have dbm: "nas_sw_profile_conf_deep_buffer_mode_get True db s = (STD_ERR_OK, Some v) \<Longrightarrow>
      cur_deep_buffer_mode (sw_db_update cpy db s) = v" for v
    by (auto simp: nas_sw_profile_conf_deep_buffer_mode_get_def start split: if_splits option.splits)
  have profile: "current_profile (sw_db_update cpy db s) = v"
    if cpy: "safestrncpy_spec cpy" and len: "length (def_profile s) < min (int_size len) PROFILE_NAME_SIZEOF"
      and p: "\<forall>p. last_value as_profile (db_attrs db) = Some p \<longrightarrow> length p \<le> length (def_profile s)"
      and get: "nas_sw_profile_conf_profile_get cpy True len db s = (STD_ERR_OK, Some v)" for v len
    using get len p
    by (auto simp: nas_sw_profile_conf_profile_get_def start safestrncpy_fits [OF cpy]
        split: if_splits option.splits)
  have "file_data (sw_db_update cpy db s) = file_data s" by (rule sw_db_update_file)
  note again = file_data_same [OF this]
  have vxlan: "next_boot_vxlan_riot_enable (sw_db_update cpy db s) =
        cur_vxlan_riot_enable (sw_db_update cpy db (sw_db_update cpy db s))"
    "next_boot_max_vxlan_overlay_rifs (sw_db_update cpy db s) =
        cur_max_vxlan_overlay_rifs (sw_db_update cpy db (sw_db_update cpy db s))"
    "next_boot_max_vxlan_overlay_nexthops (sw_db_update cpy db s) =
        cur_max_vxlan_overlay_nexthops (sw_db_update cpy db (sw_db_update cpy db s))"
    by (simp_all add: start_facts again db_or_def split: option.split)
  show ?thesis
    unfolding Let_def nas_sw_profile_vxlan_riot_conf_get_def nas_sw_profile_vxlan_riot_status_get_def
      nas_sw_profile_max_vxlan_overlay_rifs_get_def nas_sw_profile_max_vxlan_overlay_nhs_get_def
    using uft ecmp ipv6 dbm by (simp add: vxlan sw_db_update_current(5-7)) (use profile in auto)
qed

theorem conf_get_predicts_start_witness:
  "current_uftmode (sw_db_update trunc_copy (Some [[UFT_MODE 3]]) (sample_file\<lparr>num_uft_modes := 1\<rparr>)) = 3"
proof -
  have "plain_db (Some [[UFT_MODE 3]])"
    by (simp add: plain_db_def one_of_kind_def)
  moreover have "nas_sw_profile_conf_uft_get True (Some [[UFT_MODE 3]]) (sample_file\<lparr>num_uft_modes := 1\<rparr>)
      = (STD_ERR_OK, Some 3)"
    by (simp add: nas_sw_profile_conf_uft_get_def startup_value_def)
  ultimately show ?thesis
    using conf_get_predicts_start by blast
qed

text \<open>A configured profile with a longer name than the default one is reported cut: the getter
  copies it with the length of the default name, already in the buffer, as the buffer's size.
  The start uses the whole name.\<close>

theorem conf_profile_get_cut:
  "nas_sw_profile_conf_profile_get trunc_copy True 65 (Some [[SWITCH_PROFILE ''l3_routing'']]) sample_file
     = (STD_ERR_OK, Some ''l3'') \<and>
   current_profile (sw_db_update trunc_copy (Some [[SWITCH_PROFILE ''l3_routing'']]) sample_file)
     = ''l3_routing''"
proof -
  have "int_size 65 = 65" by (simp add: int_size_def)
  then show ?thesis
    by (simp add: nas_sw_profile_conf_profile_get_def startup_value_def trunc_copy_def start_facts
      db_or_def db_attrs_def sample_file_def nas_switch_info_init_def PROFILE_NAME_SIZEOF_def
      NAS_CMN_PROFILE_NAME_SIZE_def)
qed

end
