(* ===== verification/SwRequests.thy ===== *)
theory SwRequests
  imports SwBoot
begin

text \<open>
  The configuration requests that the CPS handlers of the clients make, as one step relation:
  any sequence of them only decides what the next start will use. The contract \<open>boot_param\<close> of
  each value gives what it is after the sequence.
\<close>

datatype conf_req =
    Set_profile "string option" cps_oper
  | Set_uft u32 cps_oper
  | Set_ecmp u32 cps_oper
  | Set_ipv6 u32 cps_oper
  | Set_riot u32 cps_oper
  | Set_rifs u32 cps_oper
  | Set_nhs u32 cps_oper
  | Set_dbm bool

definition conf_step ::
  "sw_consts \<Rightarrow> strcopy \<Rightarrow> conf_req \<Rightarrow> nas_cmn_sw_init_info_t \<Rightarrow> fault + nas_cmn_sw_init_info_t" where
  "conf_step K cpy r s =
     (case r of
        Set_profile p opr \<Rightarrow> Inr (snd (nas_sw_profile_conf_profile_set cpy p opr s))
      | Set_uft v opr \<Rightarrow> Inr (snd (nas_sw_profile_conf_uft_set K v opr s))
      | Set_ecmp v opr \<Rightarrow> Inr (snd (nas_sw_profile_conf_max_ecmp_per_grp_set v opr s))
      | Set_ipv6 v opr \<Rightarrow>
          (case nas_sw_profile_conf_ipv6_ext_prefix_routes_set v opr s of
             Inl f \<Rightarrow> Inl f | Inr (rc, t) \<Rightarrow> Inr t)
      | Set_riot v opr \<Rightarrow> Inr (snd (nas_sw_profile_vxlan_riot_status_set v opr s))
      | Set_rifs v opr \<Rightarrow> Inr (snd (nas_sw_profile_max_vxlan_overlay_rifs_set v opr s))
      | Set_nhs v opr \<Rightarrow> Inr (snd (nas_sw_profile_max_vxlan_overlay_nhs_set v opr s))
      | Set_dbm b \<Rightarrow> Inr (snd (nas_sw_profile_conf_deep_buffer_mode_set b s)))"

fun conf_run ::
  "sw_consts \<Rightarrow> strcopy \<Rightarrow> conf_req list \<Rightarrow> nas_cmn_sw_init_info_t \<Rightarrow> fault + nas_cmn_sw_init_info_t" where
  "conf_run K cpy [] s = Inr s"
| "conf_run K cpy (r # rs) s =
     (case conf_step K cpy r s of Inl f \<Rightarrow> Inl f | Inr t \<Rightarrow> conf_run K cpy rs t)"

text \<open>The state without the values for the next boot.\<close>

definition booted :: "nas_cmn_sw_init_info_t \<Rightarrow> nas_cmn_sw_init_info_t" where
  "booted s = s\<lparr>
     next_boot_profile := [], next_boot_uftmode := 0, next_boot_max_ecmp_per_grp := 0,
     next_ipv6_ext_prefix_routes := 0, next_boot_vxlan_riot_enable := False,
     next_boot_max_vxlan_overlay_rifs := 0, next_boot_max_vxlan_overlay_nexthops := 0,
     next_boot_deep_buffer_mode := False\<rparr>"

section \<open>One request\<close>

lemma booted_absorb:
  "booted (s\<lparr>next_boot_profile := p\<rparr>) = booted s"
  "booted (s\<lparr>next_boot_uftmode := v\<rparr>) = booted s"
  "booted (s\<lparr>next_boot_max_ecmp_per_grp := v\<rparr>) = booted s"
  "booted (s\<lparr>next_ipv6_ext_prefix_routes := v\<rparr>) = booted s"
  "booted (s\<lparr>next_boot_vxlan_riot_enable := b\<rparr>) = booted s"
  "booted (s\<lparr>next_boot_max_vxlan_overlay_rifs := v\<rparr>) = booted s"
  "booted (s\<lparr>next_boot_max_vxlan_overlay_nexthops := v\<rparr>) = booted s"
  "booted (s\<lparr>next_boot_deep_buffer_mode := b\<rparr>) = booted s"
  by (simp_all add: booted_def)

lemmas setter_defs = nas_sw_profile_conf_profile_set_def nas_sw_profile_conf_uft_set_def
  nas_sw_profile_conf_max_ecmp_per_grp_set_def nas_sw_profile_vxlan_riot_status_set_def
  nas_sw_profile_max_vxlan_overlay_rifs_set_def nas_sw_profile_max_vxlan_overlay_nhs_set_def
  nas_sw_profile_conf_deep_buffer_mode_set_def

lemma ipv6_set_eq:
  "snd (ipv6_set v opr s) =
     (if nas_sw_profile_is_ipv6_ext_prefix_config_required s \<and> opr = cps_api_oper_DELETE
      then s\<lparr>next_ipv6_ext_prefix_routes := def_ipv6_ext_prefix_routes s\<rparr>
      else if nas_sw_profile_is_ipv6_ext_prefix_config_required s \<and> ipv6_ok s v
      then s\<lparr>next_ipv6_ext_prefix_routes := v\<rparr> else s)"
  by (auto simp: ipv6_set_def nas_sw_profile_conf_ipv6_ext_prefix_routes_set_def ipv6_ok_def
      nas_sw_profile_validate_ipv6_ext_prefix_routes_size_def not_less del: mod_0_imp_dvd)

lemma conf_step_ipv6: "conf_step K cpy (Set_ipv6 v opr) s = Inr t \<Longrightarrow> t = snd (ipv6_set v opr s)"
  by (auto simp: conf_step_def ipv6_set_fault split: if_splits prod.splits)

lemma conf_step_booted: "conf_step K cpy r s = Inr t \<Longrightarrow> booted t = booted s"
proof (cases r)
  case (Set_ipv6 v opr)
  assume "conf_step K cpy r s = Inr t"
  then show ?thesis
    using conf_step_ipv6 [of K cpy v opr s t] by (simp add: Set_ipv6 ipv6_set_eq booted_absorb)
qed (auto simp: conf_step_def setter_defs booted_absorb)

text \<open>The requests of a kind.\<close>

fun profile_req :: "conf_req \<Rightarrow> (string option \<times> cps_oper) option" where
  "profile_req (Set_profile p opr) = Some (p, opr)" | "profile_req _ = None"

fun uft_req :: "conf_req \<Rightarrow> (u32 \<times> cps_oper) option" where
  "uft_req (Set_uft v opr) = Some (v, opr)" | "uft_req _ = None"

fun ecmp_req :: "conf_req \<Rightarrow> (u32 \<times> cps_oper) option" where
  "ecmp_req (Set_ecmp v opr) = Some (v, opr)" | "ecmp_req _ = None"

fun ipv6_req :: "conf_req \<Rightarrow> (u32 \<times> cps_oper) option" where
  "ipv6_req (Set_ipv6 v opr) = Some (v, opr)" | "ipv6_req _ = None"

fun riot_req :: "conf_req \<Rightarrow> (u32 \<times> cps_oper) option" where
  "riot_req (Set_riot v opr) = Some (v, opr)" | "riot_req _ = None"

fun rifs_req :: "conf_req \<Rightarrow> (u32 \<times> cps_oper) option" where
  "rifs_req (Set_rifs v opr) = Some (v, opr)" | "rifs_req _ = None"

fun nhs_req :: "conf_req \<Rightarrow> (u32 \<times> cps_oper) option" where
  "nhs_req (Set_nhs v opr) = Some (v, opr)" | "nhs_req _ = None"

fun dbm_req :: "conf_req \<Rightarrow> bool option" where
  "dbm_req (Set_dbm b) = Some b" | "dbm_req _ = None"

lemma conf_step_other:
  assumes "conf_step K cpy r s = Inr t"
  shows "(profile_req r = None \<longrightarrow> next_boot_profile t = next_boot_profile s) \<and>
    (uft_req r = None \<longrightarrow> next_boot_uftmode t = next_boot_uftmode s) \<and>
    (ecmp_req r = None \<longrightarrow> next_boot_max_ecmp_per_grp t = next_boot_max_ecmp_per_grp s) \<and>
    (ipv6_req r = None \<longrightarrow> next_ipv6_ext_prefix_routes t = next_ipv6_ext_prefix_routes s) \<and>
    (riot_req r = None \<longrightarrow> next_boot_vxlan_riot_enable t = next_boot_vxlan_riot_enable s) \<and>
    (rifs_req r = None \<longrightarrow> next_boot_max_vxlan_overlay_rifs t = next_boot_max_vxlan_overlay_rifs s) \<and>
    (nhs_req r = None \<longrightarrow> next_boot_max_vxlan_overlay_nexthops t = next_boot_max_vxlan_overlay_nexthops s) \<and>
    (dbm_req r = None \<longrightarrow> next_boot_deep_buffer_mode t = next_boot_deep_buffer_mode s)"
proof (cases r)
  case (Set_ipv6 v opr)
  with assms show ?thesis using conf_step_ipv6 [of K cpy v opr s t] by (simp add: ipv6_set_eq)
qed (use assms [symmetric] in \<open>simp_all add: conf_step_def setter_defs\<close>)

text \<open>
  The contract of a value gives it after one request, whatever its kind.
\<close>

definition on_kind :: "(conf_req \<Rightarrow> 'q option) \<Rightarrow> ('q \<Rightarrow> 'v \<Rightarrow> 'v) \<Rightarrow> conf_req \<Rightarrow> 'v \<Rightarrow> 'v" where
  "on_kind kind g r n = (case kind r of None \<Rightarrow> n | Some q \<Rightarrow> g q n)"

definition profile_spec where
  "profile_spec cpy s = boot_next True (\<lambda>p. nas_sw_profile_supported p s)
     (\<lambda>p. cpy (the p) PROFILE_NAME_SIZEOF) (cpy (def_profile s) PROFILE_NAME_SIZEOF)"

definition uft_spec where
  "uft_spec K s = boot_next True (\<lambda>v. nas_sw_uft_mode_supported K v s) id (def_uftmode s)"

definition ecmp_spec where
  "ecmp_spec s = boot_next True nas_sw_max_ecmp_per_grp_supported id (def_max_ecmp_per_grp s)"

definition ipv6_spec where
  "ipv6_spec s = boot_next (nas_sw_profile_is_ipv6_ext_prefix_config_required s) (ipv6_ok s) id
     (def_ipv6_ext_prefix_routes s)"

definition riot_spec where
  "riot_spec s = boot_next (def_vxlan_riot_enable s) (\<lambda>v::u32. True) (\<lambda>v. v \<noteq> 0) (def_vxlan_riot_enable s)"

definition rifs_spec where
  "rifs_spec s = boot_next (def_vxlan_riot_enable s \<and> rif_block_size s \<noteq> 0)
     (\<lambda>v. v mod rif_block_size s = 0) id (def_max_vxlan_overlay_rifs s)"

definition nhs_spec where
  "nhs_spec s = boot_next (def_vxlan_riot_enable s \<and> l3_nexthop_block_size s \<noteq> 0)
     (\<lambda>v. v mod l3_nexthop_block_size s = 0) id (def_max_vxlan_overlay_nexthops s)"

text \<open>The deep buffer mode has no deletion and no values that are not allowed.\<close>

definition dbm_spec :: "nas_cmn_sw_init_info_t \<Rightarrow> bool \<Rightarrow> bool \<Rightarrow> bool" where
  "dbm_spec s b n = (if is_deep_buffer_mode_cfg_req s then b else n)"

lemma conf_step_next:
  assumes "conf_step K cpy r s = Inr t"
  shows "next_boot_profile t = on_kind profile_req (profile_spec cpy s) r (next_boot_profile s)"
    "next_boot_uftmode t = on_kind uft_req (uft_spec K s) r (next_boot_uftmode s)"
    "next_boot_max_ecmp_per_grp t = on_kind ecmp_req (ecmp_spec s) r (next_boot_max_ecmp_per_grp s)"
    "next_ipv6_ext_prefix_routes t = on_kind ipv6_req (ipv6_spec s) r (next_ipv6_ext_prefix_routes s)"
    "next_boot_vxlan_riot_enable t = on_kind riot_req (riot_spec s) r (next_boot_vxlan_riot_enable s)"
    "next_boot_max_vxlan_overlay_rifs t =
       on_kind rifs_req (rifs_spec s) r (next_boot_max_vxlan_overlay_rifs s)"
    "next_boot_max_vxlan_overlay_nexthops t =
       on_kind nhs_req (nhs_spec s) r (next_boot_max_vxlan_overlay_nexthops s)"
    "next_boot_deep_buffer_mode t = on_kind dbm_req (dbm_spec s) r (next_boot_deep_buffer_mode s)"
proof -
  note other = conf_step_other [OF assms]
  show "next_boot_profile t = on_kind profile_req (profile_spec cpy s) r (next_boot_profile s)"
    using other assms by (cases r)
      (simp_all add: on_kind_def profile_spec_def conf_step_def profile.set_next [symmetric])
  show "next_boot_uftmode t = on_kind uft_req (uft_spec K s) r (next_boot_uftmode s)"
    using other assms by (cases r)
      (simp_all add: on_kind_def uft_spec_def conf_step_def uft.set_next [symmetric])
  show "next_boot_max_ecmp_per_grp t = on_kind ecmp_req (ecmp_spec s) r (next_boot_max_ecmp_per_grp s)"
    using other assms by (cases r)
      (simp_all add: on_kind_def ecmp_spec_def conf_step_def ecmp.set_next [symmetric])
  show "next_ipv6_ext_prefix_routes t = on_kind ipv6_req (ipv6_spec s) r (next_ipv6_ext_prefix_routes s)"
    using other assms conf_step_ipv6 [of K cpy _ _ s t] by (cases r)
      (simp_all add: on_kind_def ipv6_spec_def ipv6.set_next [symmetric])
  show "next_boot_vxlan_riot_enable t = on_kind riot_req (riot_spec s) r (next_boot_vxlan_riot_enable s)"
    using other assms by (cases r)
      (simp_all add: on_kind_def riot_spec_def conf_step_def riot.set_next [symmetric])
  show "next_boot_max_vxlan_overlay_rifs t =
       on_kind rifs_req (rifs_spec s) r (next_boot_max_vxlan_overlay_rifs s)"
    using other assms by (cases r)
      (simp_all add: on_kind_def rifs_spec_def conf_step_def rifs.set_next [symmetric])
  show "next_boot_max_vxlan_overlay_nexthops t =
       on_kind nhs_req (nhs_spec s) r (next_boot_max_vxlan_overlay_nexthops s)"
    using other assms by (cases r)
      (simp_all add: on_kind_def nhs_spec_def conf_step_def nhs.set_next [symmetric])
  show "next_boot_deep_buffer_mode t = on_kind dbm_req (dbm_spec s) r (next_boot_deep_buffer_mode s)"
    using other assms by (cases r)
      (auto simp: on_kind_def dbm_spec_def conf_step_def nas_sw_profile_conf_deep_buffer_mode_set_def
        nas_sw_profile_is_deep_buffer_mode_config_required_def split: if_splits)
qed

section \<open>A sequence of requests\<close>

lemma booted_fields:
  assumes "booted s = booted t"
  shows "def_profile s = def_profile t" "num_profiles s = num_profiles t" "profiles s = profiles t"
    "def_uftmode s = def_uftmode t" "num_uft_modes s = num_uft_modes t" "uft_info s = uft_info t"
    "def_max_ecmp_per_grp s = def_max_ecmp_per_grp t"
    "is_ipv6_ext_prefix_cfg_req s = is_ipv6_ext_prefix_cfg_req t"
    "def_ipv6_ext_prefix_routes s = def_ipv6_ext_prefix_routes t"
    "max_ipv6_ext_prefix_routes s = max_ipv6_ext_prefix_routes t"
    "ipv6_ext_prefix_route_blk_size s = ipv6_ext_prefix_route_blk_size t"
    "def_vxlan_riot_enable s = def_vxlan_riot_enable t" "rif_block_size s = rif_block_size t"
    "l3_nexthop_block_size s = l3_nexthop_block_size t"
    "def_max_vxlan_overlay_rifs s = def_max_vxlan_overlay_rifs t"
    "def_max_vxlan_overlay_nexthops s = def_max_vxlan_overlay_nexthops t"
    "cur_max_ecmp_per_grp s = cur_max_ecmp_per_grp t"
    "is_deep_buffer_mode_cfg_req s = is_deep_buffer_mode_cfg_req t"
  using assms by (cases s, cases t, simp add: booted_def)+

lemma booted_same:
  assumes "booted s = booted t"
  shows "profile_spec cpy s = profile_spec cpy t" "uft_spec K s = uft_spec K t" "ecmp_spec s = ecmp_spec t"
    "ipv6_spec s = ipv6_spec t" "riot_spec s = riot_spec t" "rifs_spec s = rifs_spec t"
    "nhs_spec s = nhs_spec t" "dbm_spec s = dbm_spec t"
proof -
  note same = booted_fields [OF assms]
  have "ipv6_ok s = ipv6_ok t" by (simp add: fun_eq_iff ipv6_ok_def same)
  then show "ipv6_spec s = ipv6_spec t"
    by (simp add: ipv6_spec_def nas_sw_profile_is_ipv6_ext_prefix_config_required_def same)
  have "(\<lambda>p. nas_sw_profile_supported p s) = (\<lambda>p. nas_sw_profile_supported p t)"
    by (simp add: fun_eq_iff nas_sw_profile_supported_def same split: option.split)
  then show "profile_spec cpy s = profile_spec cpy t"
    by (simp add: profile_spec_def same)
qed (simp_all add: uft_spec_def ecmp_spec_def riot_spec_def rifs_spec_def nhs_spec_def
    nas_sw_uft_mode_supported_def booted_fields [OF assms] dbm_spec_def fun_eq_iff)

lemma conf_run_booted: "conf_run K cpy rs s = Inr t \<Longrightarrow> booted t = booted s"
  by (induction rs arbitrary: s) (auto simp: conf_step_booted split: sum.splits)

lemma conf_run_kind:
  assumes step: "\<And>r s t. conf_step K cpy r s = Inr t \<Longrightarrow> nx t = on_kind kind (g s) r (nx s)"
    and same: "\<And>s t. booted s = booted t \<Longrightarrow> g s = g t"
    and run: "conf_run K cpy rs s = Inr t"
  shows "nx t = fold (g s) (List.map_filter kind rs) (nx s)"
  using run
proof (induction rs arbitrary: s)
  case Nil
  then show ?case by (simp add: List.map_filter_def)
next
  case (Cons r rs)
  then obtain u where u: "conf_step K cpy r s = Inr u" and "conf_run K cpy rs u = Inr t"
    by (auto split: sum.splits)
  from Cons.IH [OF this(2)] have "nx t = fold (g u) (List.map_filter kind rs) (nx u)" .
  also have "g u = g s" by (rule same [OF conf_step_booted [OF u]])
  also have "nx u = on_kind kind (g s) r (nx s)" by (rule step [OF u])
  finally show ?case
    by (cases "kind r") (simp_all add: on_kind_def List.map_filter_def)
qed

lemma dbm_fold: "fold (dbm_spec s) bs n = (if is_deep_buffer_mode_cfg_req s then last (n # bs) else n)"
  by (induction bs arbitrary: n) (simp_all add: dbm_spec_def)

text \<open>C7: Any sequence of configuration requests that returns leaves everything but the values for
  the next boot as it was, and each of those is what its own requests, in their order, make of
  the value before: the default after a deletion, the asked value when it is allowed, and no
  change when the request is refused. A refused value never gets into the state. The deep buffer
  mode is what the last request asked, on a switch that has it.\<close>

theorem requests_touch_next_boot_only:
  assumes "conf_run K cpy rs s = Inr t"
  shows "booted t = booted s \<and>
    next_boot_profile t = fold (profile_spec cpy s) (List.map_filter profile_req rs) (next_boot_profile s) \<and>
    next_boot_uftmode t = fold (uft_spec K s) (List.map_filter uft_req rs) (next_boot_uftmode s) \<and>
    next_boot_max_ecmp_per_grp t =
      fold (ecmp_spec s) (List.map_filter ecmp_req rs) (next_boot_max_ecmp_per_grp s) \<and>
    next_ipv6_ext_prefix_routes t =
      fold (ipv6_spec s) (List.map_filter ipv6_req rs) (next_ipv6_ext_prefix_routes s) \<and>
    next_boot_vxlan_riot_enable t =
      fold (riot_spec s) (List.map_filter riot_req rs) (next_boot_vxlan_riot_enable s) \<and>
    next_boot_max_vxlan_overlay_rifs t =
      fold (rifs_spec s) (List.map_filter rifs_req rs) (next_boot_max_vxlan_overlay_rifs s) \<and>
    next_boot_max_vxlan_overlay_nexthops t =
      fold (nhs_spec s) (List.map_filter nhs_req rs) (next_boot_max_vxlan_overlay_nexthops s) \<and>
    next_boot_deep_buffer_mode t =
      (if is_deep_buffer_mode_cfg_req s then last (next_boot_deep_buffer_mode s # List.map_filter dbm_req rs)
       else next_boot_deep_buffer_mode s)"
  using conf_run_booted [OF assms]
    conf_run_kind [where nx = next_boot_profile and g = "profile_spec cpy",
      OF conf_step_next(1) booted_same(1) assms]
    conf_run_kind [where nx = next_boot_uftmode and g = "uft_spec K",
      OF conf_step_next(2) booted_same(2) assms]
    conf_run_kind [where nx = next_boot_max_ecmp_per_grp and g = "ecmp_spec",
      OF conf_step_next(3) booted_same(3) assms]
    conf_run_kind [where nx = next_ipv6_ext_prefix_routes and g = "ipv6_spec",
      OF conf_step_next(4) booted_same(4) assms]
    conf_run_kind [where nx = next_boot_vxlan_riot_enable and g = "riot_spec",
      OF conf_step_next(5) booted_same(5) assms]
    conf_run_kind [where nx = next_boot_max_vxlan_overlay_rifs and g = "rifs_spec",
      OF conf_step_next(6) booted_same(6) assms]
    conf_run_kind [where nx = next_boot_max_vxlan_overlay_nexthops and g = "nhs_spec",
      OF conf_step_next(7) booted_same(7) assms]
    conf_run_kind [where nx = next_boot_deep_buffer_mode and g = "dbm_spec",
      OF conf_step_next(8) booted_same(8) assms]
  by (simp add: dbm_fold)

definition sample_consts :: sw_consts where
  "sample_consts = \<lparr>BASE_SWITCH_UFT_MODE_MIN = 1, BASE_SWITCH_UFT_MODE_MAX = 4,
     BASE_ACL_STAGE_INGRESS = 1, BASE_ACL_STAGE_EGRESS = 2\<rparr>"

theorem requests_touch_next_boot_only_witness:
  "\<exists>t. conf_run sample_consts (\<lambda>s n. take (n - 1) s)
        [Set_ecmp 128 cps_api_oper_SET, Set_ecmp 4096 cps_api_oper_SET] nas_switch_info_init = Inr t \<and>
     next_boot_max_ecmp_per_grp t = 128 \<and> cur_max_ecmp_per_grp t = 0"
proof -
  let ?rs = "[Set_ecmp 128 cps_api_oper_SET, Set_ecmp 4096 cps_api_oper_SET]"
  obtain t where t: "conf_run sample_consts (\<lambda>s n. take (n - 1) s) ?rs nas_switch_info_init = Inr t"
    by (simp add: conf_step_def)
  from requests_touch_next_boot_only [OF t]
  have "booted t = booted nas_switch_info_init" and "next_boot_max_ecmp_per_grp t = 128"
    by (simp_all add: List.map_filter_def ecmp_spec_def boot_next_def
        nas_sw_max_ecmp_per_grp_supported_def NAS_CMN_MAX_ECMP_ENTRIES_PER_GRP_MIN_def
        NAS_CMN_MAX_ECMP_ENTRIES_PER_GRP_MAX_def nas_switch_info_init_def)
  moreover from booted_fields(17) [OF this(1)] have "cur_max_ecmp_per_grp t = 0"
    by (simp add: nas_switch_info_init_def)
  ultimately show ?thesis using t by blast
qed

section \<open>When a request does not return\<close>

text \<open>A request that divides by the block size although it is 0.\<close>

definition divides :: "nas_cmn_sw_init_info_t \<Rightarrow> conf_req \<Rightarrow> bool" where
  "divides s r = (case r of
     Set_ipv6 v opr \<Rightarrow> nas_sw_profile_is_ipv6_ext_prefix_config_required s \<and> opr \<noteq> cps_api_oper_DELETE
       \<and> v \<le> max_ipv6_ext_prefix_routes s \<and> ipv6_ext_prefix_route_blk_size s = 0
   | _ \<Rightarrow> False)"

lemma divides_booted: "booted s = booted t \<Longrightarrow> divides s = divides t"
  using booted_fields [of s t]
  by (simp add: divides_def fun_eq_iff nas_sw_profile_is_ipv6_ext_prefix_config_required_def
      split: conf_req.split)

lemma conf_step_fault: "(\<exists>t. conf_step K cpy r s = Inr t) \<longleftrightarrow> \<not> divides s r"
  by (cases r) (auto simp: conf_step_def divides_def ipv6_set_fault split: prod.split)

text \<open>C36: A sequence of requests returns exactly when none of them asks for a number of IPv6
  extended prefix routes, not above the maximum, on a switch that requires this configuration and
  whose block size is 0: that request divides by the block size.\<close>

theorem requests_return_iff:
  "(\<exists>t. conf_run K cpy rs s = Inr t) \<longleftrightarrow> \<not> list_ex (divides s) rs"
proof (induction rs arbitrary: s)
  case (Cons r rs)
  show ?case
  proof (cases "conf_step K cpy r s")
    case (Inl f)
    then show ?thesis using conf_step_fault [of K cpy r s] by simp
  next
    case (Inr u)
    have "divides u = divides s"
      by (rule divides_booted [OF conf_step_booted [OF Inr]])
    moreover have "\<not> divides s r" using conf_step_fault [of K cpy r s] Inr by blast
    ultimately show ?thesis using Cons.IH [of u] Inr by simp
  qed
qed simp

end
