(* ===== verification/NpuProfile.thy ===== *)
theory NpuProfile
  imports SwProfile
begin

text \<open>
  The key and value pairs of the NPU profile: the list of \<open>SwProfile\<close> is the map that the reader
  of \<open>switch.xml\<close> builds, and the query for the next pair, which the NPU driver calls with the
  key it got last until an error ends the walk, enumerates it.
\<close>

section \<open>The map\<close>

definition kv_inv :: "(string \<times> string) list \<Rightarrow> bool" where
  "kv_inv kvs \<longleftrightarrow> sorted (map fst kvs) \<and> distinct (map fst kvs)"

lemma map_fst_insort: "map fst (insort_key fst p ps) = insort (fst p) (map fst ps)"
  by (induction ps) auto

lemma kv_put_inv: "kv_inv kvs \<Longrightarrow> kv_inv (kv_put k v kvs)"
proof -
  assume inv: "kv_inv kvs"
  show ?thesis
  proof (cases "k \<in> fst ` set kvs")
    case True
    have "map fst (map (\<lambda>p. if fst p = k then (k, v) else p) kvs) = map fst kvs"
      by (auto simp: comp_def)
    then show ?thesis using inv True by (simp only: kv_inv_def kv_put_def if_True)
  next
    case False
    then show ?thesis
      using inv by (simp add: kv_put_def kv_inv_def map_fst_insort sorted_insort distinct_insort)
  qed
qed

lemma map_of_replace: "map_of (map (\<lambda>p. if fst p = k then (k, v) else p) kvs) =
    (if k \<in> fst ` set kvs then (map_of kvs)(k \<mapsto> v) else map_of kvs)"
  by (induction kvs) (auto simp: fun_eq_iff)

lemma map_of_insort: "k \<notin> fst ` set kvs \<Longrightarrow> map_of (insort_key fst (k, v) kvs) = (map_of kvs)(k \<mapsto> v)"
  by (induction kvs) (auto simp: fun_eq_iff)

lemma map_of_kv_put: "map_of (kv_put k v kvs) = (map_of kvs)(k \<mapsto> v)"
  by (simp add: kv_put_def map_of_replace map_of_insort)

text \<open>What one node of the file does to the map, and all of them.\<close>

definition npu_node :: "'n config_api \<Rightarrow> 'n \<Rightarrow> (string \<rightharpoonup> string) \<Rightarrow> (string \<rightharpoonup> string)" where
  "npu_node api c m =
     (case (config_attr api c ''id'', config_attr api c ''value'') of
        (Some k, Some v) \<Rightarrow> if length k < 256 \<and> length v < 256 then m(k \<mapsto> v) else m
      | _ \<Rightarrow> m)"

lemma npu_profile_step_map: "map_of (npu_profile_step api c kvs) = npu_node api c (map_of kvs)"
  by (auto simp: npu_profile_step_def npu_node_def map_of_kv_put NAS_CMN_NPU_PROFILE_ATTR_SIZE_def
      split: option.split)

definition short_pairs :: "(string \<times> string) list \<Rightarrow> bool" where
  "short_pairs kvs \<longleftrightarrow> (\<forall>p \<in> set kvs. length (fst p) < 256 \<and> length (snd p) < 256)"

lemma short_pairs_put:
  "short_pairs kvs \<Longrightarrow> length k < 256 \<Longrightarrow> length v < 256 \<Longrightarrow> short_pairs (kv_put k v kvs)"
  by (auto simp: short_pairs_def kv_put_def set_insort_key)

lemma npu_profile_step_inv:
  assumes "kv_inv kvs" "short_pairs kvs"
  shows "kv_inv (npu_profile_step api c kvs)" "short_pairs (npu_profile_step api c kvs)"
  using assms by (simp_all add: npu_profile_step_def kv_put_inv short_pairs_put not_le
      NAS_CMN_NPU_PROFILE_ATTR_SIZE_def split: option.split)

lemma npu_profile_steps:
  assumes "kv_inv kvs" "short_pairs kvs"
  shows "kv_inv (fold (npu_profile_step api) cs kvs) \<and> short_pairs (fold (npu_profile_step api) cs kvs) \<and>
    map_of (fold (npu_profile_step api) cs kvs) = fold (npu_node api) cs (map_of kvs)"
  using assms
proof (induction cs arbitrary: kvs)
  case (Cons c cs)
  then show ?case
    using Cons.IH [OF npu_profile_step_inv [OF Cons.prems]] by (simp add: npu_profile_step_map)
qed simp

section \<open>The walk\<close>

text \<open>\<open>n\<close> calls at most, each with the key of the last answer.\<close>

fun npu_walk :: "nat \<Rightarrow> strcopy \<Rightarrow> string \<Rightarrow> nas_cmn_sw_init_info_t \<Rightarrow> (string \<times> string) list" where
  "npu_walk 0 cpy k s = []"
| "npu_walk (Suc n) cpy k s =
     (case nas_switch_npu_profile_get_next_value cpy (Some k) True s of
        (STD_ERR_OK, Some p) \<Rightarrow> p # npu_walk n cpy (fst p) s
      | _ \<Rightarrow> [])"

lemma kv_after_split: "k \<notin> fst ` set us \<Longrightarrow> kv_after k (us @ (k, v) # ps) = ps"
  by (induction us) auto

lemma npu_walk_after:
  assumes cpy: "safestrncpy_spec cpy"
    and kvs: "npu_profile_kvpair s = us @ (k, v) # ps" "kv_inv (npu_profile_kvpair s)"
      "short_pairs (npu_profile_kvpair s)"
    and ne: "[] \<notin> fst ` set (npu_profile_kvpair s)"
    and n: "length ps < n"
  shows "npu_walk n cpy k s = ps"
  using kvs(1) n
proof (induction ps arbitrary: us k v n)
  case Nil
  have "kv_after k (npu_profile_kvpair s) = []" "k \<noteq> []" "k \<in> fst ` set (npu_profile_kvpair s)"
    using Nil kvs(2) ne by (auto simp: kv_inv_def intro!: kv_after_split)
  then show ?case using Nil(2)
    by (cases n) (auto simp: nas_switch_npu_profile_get_next_value_def)
next
  case (Cons p ps)
  obtain m where m: "n = Suc m" "length ps < m" using Cons.prems(2) by (cases n) auto
  have k: "kv_after k (npu_profile_kvpair s) = p # ps" "k \<noteq> []" "k \<in> fst ` set (npu_profile_kvpair s)"
    using Cons.prems(1) kvs(2) ne by (auto simp: kv_inv_def intro!: kv_after_split)
  have "length (fst p) < 256" "length (snd p) < 256"
    using kvs(3) Cons.prems(1) by (simp_all add: short_pairs_def)
  then have "nas_switch_npu_profile_get_next_value cpy (Some k) True s = (STD_ERR_OK, Some p)"
    using k safestrncpy_fits [OF cpy]
    by (simp add: nas_switch_npu_profile_get_next_value_def NAS_CMN_NPU_PROFILE_ATTR_SIZE_def)
  moreover have "npu_walk m cpy (fst p) s = ps"
    using Cons.IH [of "us @ [(k, v)]" "fst p" "snd p" m] Cons.prems(1) m(2) by simp
  ultimately show ?case by (simp add: m(1))
qed

lemma npu_walk_all:
  assumes "safestrncpy_spec cpy" "kv_inv (npu_profile_kvpair s)" "short_pairs (npu_profile_kvpair s)"
    "[] \<notin> fst ` set (npu_profile_kvpair s)" "length (npu_profile_kvpair s) < n"
  shows "npu_walk n cpy [] s = npu_profile_kvpair s"
proof (cases "npu_profile_kvpair s")
  case Nil
  then show ?thesis using assms(5) by (cases n) (simp_all add: nas_switch_npu_profile_get_next_value_def)
next
  case (Cons p ps)
  obtain m where m: "n = Suc m" "length ps < m" using assms(5) Cons by (cases n) auto
  have "length (fst p) < 256" "length (snd p) < 256"
    using assms(3) Cons by (simp_all add: short_pairs_def)
  then have "nas_switch_npu_profile_get_next_value cpy (Some []) True s = (STD_ERR_OK, Some p)"
    using Cons safestrncpy_fits [OF assms(1)]
    by (simp add: nas_switch_npu_profile_get_next_value_def NAS_CMN_NPU_PROFILE_ATTR_SIZE_def)
  then show ?thesis
    using npu_walk_after [OF assms(1) _ assms(2-4) m(2), of "[]" "fst p" "snd p"] Cons m(1) by simp
qed

text \<open>After \<open>switch.xml\<close> has been read into an empty profile, the walk from the empty key
  visits every pair of the map that the nodes describe, once, in the order of the keys, and then
  ends: the pairs whose parts are too long are left out and the last value of a key counts. This
  needs that no key is empty.\<close>

theorem npu_profile_walk:
  assumes "safestrncpy_spec cpy"
    and "nas_switch_update_npu_profile_info api node nas_switch_info_init = (STD_ERR_OK, s)"
    and "fold (npu_node api) (config_children api node) Map.empty [] = None"
    and "length (config_children api node) < n"
  shows "map_of (npu_walk n cpy [] s) = fold (npu_node api) (config_children api node) Map.empty \<and>
    sorted (map fst (npu_walk n cpy [] s)) \<and> distinct (map fst (npu_walk n cpy [] s))"
proof -
  let ?cs = "config_children api node"
  have kvs: "npu_profile_kvpair s = fold (npu_profile_step api) ?cs []"
    using assms(2) by (auto simp: nas_switch_update_npu_profile_info_def nas_switch_info_init_def split: if_splits)
  have "kv_inv []" "short_pairs []" by (simp_all add: kv_inv_def short_pairs_def)
  from npu_profile_steps [OF this, of api ?cs]
  have inv: "kv_inv (npu_profile_kvpair s)" "short_pairs (npu_profile_kvpair s)"
    and map: "map_of (npu_profile_kvpair s) = fold (npu_node api) ?cs Map.empty"
    by (simp_all add: kvs)
  have "[] \<notin> fst ` set (npu_profile_kvpair s)"
    using assms(3) by (simp add: map [symmetric] map_of_eq_None_iff)
  moreover have "length (npu_profile_kvpair s) < n"
  proof -
    have "length (npu_profile_step api c xs) \<le> Suc (length xs)" for c xs
      by (auto simp: npu_profile_step_def kv_put_def split: option.split)
    then have "length (fold (npu_profile_step api) cs xs) \<le> length xs + length cs" for cs xs
    proof (induction cs arbitrary: xs)
      case (Cons c cs)
      from Cons.IH [OF Cons.prems, of "npu_profile_step api c xs"] Cons.prems [of c xs]
      show ?case by simp
    qed simp
    from this [of ?cs "[]"] show ?thesis using assms(4) by (simp add: kvs)
  qed
  ultimately have "npu_walk n cpy [] s = npu_profile_kvpair s"
    by (rule npu_walk_all [OF assms(1) inv])
  then show ?thesis using inv(1) map by (simp add: kv_inv_def)
qed

text \<open>A file with two pairs, one of them given twice; the nodes are numbers.\<close>

definition sample_api :: "nat config_api" where
  "sample_api = \<lparr>config_name = (\<lambda>_. ''profile''),
     config_attr = (\<lambda>n a. if n = 0 then None
                         else if a = ''id'' then Some (if n = 1 then ''os'' else ''cpu'')
                         else if a = ''value'' then Some (if n = 2 then ''1'' else ''2'') else None),
     config_children = (\<lambda>n. if n = 0 then [1, 2, 3] else [])\<rparr>"

definition sample_profile :: nas_cmn_sw_init_info_t where
  "sample_profile = snd (nas_switch_update_npu_profile_info sample_api 0 nas_switch_info_init)"

theorem npu_profile_walk_witness:
  "map_of (npu_walk 4 trunc_copy [] sample_profile) = [''os'' \<mapsto> ''2'', ''cpu'' \<mapsto> ''2'']"
proof -
  have "nas_switch_update_npu_profile_info sample_api 0 nas_switch_info_init = (STD_ERR_OK, sample_profile)"
    by (simp add: sample_profile_def nas_switch_update_npu_profile_info_def
        nas_std_child_node_count_get_def sample_api_def)
  moreover have "fold (npu_node sample_api) (config_children sample_api 0) Map.empty =
      [''os'' \<mapsto> ''2'', ''cpu'' \<mapsto> ''2'']"
    by (simp add: sample_api_def npu_node_def fun_eq_iff)
  ultimately show ?thesis
    using npu_profile_walk [OF trunc_copy_spec, of sample_api 0 sample_profile 4]
    by (simp add: sample_api_def)
qed

text \<open>With an empty key in the profile the walk never ends: the empty key is the first one and
  also asks for the first pair, so every call answers with it again.\<close>

theorem npu_walk_stuck_on_empty_key:
  assumes "npu_profile_kvpair s = ([], v) # ps" "length v < 256" "safestrncpy_spec cpy"
  shows "npu_walk n cpy [] s = replicate n ([], v)"
proof (induction n)
  case (Suc n)
  have "nas_switch_npu_profile_get_next_value cpy (Some []) True s = (STD_ERR_OK, Some ([], v))"
    using assms safestrncpy_fits [OF assms(3)]
    by (simp add: nas_switch_npu_profile_get_next_value_def NAS_CMN_NPU_PROFILE_ATTR_SIZE_def)
  with Suc.IH show ?case by simp
qed simp

theorem npu_walk_stuck_on_empty_key_witness:
  "npu_walk 100 trunc_copy []
     (nas_switch_info_init\<lparr>npu_profile_kvpair := [([], ''1''), (''os'', ''2'')]\<rparr>) = replicate 100 ([], ''1'')"
  by (rule npu_walk_stuck_on_empty_key [where ps = "[(''os'', ''2'')]"]) simp_all

end
