(* ===== verification/SwAclProfile.thy ===== *)
theory SwAclProfile
  imports SwProfileOps
begin

text \<open>
  The ACL profile of \<open>src/src/nas_switch_profile.cpp\<close>: the reader of its node, with the locals
  that keep their value from one node to the next, the lookups and setters on the array of
  application groups, the objects that the getters fill, and the update from the startup data
  base. The array has as many elements as the pools of all stages; a group has the index of its
  place in the file.
\<close>

section \<open>The reader\<close>

definition empty_group :: nas_cmn_acl_profile_app_group_info_t where
  "empty_group = \<lparr>num_app = 0, default_pool_count = 0, current_pool_count = 0,
     next_boot_pool_count = 0, depth_per_pool = 0, stage_type = 0, app_group_name = [], app_info = []\<rparr>"

text \<open>The first pass counts the pools: the locals are the stage, the count and the sum.\<close>

definition acl_pool_step ::
  "'n config_api \<Rightarrow> strcopy \<Rightarrow> 'n \<Rightarrow> string \<times> u32 \<times> u32 \<times> nas_cmn_sw_init_info_t \<Rightarrow>
   string \<times> u32 \<times> u32 \<times> nas_cmn_sw_init_info_t" where
  "acl_pool_step api cpy c = (\<lambda>(stage, max_pool, tot, s).
     (let stage' = nas_std_cfg_str_attr_update api cpy c ''type'' stage;
          max_pool' = nas_std_cfg_attr_update api c ''max_pool_avail'' max_pool;
          s' = (if stage' = ''ingress'' then s\<lparr>acl_profile_max_ingress_pool_count := ucast max_pool'\<rparr>
                else if stage' = ''egress'' then s\<lparr>acl_profile_max_egress_pool_count := ucast max_pool'\<rparr>
                else s)
      in (stage', max_pool', tot + max_pool', s')))"

definition acl_app_info :: "'n config_api \<Rightarrow> strcopy \<Rightarrow> 'n \<Rightarrow> nas_cmn_acl_profile_app_info_t" where
  "acl_app_info api cpy c =
     \<lparr>num_units_per_entry = nas_std_cfg_attr_update api c ''num_units_per_entry'' 0,
      app_name = nas_std_cfg_str_attr_update api cpy c ''app'' []\<rparr>"

text \<open>
  The second pass writes the groups: the locals are the two counts and the index. \<open>mem i\<close> is
  whether the allocation of the applications of group \<open>i\<close> succeeds. A group is written in place
  as far as the code gets before it returns; there is no check of the index.
\<close>

type_synonym acl_locals = "u32 \<times> u32 \<times> nat \<times> nas_cmn_sw_init_info_t"

definition acl_group_step ::
  "'n config_api \<Rightarrow> strcopy \<Rightarrow> (nat \<Rightarrow> bool) \<Rightarrow> u32 \<Rightarrow> 'n \<Rightarrow> acl_locals \<Rightarrow> fault + (t_std_error \<times> acl_locals)" where
  "acl_group_step api cpy mem stg g = (\<lambda>(dflt, depth, i, s).
     if i \<ge> length (acl_groups s) then Inl Out_Of_Bounds
     else
       (let dflt' = nas_std_cfg_attr_update api g ''default_pool_count'' dflt;
            depth' = nas_std_cfg_attr_update api g ''depth_per_pool'' depth;
            n = nas_std_child_node_count_get api g;
            e = (acl_groups s ! i)
                  \<lparr>stage_type := ucast stg,
                   app_group_name :=
                     nas_std_cfg_str_attr_update api cpy g ''name'' (app_group_name (acl_groups s ! i)),
                   default_pool_count := ucast dflt', current_pool_count := ucast dflt',
                   next_boot_pool_count := ucast dflt',
                   depth_per_pool := ucast depth', num_app := ucast n\<rparr>;
            put = (\<lambda>e'. s\<lparr>acl_groups := (acl_groups s)[i := e']\<rparr>)
        in if n = 0 then Inr (PARAM_2, dflt', depth', i, put e)
           else if \<not> mem i then Inr (PARAM_2, dflt', depth', i, put (e\<lparr>app_info := []\<rparr>))
           else Inr (STD_ERR_OK, dflt', depth', Suc i,
                     put (e\<lparr>app_info := map (acl_app_info api cpy) (config_children api g)\<rparr>))))"

fun acl_groups_loop ::
  "'n config_api \<Rightarrow> strcopy \<Rightarrow> (nat \<Rightarrow> bool) \<Rightarrow> u32 \<Rightarrow> 'n list \<Rightarrow> acl_locals \<Rightarrow>
   fault + (t_std_error \<times> acl_locals)" where
  "acl_groups_loop api cpy mem stg [] l = Inr (STD_ERR_OK, l)"
| "acl_groups_loop api cpy mem stg (g # gs) l =
     (case acl_group_step api cpy mem stg g l of
        Inl f \<Rightarrow> Inl f
      | Inr (rc, l') \<Rightarrow>
          if rc \<noteq> STD_ERR_OK then Inr (rc, l') else acl_groups_loop api cpy mem stg gs l')"

fun acl_stages_loop ::
  "'n config_api \<Rightarrow> strcopy \<Rightarrow> (nat \<Rightarrow> bool) \<Rightarrow> sw_consts \<Rightarrow> 'n list \<Rightarrow> string \<Rightarrow> u32 \<Rightarrow> acl_locals \<Rightarrow>
   fault + (t_std_error \<times> acl_locals)" where
  "acl_stages_loop api cpy mem K [] stage stg l = Inr (STD_ERR_OK, l)"
| "acl_stages_loop api cpy mem K (c # cs) stage stg l =
     (let stage' = nas_std_cfg_str_attr_update api cpy c ''type'' stage;
          stg' = (if stage' = ''ingress'' then BASE_ACL_STAGE_INGRESS K
                  else if stage' = ''egress'' then BASE_ACL_STAGE_EGRESS K else stg)
      in case acl_groups_loop api cpy mem stg' (config_children api c) l of
           Inl f \<Rightarrow> Inl f
         | Inr (rc, l') \<Rightarrow>
             if rc \<noteq> STD_ERR_OK then Inr (rc, l') else acl_stages_loop api cpy mem K cs stage' stg' l')"

text \<open>The whole reader; \<open>arr_ok\<close> is whether the array of groups can be allocated.\<close>

definition nas_switch_update_acl_profile_info ::
  "'n config_api \<Rightarrow> strcopy \<Rightarrow> sw_consts \<Rightarrow> bool \<Rightarrow> (nat \<Rightarrow> bool) \<Rightarrow> 'n \<Rightarrow> nas_cmn_sw_init_info_t \<Rightarrow>
   fault + (t_std_error \<times> nas_cmn_sw_init_info_t)" where
  "nas_switch_update_acl_profile_info api cpy K arr_ok mem node s =
     (let stages = config_children api node in
      case fold (acl_pool_step api cpy) stages ([], 0, 0, s) of
        (stage, max_pool, tot, s1) \<Rightarrow>
          if \<not> arr_ok then
            Inr (PARAM_2, s1\<lparr>acl_groups := [], acl_profile_max_ingress_pool_count := 0,
                             acl_profile_max_egress_pool_count := 0\<rparr>)
          else
            (let s2 = s1\<lparr>acl_groups := replicate (unat tot) empty_group\<rparr>
             in case acl_stages_loop api cpy mem K stages stage 0 (0, 0, 0, s2) of
                  Inl f \<Rightarrow> Inl f
                | Inr (rc, _, _, _, s3) \<Rightarrow>
                    if rc \<noteq> STD_ERR_OK then Inr (rc, s3)
                    else Inr (STD_ERR_OK, s3\<lparr>acl_profile_valid := True\<rparr>)))"

section \<open>Lookups\<close>

text \<open>The bound of every loop, and the first group of the array that a name selects.\<close>

definition acl_count :: "nas_cmn_sw_init_info_t \<Rightarrow> nat" where
  "acl_count s = unat (acl_profile_max_ingress_pool_count s) + unat (acl_profile_max_egress_pool_count s)"

fun acl_search ::
  "(nas_cmn_acl_profile_app_group_info_t \<Rightarrow> bool) \<Rightarrow> nas_cmn_acl_profile_app_group_info_t list \<Rightarrow>
   nat list \<Rightarrow> fault + nat option" where
  "acl_search P gs [] = Inr None"
| "acl_search P gs (i # is) =
     (if i \<ge> length gs then Inl Out_Of_Bounds
      else if P (gs ! i) then Inr (Some i) else acl_search P gs is)"

definition acl_find :: "string option \<Rightarrow> nas_cmn_sw_init_info_t \<Rightarrow> fault + nat option" where
  "acl_find name s =
     acl_search (\<lambda>g. name = None \<or> name = Some (app_group_name g)) (acl_groups s) [0..<acl_count s]"

definition nas_sw_acl_profile_db_config_supported ::
  "sw_consts \<Rightarrow> string option \<Rightarrow> nas_cmn_sw_init_info_t \<Rightarrow> fault + bool" where
  "nas_sw_acl_profile_db_config_supported K name s =
     (if \<not> acl_profile_valid s then Inr False
      else case acl_find name s of
             Inl f \<Rightarrow> Inl f
           | Inr None \<Rightarrow> Inr False
           | Inr (Some i) \<Rightarrow>
               (let stg = ucast (stage_type (acl_groups s ! i));
                    num_pools = (if stg = BASE_ACL_STAGE_INGRESS K then acl_profile_max_ingress_pool_count s
                                 else if stg = BASE_ACL_STAGE_EGRESS K then acl_profile_max_egress_pool_count s
                                 else 0)
                in Inr (num_pools > 1)))"

definition nas_sw_acl_profile_num_db_get ::
  "bool \<Rightarrow> nas_cmn_sw_init_info_t \<Rightarrow> t_std_error \<times> u32 option" where
  "nas_sw_acl_profile_num_db_get out s =
     (if \<not> out then (PARAM_2, None)
      else if \<not> acl_profile_valid s then (STD_ERR_OK, Some 0)
      else (STD_ERR_OK, Some (of_nat (acl_count s))))"

definition nas_sw_acl_profile_db_get_next ::
  "strcopy \<Rightarrow> string option \<Rightarrow> bool \<Rightarrow> nas_cmn_sw_init_info_t \<Rightarrow>
   fault + (t_std_error \<times> (string \<times> u32) option)" where
  "nas_sw_acl_profile_db_get_next cpy name out s =
     (if \<not> out then Inr (PARAM_2, None)
      else case acl_find name s of
             Inl f \<Rightarrow> Inl f
           | Inr None \<Rightarrow> Inr (PARAM_2, None)
           | Inr (Some i) \<Rightarrow>
               (let j = (if name = None then i else Suc i)
                in if j \<ge> acl_count s then Inr (PARAM_2, None)
                   else if j \<ge> length (acl_groups s) then Inl Out_Of_Bounds
                   else Inr (STD_ERR_OK,
                             Some (cpy (app_group_name (acl_groups s ! j)) NAS_CMN_PROFILE_NAME_SIZE,
                                   ucast (current_pool_count (acl_groups s ! j))))))"

section \<open>Setters\<close>

definition nas_switch_acl_profile_update_cache ::
  "string option \<Rightarrow> u32 \<Rightarrow> bool \<Rightarrow> nas_cmn_sw_init_info_t \<Rightarrow> fault + (t_std_error \<times> nas_cmn_sw_init_info_t)" where
  "nas_switch_acl_profile_update_cache name cnt update_current s =
     (if name = None then Inr (PARAM_2, s)
      else if \<not> acl_profile_valid s then Inr (PARAM_2, s)
      else case acl_find name s of
             Inl f \<Rightarrow> Inl f
           | Inr None \<Rightarrow> Inr (PARAM_2, s)
           | Inr (Some i) \<Rightarrow>
               (let g = (acl_groups s ! i)\<lparr>next_boot_pool_count := ucast cnt\<rparr>;
                    g' = (if update_current then g\<lparr>current_pool_count := ucast cnt\<rparr> else g)
                in Inr (STD_ERR_OK, s\<lparr>acl_groups := (acl_groups s)[i := g']\<rparr>)))"

definition nas_switch_acl_profile_reset_cache_to_default ::
  "string option \<Rightarrow> nas_cmn_sw_init_info_t \<Rightarrow> fault + (t_std_error \<times> nas_cmn_sw_init_info_t)" where
  "nas_switch_acl_profile_reset_cache_to_default name s =
     (if name = None then Inr (PARAM_2, s)
      else case acl_find name s of
             Inl f \<Rightarrow> Inl f
           | Inr None \<Rightarrow> Inr (PARAM_2, s)
           | Inr (Some i) \<Rightarrow>
               (let g = acl_groups s ! i
                in Inr (STD_ERR_OK,
                        s\<lparr>acl_groups :=
                           (acl_groups s)[i := g\<lparr>next_boot_pool_count := default_pool_count g\<rparr>]\<rparr>)))"

definition nas_sw_acl_profile_app_group_info_set ::
  "sw_consts \<Rightarrow> string option \<Rightarrow> u32 \<Rightarrow> cps_oper \<Rightarrow> nas_cmn_sw_init_info_t \<Rightarrow>
   fault + (t_std_error \<times> nas_cmn_sw_init_info_t)" where
  "nas_sw_acl_profile_app_group_info_set K name cnt op_type s =
     (case nas_sw_acl_profile_db_config_supported K name s of
        Inl f \<Rightarrow> Inl f
      | Inr False \<Rightarrow> Inr (PARAM_2, s)
      | Inr True \<Rightarrow>
          if op_type = cps_api_oper_DELETE then nas_switch_acl_profile_reset_cache_to_default name s
          else nas_switch_acl_profile_update_cache name cnt False s)"

section \<open>Objects of the data base\<close>

text \<open>
  The attributes of a \<open>BASE_ACL_SWITCHING_ENTITY_APP_GROUP\<close> object. The identifier is kept as
  the bytes of the attribute, which the code reads as a C string.
\<close>

datatype acl_attr =
    ACL_SWITCH_ID u32
  | APP_GROUP_ID string
  | APP_GROUP_POOL_COUNT u32
  | APP_GROUP_STAGE u32
  | APP_GROUP_DEPTH u32
  | APP_GROUP_DEFAULT_POOL_COUNT u32
  | APPLICATION_APP_ID nat string
  | APPLICATION_NUM_UNITS_PER_ENTRY nat u32
  | MAX_INGRESS_ACL_POOL_COUNT u32
  | MAX_EGRESS_ACL_POOL_COUNT u32
  | ENTITY_APP_GROUP_ID nat string
  | OTHER_ACL_ATTR

type_synonym acl_obj = "acl_attr list"

datatype cps_qualifier = TARGET | OBSERVED | OTHER_QUALIFIER

abbreviation NUL :: char where
  "NUL \<equiv> CHR 0x00"

text \<open>The C string at the start of some bytes, if they have a terminator, and a name with it.\<close>

definition c_string :: "string \<Rightarrow> string option" where
  "c_string bs = (if NUL \<in> set bs then Some (takeWhile (\<lambda>c. c \<noteq> NUL) bs) else None)"

definition with_nul :: "string \<Rightarrow> string" where
  "with_nul p = p @ [NUL]"

text \<open>\<open>strncmp (name, bytes, length of bytes) = 0\<close>.\<close>

definition strncmp_eq :: "string \<Rightarrow> string \<Rightarrow> bool" where
  "strncmp_eq name bs \<longleftrightarrow>
     take (length bs) (with_nul name) = take (length bs) (with_nul (takeWhile (\<lambda>c. c \<noteq> NUL) bs))"

definition nas_sw_acl_profile_startup_cps_db_get :: "bool \<Rightarrow> acl_obj list option \<Rightarrow> acl_obj list option" where
  "nas_sw_acl_profile_startup_cps_db_get alloc answer = (if alloc then answer else None)"

text \<open>
  The configured count of a group: the first object that has the group's name and a count. The
  count of an earlier object stays in its variable, but the flags do not.
\<close>

definition acl_info_attr :: "string \<Rightarrow> acl_attr \<Rightarrow> bool \<times> u32 option \<Rightarrow> bool \<times> u32 option" where
  "acl_info_attr name a = (\<lambda>(id_found, cnt).
     (case a of
        APP_GROUP_ID bs \<Rightarrow> (id_found \<or> strncmp_eq name bs, cnt)
      | APP_GROUP_POOL_COUNT v \<Rightarrow> (id_found, Some v)
      | _ \<Rightarrow> (id_found, cnt)))"

fun acl_info_objs :: "string \<Rightarrow> acl_obj list \<Rightarrow> u32 option" where
  "acl_info_objs name [] = None"
| "acl_info_objs name (ob # obs) =
     (case fold (acl_info_attr name) ob (False, None) of
        (True, Some v) \<Rightarrow> Some v
      | _ \<Rightarrow> acl_info_objs name obs)"

definition nas_sw_acl_profile_startup_db_info_get ::
  "string \<Rightarrow> acl_obj list option \<Rightarrow> t_std_error \<times> u32 option" where
  "nas_sw_acl_profile_startup_db_info_get name db =
     (case db of
        None \<Rightarrow> (PARAM_2, None)
      | Some obs \<Rightarrow>
          (case acl_info_objs name obs of None \<Rightarrow> (PARAM_2, None) | Some v \<Rightarrow> (STD_ERR_OK, Some v)))"

text \<open>
  The object of a group. The array of its applications is read up to their number, and is
  \<open>NULL\<close> when its allocation failed.
\<close>

definition acl_app_attrs :: "nas_cmn_acl_profile_app_group_info_t \<Rightarrow> nat \<Rightarrow> acl_attr list" where
  "acl_app_attrs g k =
     [APPLICATION_APP_ID k (with_nul (app_name (app_info g ! k))),
      APPLICATION_NUM_UNITS_PER_ENTRY k (num_units_per_entry (app_info g ! k))]"

definition nas_sw_acl_profile_app_group_info_to_obj ::
  "bool \<Rightarrow> bool \<Rightarrow> acl_obj list option \<Rightarrow> nat \<Rightarrow> cps_qualifier \<Rightarrow> nas_cmn_sw_init_info_t \<Rightarrow>
   fault + acl_obj option" where
  "nas_sw_acl_profile_app_group_info_to_obj obj_ok key_ok db i qual s =
     (if i \<ge> acl_count s \<or> \<not> obj_ok \<or> \<not> key_ok then Inr None
      else if i \<ge> length (acl_groups s) then Inl Out_Of_Bounds
      else
        (let g = acl_groups s ! i;
             cur = ucast (current_pool_count g);
             conf = (case nas_sw_acl_profile_startup_db_info_get (app_group_name g) db of
                       (STD_ERR_OK, Some v) \<Rightarrow> v | _ \<Rightarrow> cur);
             pools = (case qual of TARGET \<Rightarrow> [APP_GROUP_POOL_COUNT conf]
                        | OBSERVED \<Rightarrow> [APP_GROUP_POOL_COUNT cur] | OTHER_QUALIFIER \<Rightarrow> [])
         in if unat (num_app g) > length (app_info g) then Inl Null_Deref
            else Inr (Some
              ([ACL_SWITCH_ID 0, APP_GROUP_ID (with_nul (app_group_name g)),
                APP_GROUP_STAGE (ucast (stage_type g)), APP_GROUP_DEPTH (ucast (depth_per_pool g)),
                APP_GROUP_DEFAULT_POOL_COUNT (ucast (default_pool_count g))]
               @ pools @ concat (map (acl_app_attrs g) [0..<unat (num_app g)])))))"

text \<open>The attributes that are added to the object of the switch.\<close>

definition nas_sw_acl_profile_info_get ::
  "sw_consts \<Rightarrow> nas_cmn_sw_init_info_t \<Rightarrow> fault + (t_std_error \<times> acl_obj)" where
  "nas_sw_acl_profile_info_get K s =
     (case nas_sw_acl_profile_db_config_supported K None s of
        Inl f \<Rightarrow> Inl f
      | Inr False \<Rightarrow> Inr (PARAM_2, [])
      | Inr True \<Rightarrow>
          (if acl_count s > length (acl_groups s) then Inl Out_Of_Bounds
           else Inr (STD_ERR_OK,
             [MAX_INGRESS_ACL_POOL_COUNT (ucast (acl_profile_max_ingress_pool_count s)),
              MAX_EGRESS_ACL_POOL_COUNT (ucast (acl_profile_max_egress_pool_count s))]
             @ map (\<lambda>i. ENTITY_APP_GROUP_ID i (with_nul (app_group_name (acl_groups s ! i))))
                 [0..<acl_count s])))"

text \<open>
  The list of the objects of one group or of all. \<open>res i\<close> says whether the object of group \<open>i\<close>
  and its key can be created and whether the list takes it.
\<close>

fun acl_group_objs ::
  "(nat \<Rightarrow> bool \<times> bool \<times> bool) \<Rightarrow> acl_obj list option \<Rightarrow> cps_qualifier \<Rightarrow> string option \<Rightarrow> bool \<Rightarrow>
   nas_cmn_sw_init_info_t \<Rightarrow> nat list \<Rightarrow> acl_obj list \<Rightarrow> fault + (t_std_error \<times> acl_obj list)" where
  "acl_group_objs res db qual name all s [] acc = Inr (STD_ERR_OK, acc)"
| "acl_group_objs res db qual name all s (i # is) acc =
     (if \<not> all \<and> i \<ge> length (acl_groups s) then Inl Out_Of_Bounds
      else if all \<or> name = Some (app_group_name (acl_groups s ! i)) then
        (case nas_sw_acl_profile_app_group_info_to_obj (fst (res i)) (fst (snd (res i))) db i qual s of
           Inl f \<Rightarrow> Inl f
         | Inr (Some ob) \<Rightarrow>
             (if \<not> snd (snd (res i)) then Inr (PARAM_2, acc)
              else if \<not> all then Inr (STD_ERR_OK, acc @ [ob])
              else acl_group_objs res db qual name all s is (acc @ [ob]))
         | Inr None \<Rightarrow>
             (if \<not> all then Inr (STD_ERR_OK, acc)
              else acl_group_objs res db qual name all s is acc))
      else acl_group_objs res db qual name all s is acc)"

definition nas_sw_acl_profile_app_group_info_get ::
  "(nat \<Rightarrow> bool \<times> bool \<times> bool) \<Rightarrow> acl_obj list option \<Rightarrow> string option \<Rightarrow> bool \<Rightarrow> cps_qualifier \<Rightarrow>
   nas_cmn_sw_init_info_t \<Rightarrow> fault + (t_std_error \<times> acl_obj list)" where
  "nas_sw_acl_profile_app_group_info_get res db name all qual s =
     (if \<not> all \<and> name = None then Inr (PARAM_2, [])
      else acl_group_objs res db qual name all s [0..<acl_count s] [])"

section \<open>Start of the switch\<close>

text \<open>
  The object of every group that is written to the running configuration, until one is refused:
  \<open>commit\<close> is the answer of the data base. The second result is the list of those it took.
\<close>

definition acl_running_obj :: "u32 \<Rightarrow> nas_cmn_acl_profile_app_group_info_t \<Rightarrow> acl_obj" where
  "acl_running_obj sw_id g =
     [ACL_SWITCH_ID sw_id, APP_GROUP_ID (with_nul (app_group_name g)),
      APP_GROUP_POOL_COUNT (ucast (next_boot_pool_count g))]"

fun acl_running_loop ::
  "(acl_obj \<Rightarrow> bool) \<Rightarrow> u32 \<Rightarrow> nas_cmn_sw_init_info_t \<Rightarrow> nat list \<Rightarrow> fault + (t_std_error \<times> acl_obj list)" where
  "acl_running_loop commit sw_id s [] = Inr (STD_ERR_OK, [])"
| "acl_running_loop commit sw_id s (i # is) =
     (if i \<ge> length (acl_groups s) then Inl Out_Of_Bounds
      else (let ob = acl_running_obj sw_id (acl_groups s ! i)
            in if \<not> commit ob then Inr (STD_ERR HALCOM FAIL (Priv 2), [])
               else (case acl_running_loop commit sw_id s is of
                       Inl f \<Rightarrow> Inl f
                     | Inr (rc, obs) \<Rightarrow> Inr (rc, ob # obs))))"

definition nas_switch_upd_acl_profile_info_to_running_cps_db ::
  "(acl_obj \<Rightarrow> bool) \<Rightarrow> u32 \<Rightarrow> nas_cmn_sw_init_info_t \<Rightarrow> fault + (t_std_error \<times> acl_obj list)" where
  "nas_switch_upd_acl_profile_info_to_running_cps_db commit sw_id s =
     acl_running_loop commit sw_id s [0..<acl_count s]"

text \<open>
  The attributes of an object set the two locals; the values of the locals stay from one object
  to the next and only the flags are cleared, so the flags say which value is new.
\<close>

definition acl_db_attr :: "acl_attr \<Rightarrow> string option \<times> u32 option \<Rightarrow> string option \<times> u32 option" where
  "acl_db_attr a = (\<lambda>(name, cnt).
     (case a of
        APP_GROUP_ID bs \<Rightarrow> (Some bs, cnt)
      | APP_GROUP_POOL_COUNT v \<Rightarrow> (name, Some v)
      | _ \<Rightarrow> (name, cnt)))"

text \<open>
  The identifier is passed to \<open>nas_switch_acl_profile_update_cache\<close> as a pointer to its bytes. Without a
  terminator, \<open>strcmp\<close> with a group's name reads behind them exactly when the name begins with them all.
\<close>

definition acl_db_unterminated ::
  "string \<Rightarrow> nas_cmn_sw_init_info_t \<Rightarrow> fault + nas_cmn_sw_init_info_t" where
  "acl_db_unterminated bs s =
     (if \<not> acl_profile_valid s then Inr s
      else case acl_search (\<lambda>g. take (length bs) (app_group_name g) = bs) (acl_groups s) [0..<acl_count s] of
             Inl f \<Rightarrow> Inl f
           | Inr (Some i) \<Rightarrow> Inl Out_Of_Bounds
           | Inr None \<Rightarrow> Inr s)"

definition acl_db_obj ::
  "acl_obj \<Rightarrow> nas_cmn_sw_init_info_t \<Rightarrow> fault + nas_cmn_sw_init_info_t" where
  "acl_db_obj ob s =
     (case fold acl_db_attr ob (None, None) of
        (Some bs, Some v) \<Rightarrow>
          (case c_string bs of
             None \<Rightarrow> acl_db_unterminated bs s
           | Some name \<Rightarrow>
               (case nas_switch_acl_profile_update_cache (Some name) v True s of
                  Inl f \<Rightarrow> Inl f | Inr (rc, s') \<Rightarrow> Inr s'))
      | _ \<Rightarrow> Inr s)"

fun acl_db_objs :: "acl_obj list \<Rightarrow> nas_cmn_sw_init_info_t \<Rightarrow> fault + nas_cmn_sw_init_info_t" where
  "acl_db_objs [] s = Inr s"
| "acl_db_objs (ob # obs) s =
     (case acl_db_obj ob s of Inl f \<Rightarrow> Inl f | Inr s' \<Rightarrow> acl_db_objs obs s')"

text \<open>The return code of the write to the running configuration is not looked at.\<close>

definition nas_sw_acl_profile_parse_db_and_update ::
  "(acl_obj \<Rightarrow> bool) \<Rightarrow> acl_obj list option \<Rightarrow> u32 \<Rightarrow> nas_cmn_sw_init_info_t \<Rightarrow>
   fault + (t_std_error \<times> nas_cmn_sw_init_info_t \<times> acl_obj list)" where
  "nas_sw_acl_profile_parse_db_and_update commit db sw_id s =
     (if \<not> acl_profile_valid s then Inr (STD_ERR_OK, s, [])
      else case acl_db_objs (case db of None \<Rightarrow> [] | Some obs \<Rightarrow> obs) s of
             Inl f \<Rightarrow> Inl f
           | Inr s' \<Rightarrow>
               (case nas_switch_upd_acl_profile_info_to_running_cps_db commit sw_id s' of
                  Inl f \<Rightarrow> Inl f
                | Inr (rc, obs) \<Rightarrow> Inr (STD_ERR_OK, s', obs)))"

text \<open>
  The whole update when the switch starts: \<open>obj_ok\<close> is whether an object can be created,
  \<open>commit\<close> and \<open>acl_commit\<close> whether the data base takes the objects it is given, \<open>db\<close> and
  \<open>acl_db\<close> what the two startup queries return. The result has the return code, the state and
  the objects that were written.
\<close>

definition nas_sw_parse_db_and_update ::
  "strcopy \<Rightarrow> bool \<Rightarrow> (sw_obj \<Rightarrow> bool) \<Rightarrow> (acl_obj \<Rightarrow> bool) \<Rightarrow> sw_obj list option \<Rightarrow> acl_obj list option \<Rightarrow>
   u32 \<Rightarrow> nas_cmn_sw_init_info_t \<Rightarrow>
   fault + (t_std_error \<times> nas_cmn_sw_init_info_t \<times> sw_obj list \<times> acl_obj list)" where
  "nas_sw_parse_db_and_update cpy obj_ok commit acl_commit db acl_db sw_id s =
     (let s1 = sw_db_update cpy db s; ob = running_obj sw_id s1
      in if \<not> obj_ok then Inr (STD_ERR HALCOM FAIL (Priv 2), s1, [], [])
         else if \<not> commit ob then Inr (STD_ERR HALCOM FAIL (Priv 2), s1, [], [])
         else (case nas_sw_acl_profile_parse_db_and_update acl_commit acl_db sw_id s1 of
                 Inl f \<Rightarrow> Inl f
               | Inr (rc, s2, obs) \<Rightarrow>
                   (if rc \<noteq> STD_ERR_OK then Inr (STD_ERR HALCOM FAIL (Priv 2), s2, [ob], obs)
                    else Inr (STD_ERR_OK, s2, [ob], obs))))"

end
