(* ===== verification/SwAclProps.thy ===== *)
theory SwAclProps
  imports SwAclProfile SwBoot
begin

text \<open>
  The properties of the ACL profile: the loops stay inside the array of groups, when the reader
  does not, what the requests and the start do to the groups, and the walk over them.
\<close>

section \<open>The array\<close>

definition acl_ok :: "nas_cmn_sw_init_info_t \<Rightarrow> bool" where
  "acl_ok s \<longleftrightarrow> acl_count s \<le> length (acl_groups s)"

text \<open>The numbers of pools that the first pass adds up, and that their sum fits its variable.\<close>

fun acl_pool_counts :: "'n config_api \<Rightarrow> 'n list \<Rightarrow> u32 \<Rightarrow> nat list" where
  "acl_pool_counts api [] mx = []"
| "acl_pool_counts api (c # cs) mx =
     (let mx' = nas_std_cfg_attr_update api c ''max_pool_avail'' mx
      in unat mx' # acl_pool_counts api cs mx')"

definition acl_pools_fit :: "'n config_api \<Rightarrow> 'n \<Rightarrow> bool" where
  "acl_pools_fit api node \<longleftrightarrow> sum_list (acl_pool_counts api (config_children api node) 0) < 2 ^ 32"

lemma unat_ucast_le: "unat (ucast (w :: u32) :: u8) \<le> unat w"
  by (simp add: unsigned_ucast_eq take_bit_nat_less_eq_self)

text \<open>The stages that the children name, each with the value its variable has after it.\<close>

fun acl_stage_names :: "'n config_api \<Rightarrow> strcopy \<Rightarrow> 'n list \<Rightarrow> string \<Rightarrow> string list" where
  "acl_stage_names api cpy [] stage = []"
| "acl_stage_names api cpy (c # cs) stage =
     (let stage' = nas_std_cfg_str_attr_update api cpy c ''type'' stage
      in stage' # acl_stage_names api cpy cs stage')"

text \<open>
  The reader writes the counter of a stage only when a child names it, and always makes a new array: a
  node has to name every stage whose counter is not 0 already.
\<close>

definition acl_covers :: "'n config_api \<Rightarrow> strcopy \<Rightarrow> 'n \<Rightarrow> nas_cmn_sw_init_info_t \<Rightarrow> bool" where
  "acl_covers api cpy node s \<longleftrightarrow>
     (let names = set (acl_stage_names api cpy (config_children api node) [])
      in (acl_profile_max_ingress_pool_count s = 0 \<or> ''ingress'' \<in> names) \<and>
         (acl_profile_max_egress_pool_count s = 0 \<or> ''egress'' \<in> names))"

lemma acl_pool_total:
  "fold (acl_pool_step api cpy) cs (stage, mx, t, s) = (stage', mx', t', s') \<Longrightarrow>
   t' = t + of_nat (sum_list (acl_pool_counts api cs mx))"
proof (induction cs arbitrary: stage mx t s)
  case (Cons c cs)
  let ?mx = "nas_std_cfg_attr_update api c ''max_pool_avail'' mx"
  obtain st s1 where step: "acl_pool_step api cpy c (stage, mx, t, s) = (st, ?mx, t + ?mx, s1)"
    by (auto simp: acl_pool_step_def Let_def)
  show ?case
    using Cons.IH [of st ?mx "t + ?mx" s1] Cons.prems by (simp add: step Let_def)
qed simp

lemma acl_pool_counters:
  assumes "fold (acl_pool_step api cpy) cs (stage, mx, t, s) = (stage', mx', t', s')"
  shows "acl_count s' \<le> sum_list (acl_pool_counts api cs mx)
    + (if ''ingress'' \<in> set (acl_stage_names api cpy cs stage) then 0
       else unat (acl_profile_max_ingress_pool_count s))
    + (if ''egress'' \<in> set (acl_stage_names api cpy cs stage) then 0
       else unat (acl_profile_max_egress_pool_count s))"
  using assms
proof (induction cs arbitrary: stage mx t s)
  case Nil
  then show ?case by (simp add: acl_count_def)
next
  case (Cons c cs)
  let ?mx = "nas_std_cfg_attr_update api c ''max_pool_avail'' mx"
  let ?st = "nas_std_cfg_str_attr_update api cpy c ''type'' stage"
  obtain s1 where step: "acl_pool_step api cpy c (stage, mx, t, s) = (?st, ?mx, t + ?mx, s1)"
    and s1: "s1 = (if ?st = ''ingress'' then s\<lparr>acl_profile_max_ingress_pool_count := ucast ?mx\<rparr>
      else if ?st = ''egress'' then s\<lparr>acl_profile_max_egress_pool_count := ucast ?mx\<rparr> else s)"
    by (simp add: acl_pool_step_def Let_def)
  have "fold (acl_pool_step api cpy) cs (?st, ?mx, t + ?mx, s1) = (stage', mx', t', s')"
    using Cons.prems by (simp add: step)
  from Cons.IH [OF this] show ?case
    using unat_ucast_le [of ?mx] s1 by (cases "?st = ''ingress''"; cases "?st = ''egress''")
      (auto simp: Let_def split: if_splits)
qed

lemma acl_pool_fold:
  assumes "fold (acl_pool_step api cpy) (config_children api node) ([], 0, 0, s) = (stage', mx', t', s')"
    and "acl_pools_fit api node" "acl_covers api cpy node s"
  shows "acl_count s' \<le> unat t'"
proof -
  have "unat t' = sum_list (acl_pool_counts api (config_children api node) 0)"
    using acl_pool_total [OF assms(1)] assms(2) by (simp add: acl_pools_fit_def unat_of_nat)
  then show ?thesis
    using acl_pool_counters [OF assms(1)] assms(3) by (auto simp: acl_covers_def Let_def split: if_splits)
qed

text \<open>The second pass keeps the counts and the length of the array.\<close>

definition acl_frame :: "nas_cmn_sw_init_info_t \<Rightarrow> nas_cmn_sw_init_info_t \<Rightarrow> bool" where
  "acl_frame s t \<longleftrightarrow> acl_count t = acl_count s \<and> length (acl_groups t) = length (acl_groups s)"

lemma acl_frame_trans: "acl_frame s t \<Longrightarrow> acl_frame t u \<Longrightarrow> acl_frame s u"
  by (simp add: acl_frame_def)

lemma acl_group_step_frame:
  "acl_group_step api cpy mem stg g (d, p, i, s) = Inr (rc, d', p', i', s') \<Longrightarrow> acl_frame s s'"
  by (auto simp: acl_group_step_def Let_def acl_frame_def acl_count_def split: if_splits)

lemma acl_groups_loop_frame:
  "acl_groups_loop api cpy mem stg gs (d, p, i, s) = Inr (rc, d', p', i', s') \<Longrightarrow> acl_frame s s'"
proof (induction gs arbitrary: d p i s)
  case (Cons g gs)
  then obtain rc1 d1 p1 i1 s1 where
    step: "acl_group_step api cpy mem stg g (d, p, i, s) = Inr (rc1, d1, p1, i1, s1)"
    by (auto split: sum.splits prod.splits)
  note acl_group_step_frame [OF step]
  then show ?case
    using Cons.prems Cons.IH [of d1 p1 i1 s1] step
    by (auto split: if_splits intro: acl_frame_trans)
qed (simp add: acl_frame_def)

lemma acl_stages_loop_frame:
  "acl_stages_loop api cpy mem K cs stage stg (d, p, i, s) = Inr (rc, d', p', i', s') \<Longrightarrow> acl_frame s s'"
proof (induction cs arbitrary: stage stg d p i s)
  case (Cons c cs)
  define st where "st = nas_std_cfg_str_attr_update api cpy c ''type'' stage"
  define sg where "sg = (if st = ''ingress'' then BASE_ACL_STAGE_INGRESS K
    else if st = ''egress'' then BASE_ACL_STAGE_EGRESS K else stg)"
  have eq: "acl_stages_loop api cpy mem K (c # cs) stage stg (d, p, i, s) =
      (case acl_groups_loop api cpy mem sg (config_children api c) (d, p, i, s) of
         Inl f \<Rightarrow> Inl f
       | Inr (rc, l') \<Rightarrow> if rc \<noteq> STD_ERR_OK then Inr (rc, l') else acl_stages_loop api cpy mem K cs st sg l')"
    by (simp only: acl_stages_loop.simps Let_def st_def sg_def)
  from Cons.prems obtain rc1 d1 p1 i1 s1 where
    step: "acl_groups_loop api cpy mem sg (config_children api c) (d, p, i, s) = Inr (rc1, d1, p1, i1, s1)"
    unfolding eq by (auto split: sum.splits prod.splits)
  note acl_groups_loop_frame [OF step]
  then show ?case
    using Cons.prems Cons.IH [of st sg d1 p1 i1 s1] unfolding eq step
    by (auto split: if_splits intro: acl_frame_trans)
qed (simp add: acl_frame_def)

lemma init_count: "acl_count nas_switch_info_init = 0"
  by (simp add: acl_count_def nas_switch_info_init_def)

lemma reader_acl_ok:
  assumes "acl_pools_fit api node" "acl_covers api cpy node s0"
    and "nas_switch_update_acl_profile_info api cpy K arr_ok mem node s0 = Inr (rc, s)"
  shows "acl_ok s"
proof -
  let ?cs = "config_children api node"
  obtain stage mx t s1 where fold: "fold (acl_pool_step api cpy) ?cs ([], 0, 0, s0) = (stage, mx, t, s1)"
    using prod_cases4 by blast
  note count = acl_pool_fold [OF fold assms(1,2)]
  show ?thesis
  proof (cases arr_ok)
    case False
    then show ?thesis
      using assms(3) by (auto simp: nas_switch_update_acl_profile_info_def Let_def fold acl_ok_def acl_count_def)
  next
    case True
    let ?s2 = "s1\<lparr>acl_groups := replicate (unat t) empty_group\<rparr>"
    from assms(3) True obtain rc3 d p i s3 where
      loop: "acl_stages_loop api cpy mem K ?cs stage 0 (0, 0, 0, ?s2) = Inr (rc3, d, p, i, s3)"
      by (auto simp: nas_switch_update_acl_profile_info_def Let_def fold split: sum.splits prod.splits)
    from acl_stages_loop_frame [OF loop] have "acl_ok s3"
      using count by (simp add: acl_frame_def acl_ok_def acl_count_def)
    moreover have "s = s3 \<or> s = s3\<lparr>acl_profile_valid := True\<rparr>"
      using assms(3) True loop
      by (auto simp: nas_switch_update_acl_profile_info_def Let_def fold split: if_splits)
    ultimately show ?thesis by (auto simp: acl_ok_def acl_count_def)
  qed
qed

section \<open>Operations inside the array\<close>

lemma acl_search_find:
  "\<forall>i \<in> set is. i < length gs \<Longrightarrow> acl_search P gs is = Inr (find (\<lambda>i. P (gs ! i)) is)"
  by (induction "is") auto

definition acl_match :: "string option \<Rightarrow> nas_cmn_acl_profile_app_group_info_t \<Rightarrow> bool" where
  "acl_match name g \<longleftrightarrow> name = None \<or> name = Some (app_group_name g)"

lemma acl_find_eq:
  "acl_ok s \<Longrightarrow> acl_find name s = Inr (find (\<lambda>i. acl_match name (acl_groups s ! i)) [0..<acl_count s])"
  unfolding acl_find_def acl_match_def [symmetric] by (rule acl_search_find) (auto simp: acl_ok_def)

lemma acl_find_bound: "acl_ok s \<Longrightarrow> acl_find name s = Inr (Some i) \<Longrightarrow> i < acl_count s \<and> i < length (acl_groups s)"
  by (auto simp: acl_find_eq find_Some_iff acl_ok_def)

lemma acl_find_Inr: "acl_ok s \<Longrightarrow> \<exists>r. acl_find name s = Inr r"
  by (simp add: acl_find_eq)

lemma acl_ok_update [simp]: "acl_ok (s\<lparr>acl_groups := (acl_groups s)[i := g]\<rparr>) \<longleftrightarrow> acl_ok s"
  by (simp add: acl_ok_def acl_count_def)

lemma acl_supported_Inr: "acl_ok s \<Longrightarrow> \<exists>b. nas_sw_acl_profile_db_config_supported K name s = Inr b"
  using acl_find_Inr [of s name]
  by (auto simp: nas_sw_acl_profile_db_config_supported_def Let_def split: option.split)

lemma acl_update_cache_ok:
  "acl_ok s \<Longrightarrow> \<exists>rc t. nas_switch_acl_profile_update_cache name c b s = Inr (rc, t) \<and> acl_ok t"
  using acl_find_Inr [of s name]
  by (auto simp: nas_switch_acl_profile_update_cache_def Let_def split: option.split)

lemma acl_reset_ok:
  "acl_ok s \<Longrightarrow> \<exists>rc t. nas_switch_acl_profile_reset_cache_to_default name s = Inr (rc, t) \<and> acl_ok t"
  using acl_find_Inr [of s name]
  by (auto simp: nas_switch_acl_profile_reset_cache_to_default_def Let_def split: option.split)

lemma acl_set_ok:
  "acl_ok s \<Longrightarrow> \<exists>rc t. nas_sw_acl_profile_app_group_info_set K name c opr s = Inr (rc, t) \<and> acl_ok t"
  using acl_supported_Inr [of s K name] acl_update_cache_ok [of s name c False] acl_reset_ok [of s name]
  by (auto simp: nas_sw_acl_profile_app_group_info_set_def split: bool.split)

lemma acl_get_next_ok: "acl_ok s \<Longrightarrow> \<exists>r. nas_sw_acl_profile_db_get_next cpy name out s = Inr r"
  using acl_find_Inr [of s name] acl_find_bound [of s name]
  by (auto simp: nas_sw_acl_profile_db_get_next_def Let_def acl_ok_def split: option.split)

lemma acl_info_get_ok: "acl_ok s \<Longrightarrow> \<exists>r. nas_sw_acl_profile_info_get K s = Inr r"
  using acl_supported_Inr [of s K None]
  by (auto simp: nas_sw_acl_profile_info_get_def acl_ok_def split: bool.split)

text \<open>The getters of the objects stay inside the array of groups too; they may read the applications of a
  group whose allocation failed.\<close>

lemma acl_to_obj_in_bounds:
  "acl_ok s \<Longrightarrow> nas_sw_acl_profile_app_group_info_to_obj obj_ok key_ok db i qual s \<noteq> Inl Out_Of_Bounds"
  by (simp add: nas_sw_acl_profile_app_group_info_to_obj_def acl_ok_def Let_def)

lemma acl_group_objs_in_bounds:
  "acl_ok s \<Longrightarrow> \<forall>i \<in> set is. i < acl_count s \<Longrightarrow>
   acl_group_objs res db qual name all s is acc \<noteq> Inl Out_Of_Bounds"
proof (induction "is" arbitrary: acc)
  case (Cons i "is")
  then show ?case
    using acl_to_obj_in_bounds [OF Cons.prems(1), of "fst (res i)" "fst (snd (res i))" db i qual]
    by (auto simp: acl_ok_def split: sum.split option.split)
qed simp

lemma acl_group_info_get_in_bounds:
  "acl_ok s \<Longrightarrow> nas_sw_acl_profile_app_group_info_get res db name all qual s \<noteq> Inl Out_Of_Bounds"
  by (simp add: nas_sw_acl_profile_app_group_info_get_def acl_group_objs_in_bounds)

lemma acl_running_ok:
  "\<forall>i \<in> set is. i < length (acl_groups s) \<Longrightarrow> \<exists>r. acl_running_loop commit sw s is = Inr r"
proof (induction "is")
  case (Cons i "is")
  then obtain rc obs where "acl_running_loop commit sw s is = Inr (rc, obs)" by auto
  then show ?case using Cons.prems by (auto simp: Let_def)
qed simp

text \<open>The identifiers of a data base object are C strings when each has its terminator.\<close>

definition acl_obj_ok :: "acl_obj \<Rightarrow> bool" where
  "acl_obj_ok ob \<longleftrightarrow> (\<forall>bs. APP_GROUP_ID bs \<in> set ob \<longrightarrow> NUL \<in> set bs)"

lemma acl_db_attr_ids:
  assumes "fold acl_db_attr ob (nm, c) = (Some bs, c')"
  shows "nm = Some bs \<or> APP_GROUP_ID bs \<in> set ob"
  using assms
proof (induction ob arbitrary: nm c)
  case (Cons a ob)
  obtain nm1 c1 where a: "acl_db_attr a (nm, c) = (nm1, c1)" by (cases "acl_db_attr a (nm, c)")
  from Cons.IH [of nm1 c1] Cons.prems a have "nm1 = Some bs \<or> APP_GROUP_ID bs \<in> set ob" by simp
  then show ?case using a by (auto simp: acl_db_attr_def split: acl_attr.splits)
qed simp

lemma acl_db_obj_ok:
  assumes "acl_ok s" "acl_obj_ok ob"
  shows "\<exists>t. acl_db_obj ob s = Inr t \<and> acl_ok t"
proof -
  obtain nm c where f: "fold acl_db_attr ob (None, None) = (nm, c)"
    by (cases "fold acl_db_attr ob (None, None)")
  show ?thesis
  proof (cases "\<exists>bs v. nm = Some bs \<and> c = Some v")
    case True
    then obtain bs v where b: "nm = Some bs" "c = Some v" by blast
    then have "NUL \<in> set bs"
      using acl_db_attr_ids [of ob None None bs c] f assms(2) by (auto simp: acl_obj_ok_def)
    then obtain name where "c_string bs = Some name" by (simp add: c_string_def)
    then show ?thesis
      using acl_update_cache_ok [OF assms(1), of "Some name" v True] f b by (auto simp: acl_db_obj_def)
  next
    case False
    then show ?thesis using f assms(1) by (auto simp: acl_db_obj_def split: option.split)
  qed
qed

lemma acl_db_objs_ok:
  "acl_ok s \<Longrightarrow> list_all acl_obj_ok obs \<Longrightarrow> \<exists>t. acl_db_objs obs s = Inr t \<and> acl_ok t"
proof (induction obs arbitrary: s)
  case (Cons ob obs)
  then obtain t where "acl_db_obj ob s = Inr t" "acl_ok t" using acl_db_obj_ok [of s ob] by auto
  then show ?case using Cons.IH [of t] Cons.prems(2) by auto
qed simp

lemma acl_parse_ok:
  assumes "acl_ok s" "list_all acl_obj_ok (case db of None \<Rightarrow> [] | Some obs \<Rightarrow> obs)"
  shows "\<exists>rc t obs. nas_sw_acl_profile_parse_db_and_update commit db sw s = Inr (rc, t, obs) \<and> acl_ok t"
proof (cases "acl_profile_valid s")
  case True
  from acl_db_objs_ok [OF assms] obtain t where
    t: "acl_db_objs (case db of None \<Rightarrow> [] | Some obs \<Rightarrow> obs) s = Inr t" "acl_ok t" by blast
  obtain r where "acl_running_loop commit sw t [0..<acl_count t] = Inr r"
    using t(2) acl_running_ok [of "[0..<acl_count t]" t commit sw] by (auto simp: acl_ok_def)
  then show ?thesis using t True
    by (auto simp: nas_sw_acl_profile_parse_db_and_update_def
        nas_switch_upd_acl_profile_info_to_running_cps_db_def split: prod.split)
qed (use assms(1) in \<open>auto simp: nas_sw_acl_profile_parse_db_and_update_def\<close>)

text \<open>
  The states of a client: from the zeroed structure, any readings of nodes, requests and starts. What
  they have to keep: the pools of a node add up to less than 2 to the power 32, it names each stage whose
  counter is not 0, and the identifiers in the data base have their terminator.
\<close>

inductive acl_reachable :: "'n config_api \<Rightarrow> strcopy \<Rightarrow> sw_consts \<Rightarrow> nas_cmn_sw_init_info_t \<Rightarrow> bool"
  for api :: "'n config_api" and cpy :: strcopy and K :: sw_consts where
  zero: "acl_reachable api cpy K nas_switch_info_init"
| read: "acl_reachable api cpy K s \<Longrightarrow> acl_pools_fit api node \<Longrightarrow> acl_covers api cpy node s \<Longrightarrow>
    nas_switch_update_acl_profile_info api cpy K arr_ok mem node s = Inr (rc, t) \<Longrightarrow> acl_reachable api cpy K t"
| request: "acl_reachable api cpy K s \<Longrightarrow>
    nas_sw_acl_profile_app_group_info_set K name c opr s = Inr (rc, t) \<Longrightarrow> acl_reachable api cpy K t"
| start: "acl_reachable api cpy K s \<Longrightarrow>
    list_all acl_obj_ok (case db of None \<Rightarrow> [] | Some obs \<Rightarrow> obs) \<Longrightarrow>
    nas_sw_acl_profile_parse_db_and_update commit db sw s = Inr (rc, t, obs) \<Longrightarrow> acl_reachable api cpy K t"

lemma acl_reachable_ok: "acl_reachable api cpy K s \<Longrightarrow> acl_ok s"
proof (induction rule: acl_reachable.induct)
  case zero
  then show ?case by (simp add: acl_ok_def init_count)
next
  case (read s node arr_ok mem rc t)
  then show ?case by (intro reader_acl_ok)
next
  case (request s name c opr rc t)
  then show ?case using acl_set_ok [of s K name c opr] by auto
next
  case (start s db commit sw rc t obs)
  then show ?case using acl_parse_ok [of s db commit sw] by auto
qed

text \<open>C8: No operation on the ACL profile reads or writes outside the array of groups, in any state that
  readings of nodes, requests and starts lead to in any order, when the pools of every node add up to
  less than 2 to the power 32, every node that is read names each stage whose counter is not 0, and the
  identifiers in the data base have their terminator: the bound of the loops, the two byte counters,
  never exceeds the length of the array, although it is allocated with the unreduced sum. The setter, the
  walk, the getter of the switch's attributes and the start do not fault at all; the getters of the group
  objects do not fault on this array.\<close>

theorem acl_array_in_bounds:
  assumes "acl_reachable api cpy K s"
    and "list_all acl_obj_ok (case db of None \<Rightarrow> [] | Some obs \<Rightarrow> obs)"
  shows "acl_count s \<le> length (acl_groups s) \<and>
    (\<exists>r. nas_sw_acl_profile_app_group_info_set K name c opr s = Inr r) \<and>
    (\<exists>r. nas_sw_acl_profile_db_get_next cpy name out s = Inr r) \<and>
    (\<exists>r. nas_sw_acl_profile_info_get K s = Inr r) \<and>
    (\<exists>r. nas_sw_acl_profile_parse_db_and_update commit db sw s = Inr r) \<and>
    nas_sw_acl_profile_app_group_info_to_obj obj_ok key_ok db i qual s \<noteq> Inl Out_Of_Bounds \<and>
    nas_sw_acl_profile_app_group_info_get res db name all qual s \<noteq> Inl Out_Of_Bounds"
proof -
  have ok: "acl_ok s" using assms(1) by (rule acl_reachable_ok)
  show ?thesis
    using ok acl_set_ok [OF ok, of K name c opr] acl_get_next_ok [OF ok, of cpy name out]
      acl_info_get_ok [OF ok, of K] acl_parse_ok [OF ok assms(2), of commit sw]
      acl_to_obj_in_bounds [OF ok, of obj_ok key_ok db i qual]
      acl_group_info_get_in_bounds [OF ok, of res db name all qual]
    by (auto simp: acl_ok_def)
qed

text \<open>A file with one ingress stage of two pools and two groups of one application each.\<close>

definition acl_api :: "int config_api" where
  "acl_api = \<lparr>config_name = (\<lambda>_. ''switch_acl_profile''),
     config_attr = (\<lambda>n a.
       if n = 1 then (if a = ''type'' then Some ''ingress''
                      else if a = ''max_pool_avail'' then Some ''2'' else None)
       else if n = 2 then (if a = ''name'' then Some ''system'' else None)
       else if n = 3 then (if a = ''name'' then Some ''user'' else None)
       else None),
     config_children = (\<lambda>n. if n = 0 then [1] else if n = 1 then [2, 3]
                             else if n = 2 \<or> n = 3 then [4] else [])\<rparr>"

definition acl_consts :: sw_consts where
  "acl_consts = \<lparr>BASE_SWITCH_UFT_MODE_MIN = 1, BASE_SWITCH_UFT_MODE_MAX = 4,
     BASE_ACL_STAGE_INGRESS = 1, BASE_ACL_STAGE_EGRESS = 2\<rparr>"

definition sample_group :: "string \<Rightarrow> nas_cmn_acl_profile_app_group_info_t" where
  "sample_group name = empty_group\<lparr>stage_type := 1, num_app := 1, app_group_name := name,
     app_info := [\<lparr>num_units_per_entry = 0, app_name = []\<rparr>]\<rparr>"

definition sample_acl :: nas_cmn_sw_init_info_t where
  "sample_acl = nas_switch_info_init\<lparr>acl_profile_max_ingress_pool_count := 2,
     acl_groups := [sample_group ''system'', sample_group ''user''], acl_profile_valid := True\<rparr>"

lemma strtoul_2: "strtoul_u32 ''2'' = 2"
proof -
  have "dec_of_nat 2 = ''2''"
    by (subst dec_of_nat.simps) (simp add: char_of_def bit_0)
  moreover have "strtoul0 (dec_of_nat 2) = 2" by (rule strtoul0_dec) simp
  ultimately show ?thesis by (simp add: strtoul_u32_def)
qed

lemma sample_pools: "fold (acl_pool_step acl_api trunc_copy) [1] ([], 0, 0, nas_switch_info_init) =
    (''ingress'', 2, 2, nas_switch_info_init\<lparr>acl_profile_max_ingress_pool_count := 2\<rparr>)"
  by (simp add: acl_pool_step_def Let_def nas_std_cfg_str_attr_update_def nas_std_cfg_attr_update_def
      acl_api_def strtoul_2 trunc_copy_def NAS_CMN_PROFILE_NAME_SIZE_def)

lemma sample_groups:
  "acl_groups_loop acl_api trunc_copy (\<lambda>_. True) 1 [2, 3]
     (0, 0, 0, nas_switch_info_init\<lparr>acl_profile_max_ingress_pool_count := 2,
        acl_groups := [empty_group, empty_group]\<rparr>) =
   Inr (STD_ERR_OK, 0, 0, 2, nas_switch_info_init\<lparr>acl_profile_max_ingress_pool_count := 2,
        acl_groups := [sample_group ''system'', sample_group ''user'']\<rparr>)"
  by (simp add: acl_group_step_def Let_def nas_std_cfg_str_attr_update_def nas_std_cfg_attr_update_def
      nas_std_child_node_count_get_def acl_app_info_def acl_api_def trunc_copy_def
      NAS_CMN_PROFILE_NAME_SIZE_def sample_group_def empty_group_def numeral_2_eq_2)

lemma sample_read:
  "nas_switch_update_acl_profile_info acl_api trunc_copy acl_consts True (\<lambda>_. True) 0 nas_switch_info_init =
     Inr (STD_ERR_OK, sample_acl)"
proof -
  have c: "config_children acl_api 0 = [1]" "config_children acl_api 1 = [2, 3]"
    by (simp_all add: acl_api_def)
  have r: "replicate 2 empty_group = [empty_group, empty_group]"
    by (simp only: numeral_2_eq_2 replicate.simps)
  have t: "nas_std_cfg_str_attr_update acl_api trunc_copy 1 ''type'' ''ingress'' = ''ingress''"
    by (simp add: nas_std_cfg_str_attr_update_def acl_api_def trunc_copy_def NAS_CMN_PROFILE_NAME_SIZE_def)
  show ?thesis
    unfolding nas_switch_update_acl_profile_info_def Let_def c sample_pools
    by (simp add: r c t sample_groups acl_consts_def sample_acl_def del: acl_groups_loop.simps)
qed

lemma sample_pools_fit: "acl_pools_fit acl_api 0"
proof -
  have "config_children acl_api 0 = [1]" "nas_std_cfg_attr_update acl_api 1 ''max_pool_avail'' 0 = 2"
    by (simp_all add: acl_api_def nas_std_cfg_attr_update_def strtoul_2)
  then show ?thesis by (simp add: acl_pools_fit_def)
qed

lemma sample_acl_reachable: "acl_reachable acl_api trunc_copy acl_consts sample_acl"
  by (rule acl_reachable.read [OF acl_reachable.zero sample_pools_fit _ sample_read])
    (simp add: acl_covers_def Let_def nas_switch_info_init_def)

theorem acl_array_in_bounds_witness:
  "\<exists>r. nas_sw_acl_profile_parse_db_and_update (\<lambda>_. True)
      (Some [[APP_GROUP_ID (with_nul ''user''), APP_GROUP_POOL_COUNT 1]]) 0 sample_acl = Inr r"
proof -
  have "list_all acl_obj_ok (case Some [[APP_GROUP_ID (with_nul ''user''), APP_GROUP_POOL_COUNT 1]] of
      None \<Rightarrow> [] | Some obs \<Rightarrow> obs)"
    by (simp add: acl_obj_ok_def with_nul_def)
  from acl_array_in_bounds [OF sample_acl_reachable this] show ?thesis by blast
qed

section \<open>When the reader leaves the array\<close>

text \<open>Every group of the file has applications.\<close>

definition acl_apps_given :: "'n config_api \<Rightarrow> 'n list \<Rightarrow> bool" where
  "acl_apps_given api gs \<longleftrightarrow> (\<forall>g \<in> set gs. config_children api g \<noteq> [] \<and> length (config_children api g) < 2 ^ 32)"

lemma child_count_nonzero:
  "config_children api g \<noteq> [] \<Longrightarrow> length (config_children api g) < 2 ^ 32 \<Longrightarrow>
    nas_std_child_node_count_get api g \<noteq> 0"
  by (simp add: nas_std_child_node_count_get_def word_of_nat_eq_0_iff nat_dvd_not_less)

lemma acl_groups_loop_exact:
  assumes "acl_apps_given api gs"
  shows "if i + length gs \<le> length (acl_groups s)
    then \<exists>d' p' s'. acl_groups_loop api cpy (\<lambda>_. True) stg gs (d, p, i, s) =
        Inr (STD_ERR_OK, d', p', i + length gs, s') \<and> length (acl_groups s') = length (acl_groups s)
    else acl_groups_loop api cpy (\<lambda>_. True) stg gs (d, p, i, s) = Inl Out_Of_Bounds \<or> gs = []"
  using assms
proof (induction gs arbitrary: d p i s)
  case (Cons g gs)
  have n: "nas_std_child_node_count_get api g \<noteq> 0"
    using Cons.prems child_count_nonzero [of api g] by (simp add: acl_apps_given_def)
  show ?case
  proof (cases "i < length (acl_groups s)")
    case False
    then have "acl_group_step api cpy (\<lambda>_. True) stg g (d, p, i, s) = Inl Out_Of_Bounds"
      by (simp add: acl_group_step_def)
    then show ?thesis using False by simp
  next
    case True
    then obtain d1 p1 s1 where
      step: "acl_group_step api cpy (\<lambda>_. True) stg g (d, p, i, s) = Inr (STD_ERR_OK, d1, p1, Suc i, s1)"
      and len: "length (acl_groups s1) = length (acl_groups s)"
      using n by (simp add: acl_group_step_def Let_def)
    have "acl_apps_given api gs" using Cons.prems by (simp add: acl_apps_given_def)
    from Cons.IH [OF this, of "Suc i" s1 d1 p1] show ?thesis
      using True step len by (cases gs) (auto split: if_splits)
  qed
qed simp

lemma acl_stages_loop_exact:
  assumes "acl_apps_given api (concat (map (config_children api) cs))" "i \<le> length (acl_groups s)"
  shows "if i + length (concat (map (config_children api) cs)) \<le> length (acl_groups s)
    then \<exists>l. acl_stages_loop api cpy (\<lambda>_. True) K cs stage stg (d, p, i, s) = Inr (STD_ERR_OK, l)
    else acl_stages_loop api cpy (\<lambda>_. True) K cs stage stg (d, p, i, s) = Inl Out_Of_Bounds"
  using assms
proof (induction cs arbitrary: stage stg d p i s)
  case (Cons c cs)
  let ?gs = "config_children api c"
  have apps: "acl_apps_given api ?gs" "acl_apps_given api (concat (map (config_children api) cs))"
    using Cons.prems(1) by (auto simp: acl_apps_given_def)
  define st where "st = nas_std_cfg_str_attr_update api cpy c ''type'' stage"
  define sg where "sg = (if st = ''ingress'' then BASE_ACL_STAGE_INGRESS K
    else if st = ''egress'' then BASE_ACL_STAGE_EGRESS K else stg)"
  have eq: "acl_stages_loop api cpy (\<lambda>_. True) K (c # cs) stage stg (d, p, i, s) =
      (case acl_groups_loop api cpy (\<lambda>_. True) sg ?gs (d, p, i, s) of
         Inl f \<Rightarrow> Inl f
       | Inr (rc, l') \<Rightarrow> if rc \<noteq> STD_ERR_OK then Inr (rc, l')
           else acl_stages_loop api cpy (\<lambda>_. True) K cs st sg l')"
    by (simp only: acl_stages_loop.simps Let_def st_def sg_def)
  note loop = acl_groups_loop_exact [OF apps(1), of i s cpy sg d p]
  show ?case
  proof (cases "i + length ?gs \<le> length (acl_groups s)")
    case True
    with loop obtain d' p' s' where
      g: "acl_groups_loop api cpy (\<lambda>_. True) sg ?gs (d, p, i, s) = Inr (STD_ERR_OK, d', p', i + length ?gs, s')"
      and len: "length (acl_groups s') = length (acl_groups s)" by auto
    have "i + length ?gs \<le> length (acl_groups s')" using True len by simp
    from Cons.IH [OF apps(2) this, of st sg d' p'] show ?thesis
      unfolding eq using g len by (auto simp: add.assoc split: if_splits)
  next
    case False
    with loop Cons.prems(2) have "acl_groups_loop api cpy (\<lambda>_. True) sg ?gs (d, p, i, s) = Inl Out_Of_Bounds"
      by (cases "?gs = []") auto
    then show ?thesis unfolding eq using False by simp
  qed
qed simp

text \<open>C23: When every allocation succeeds and every group has applications, the reader of the ACL
  profile stays inside the array it allocates exactly when the file has no more groups than the array
  has elements, which is the number of pools as its 32 bit variable holds it; with one group more it
  writes behind the array. The state it starts from does not matter.\<close>

theorem acl_reader_bounds_iff:
  assumes "acl_apps_given api (concat (map (config_children api) (config_children api node)))"
  shows "(\<exists>r. nas_switch_update_acl_profile_info api cpy K True (\<lambda>_. True) node s = Inr r)
     \<longleftrightarrow> length (concat (map (config_children api) (config_children api node)))
         \<le> sum_list (acl_pool_counts api (config_children api node) 0) mod 2 ^ 32"
proof -
  let ?cs = "config_children api node"
  obtain stage mx t s1 where fold: "fold (acl_pool_step api cpy) ?cs ([], 0, 0, s) = (stage, mx, t, s1)"
    using prod_cases4 by blast
  have t: "unat t = sum_list (acl_pool_counts api ?cs 0) mod 2 ^ 32"
    using acl_pool_total [OF fold] by (simp add: unat_of_nat)
  let ?s2 = "s1\<lparr>acl_groups := replicate (unat t) empty_group\<rparr>"
  have "(\<exists>r. nas_switch_update_acl_profile_info api cpy K True (\<lambda>_. True) node s = Inr r)
      \<longleftrightarrow> (\<exists>l. acl_stages_loop api cpy (\<lambda>_. True) K ?cs stage 0 (0, 0, 0, ?s2) = Inr l)"
    by (auto simp: nas_switch_update_acl_profile_info_def Let_def fold split: sum.splits)
  then show ?thesis
    using acl_stages_loop_exact [OF assms, of 0 ?s2 cpy K stage 0 0 0] t
    by (auto split: if_splits)
qed

theorem acl_reader_bounds_iff_witness:
  "length (concat (map (config_children acl_api) (config_children acl_api 0)))
     \<le> sum_list (acl_pool_counts acl_api (config_children acl_api 0) 0) mod 2 ^ 32"
proof -
  have "acl_apps_given acl_api (concat (map (config_children acl_api) (config_children acl_api 0)))"
    by (simp add: acl_apps_given_def acl_api_def)
  from acl_reader_bounds_iff [OF this, of trunc_copy acl_consts nas_switch_info_init] sample_read
  show ?thesis by blast
qed

section \<open>When a node is read again\<close>

text \<open>C28: A second reading of the ACL profile that names no stage replaces the array of groups by an
  empty one and leaves the counters, which bound all loops, and the flag that the profile is valid: it
  returns with success, and then every walk over the groups and every start without entries in the data
  base faults at the first group. The reader runs for every node whose name is a prefix of
  \<open>switch_acl_profile\<close>, and again at each initialisation.\<close>

theorem acl_reread_out_of_bounds:
  assumes "config_children api node = []" "acl_profile_valid s" "0 < acl_count s"
  shows "\<exists>t. nas_switch_update_acl_profile_info api cpy K True mem node s = Inr (STD_ERR_OK, t) \<and>
    acl_profile_valid t \<and> acl_count t = acl_count s \<and>
    nas_sw_acl_profile_db_get_next cpy name True t = Inl Out_Of_Bounds \<and>
    nas_sw_acl_profile_parse_db_and_update commit None sw t = Inl Out_Of_Bounds"
proof -
  let ?t = "s\<lparr>acl_groups := [], acl_profile_valid := True\<rparr>"
  have c: "acl_count ?t = acl_count s" by (simp add: acl_count_def)
  have u: "[0..<acl_count s] = 0 # [1..<acl_count s]" using assms(3) by (simp add: upt_rec)
  have "nas_switch_update_acl_profile_info api cpy K True mem node s = Inr (STD_ERR_OK, ?t)"
    by (simp add: nas_switch_update_acl_profile_info_def assms(1))
  moreover have "nas_sw_acl_profile_db_get_next cpy name True ?t = Inl Out_Of_Bounds"
    unfolding nas_sw_acl_profile_db_get_next_def acl_find_def c u by simp
  moreover have "nas_sw_acl_profile_parse_db_and_update commit None sw ?t = Inl Out_Of_Bounds"
    unfolding nas_sw_acl_profile_parse_db_and_update_def
      nas_switch_upd_acl_profile_info_to_running_cps_db_def
    using assms(2) by (simp add: c u)
  ultimately show ?thesis using c by (intro exI [of _ ?t]) simp
qed

theorem acl_reread_out_of_bounds_witness:
  "\<exists>t. nas_switch_update_acl_profile_info acl_api trunc_copy acl_consts True (\<lambda>_. True) 4 sample_acl =
      Inr (STD_ERR_OK, t) \<and>
    nas_sw_acl_profile_db_get_next trunc_copy None True t = Inl Out_Of_Bounds"
proof -
  have "config_children acl_api 4 = []" "acl_profile_valid sample_acl" "0 < acl_count sample_acl"
    by (simp_all add: acl_api_def sample_acl_def acl_count_def nas_switch_info_init_def)
  from acl_reread_out_of_bounds [OF this] show ?thesis by blast
qed

end
