(* ===== verification/SwAclUse.thy ===== *)
theory SwAclUse
  imports SwAclProps
begin

text \<open>
  What the clients of the ACL profile see: the request for the pools of a group fulfils the
  contract \<open>boot_param\<close>, a start takes the last count the data base has for a group, and the
  walk with the query for the next group enumerates the groups.
\<close>

section \<open>Requests for a group\<close>

definition acl_pos :: "string \<Rightarrow> nas_cmn_sw_init_info_t \<Rightarrow> nat option" where
  "acl_pos name s = (case acl_find (Some name) s of Inr r \<Rightarrow> r | Inl f \<Rightarrow> None)"

definition acl_next :: "string \<Rightarrow> nas_cmn_sw_init_info_t \<Rightarrow> u8" where
  "acl_next name s = (case acl_pos name s of None \<Rightarrow> 0 | Some i \<Rightarrow> next_boot_pool_count (acl_groups s ! i))"

definition acl_default :: "string \<Rightarrow> nas_cmn_sw_init_info_t \<Rightarrow> u8" where
  "acl_default name s = (case acl_pos name s of None \<Rightarrow> 0 | Some i \<Rightarrow> default_pool_count (acl_groups s ! i))"

definition acl_avail :: "sw_consts \<Rightarrow> string \<Rightarrow> nas_cmn_sw_init_info_t \<Rightarrow> bool" where
  "acl_avail K name s \<longleftrightarrow> nas_sw_acl_profile_db_config_supported K (Some name) s = Inr True"

text \<open>
  The request as a function that always returns, for the contract: on a state where the setter faults,
  which \<open>acl_run\<close> below keeps apart, it is the identity.
\<close>

definition acl_request ::
  "sw_consts \<Rightarrow> string \<Rightarrow> u32 \<Rightarrow> cps_oper \<Rightarrow> nas_cmn_sw_init_info_t \<Rightarrow> t_std_error \<times> nas_cmn_sw_init_info_t" where
  "acl_request K name cnt opr s =
     (case nas_sw_acl_profile_app_group_info_set K (Some name) cnt opr s of Inl f \<Rightarrow> (PARAM_2, s) | Inr r \<Rightarrow> r)"

text \<open>The state without the count of the group.\<close>

definition acl_set_next :: "string \<Rightarrow> u8 \<Rightarrow> nas_cmn_sw_init_info_t \<Rightarrow> nas_cmn_sw_init_info_t" where
  "acl_set_next name v s =
     (case acl_pos name s of None \<Rightarrow> s
      | Some i \<Rightarrow> s\<lparr>acl_groups := (acl_groups s)[i := (acl_groups s ! i)\<lparr>next_boot_pool_count := v\<rparr>]\<rparr>)"

lemma acl_search_Some:
  "acl_search P gs is = Inr (Some i) \<Longrightarrow> i < length gs \<and> P (gs ! i)"
  by (induction "is") (auto split: if_splits)

lemma acl_pos_bound: "acl_pos name s = Some i \<Longrightarrow> i < length (acl_groups s)"
  by (auto simp: acl_pos_def acl_find_def dest: acl_search_Some split: sum.splits)

lemma acl_search_names:
  assumes "length gs = length hs" "\<And>i. i < length gs \<Longrightarrow> P (gs ! i) = P (hs ! i)"
  shows "acl_search P gs is = acl_search P hs is"
  using assms by (induction "is") auto

lemma acl_find_names:
  assumes "acl_count s = acl_count t" "length (acl_groups s) = length (acl_groups t)"
    "\<And>i. i < length (acl_groups s) \<Longrightarrow> app_group_name (acl_groups s ! i) = app_group_name (acl_groups t ! i)"
  shows "acl_find name s = acl_find name t"
  unfolding acl_find_def using assms by (auto intro!: acl_search_names)

lemma acl_find_set_next [simp]: "acl_find n (acl_set_next name v s) = acl_find n s"
  by (rule acl_find_names)
    (auto simp: acl_set_next_def acl_count_def nth_list_update dest: acl_pos_bound split: option.split)

lemma acl_pos_set_next [simp]: "acl_pos n (acl_set_next name v s) = acl_pos n s"
  by (simp add: acl_pos_def)

lemma acl_set_next_group [simp]:
  "acl_pos name s = Some i \<Longrightarrow> acl_groups (acl_set_next name v s) ! i = (acl_groups s ! i)\<lparr>next_boot_pool_count := v\<rparr>"
  using acl_pos_bound [of name s i] by (simp add: acl_set_next_def)

lemma acl_next_set [simp]: "acl_pos name s \<noteq> None \<Longrightarrow> acl_next name (acl_set_next name v s) = v"
  by (auto simp: acl_next_def)

lemma acl_default_set [simp]: "acl_default name (acl_set_next name v s) = acl_default name s"
  by (auto simp: acl_default_def split: option.split)

lemma acl_set_next_other [simp]:
  "acl_profile_valid (acl_set_next name v s) = acl_profile_valid s"
  "acl_profile_max_ingress_pool_count (acl_set_next name v s) = acl_profile_max_ingress_pool_count s"
  "acl_profile_max_egress_pool_count (acl_set_next name v s) = acl_profile_max_egress_pool_count s"
  by (simp_all add: acl_set_next_def split: option.split)

lemma acl_set_next_twice [simp]: "acl_set_next name v (acl_set_next name w s) = acl_set_next name v s"
proof (cases "acl_pos name s")
  case None
  then show ?thesis by (simp add: acl_set_next_def)
next
  case (Some i)
  then have "acl_set_next name v (acl_set_next name w s) =
      (acl_set_next name w s)\<lparr>acl_groups := (acl_groups (acl_set_next name w s))
         [i := (acl_groups s ! i)\<lparr>next_boot_pool_count := v\<rparr>]\<rparr>"
    by (subst (1) acl_set_next_def) simp
  also have "\<dots> = acl_set_next name v s" using Some by (simp add: acl_set_next_def)
  finally show ?thesis .
qed

lemma acl_avail_set [simp]: "acl_avail K name (acl_set_next name v s) = acl_avail K name s"
  using acl_set_next_group [of name s _ v]
  by (auto simp: acl_avail_def nas_sw_acl_profile_db_config_supported_def acl_pos_def Let_def
      split: sum.split option.split)

text \<open>The request as a function of the contract's parts.\<close>

lemma acl_request_eq:
  "acl_request K name cnt opr s =
     (if acl_avail K name s
      then (STD_ERR_OK, acl_set_next name (if opr = cps_api_oper_DELETE then acl_default name s else ucast cnt) s)
      else (PARAM_2, s))"
proof (cases "nas_sw_acl_profile_db_config_supported K (Some name) s")
  case (Inr b)
  show ?thesis
  proof (cases b)
    case True
    then obtain i where "acl_profile_valid s" "acl_find (Some name) s = Inr (Some i)"
      using Inr by (auto simp: nas_sw_acl_profile_db_config_supported_def split: if_splits sum.splits option.splits)
    then show ?thesis
      using Inr True
      by (simp add: acl_request_def nas_sw_acl_profile_app_group_info_set_def acl_avail_def acl_set_next_def
          acl_default_def acl_pos_def nas_switch_acl_profile_reset_cache_to_default_def
          nas_switch_acl_profile_update_cache_def Let_def)
  qed (use Inr in \<open>simp add: acl_request_def nas_sw_acl_profile_app_group_info_set_def acl_avail_def\<close>)
qed (simp add: acl_request_def nas_sw_acl_profile_app_group_info_set_def acl_avail_def)

lemma acl_avail_pos: "acl_avail K name s \<Longrightarrow> acl_pos name s \<noteq> None"
  by (auto simp: acl_avail_def nas_sw_acl_profile_db_config_supported_def acl_pos_def
      split: if_splits sum.splits option.splits)

interpretation acl: boot_param "acl_next name" "acl_default name" "\<lambda>v::u32. ucast v" "acl_request K name"
  "acl_avail K name" "\<lambda>s v. True" "acl_set_next name 0" for K name
proof
  fix s t :: nas_cmn_sw_init_info_t
  assume eq: "acl_set_next name 0 s = acl_set_next name 0 t"
  have "acl_default name s = acl_default name t"
    using arg_cong [OF eq, of "acl_default name"] by simp
  moreover have "acl_avail K name s = acl_avail K name t"
    using arg_cong [OF eq, of "acl_avail K name"] by simp
  ultimately show "acl_default name s = acl_default name t \<and> acl_avail K name s = acl_avail K name t
      \<and> (\<lambda>v::u32. True) = (\<lambda>v. True)" by simp
qed (use acl_avail_pos in \<open>auto simp: acl_request_eq\<close>)

text \<open>The requests one after the other, up to the first fault.\<close>

fun acl_run ::
  "sw_consts \<Rightarrow> string \<Rightarrow> (u32 \<times> cps_oper) list \<Rightarrow> nas_cmn_sw_init_info_t \<Rightarrow> fault + nas_cmn_sw_init_info_t" where
  "acl_run K name [] s = Inr s"
| "acl_run K name ((cnt, opr) # reqs) s =
     (case nas_sw_acl_profile_app_group_info_set K (Some name) cnt opr s of
        Inl f \<Rightarrow> Inl f | Inr (rc, t) \<Rightarrow> acl_run K name reqs t)"

lemma acl_run_boot: "acl_run K name reqs s = Inr t \<Longrightarrow> t = boot_run (acl_request K name) reqs s"
  by (induction reqs arbitrary: s) (auto simp: acl_request_def boot_run_def split: sum.splits)

lemma acl_run_returns: "acl_ok s \<Longrightarrow> \<exists>t. acl_run K name reqs s = Inr t"
proof (induction reqs arbitrary: s)
  case (Cons q reqs)
  obtain cnt opr where q: "q = (cnt, opr)" by force
  obtain rc u where "nas_sw_acl_profile_app_group_info_set K (Some name) cnt opr s = Inr (rc, u)" "acl_ok u"
    using acl_set_ok [OF Cons.prems] by blast
  then show ?case using Cons.IH [of u] q by simp
qed simp

text \<open>C24: Over any sequence of requests for the pools of a group, nothing in the state changes but
  the number of pools that the first group of that name has for the next boot: that is the default
  after a deletion, else the last number asked for, reduced to a byte. When the group cannot be
  configured, no request changes anything. No request faults on a state whose array of groups is as
  long as the loops assume.\<close>

theorem acl_requests_next_boot:
  "(acl_run K name reqs s = Inr t \<longrightarrow>
      acl_set_next name 0 t = acl_set_next name 0 s \<and>
      acl_next name t =
        fold (boot_next (acl_avail K name s) (\<lambda>_. True) (\<lambda>v::u32. ucast v) (acl_default name s)) reqs
          (acl_next name s)) \<and>
   (acl_ok s \<longrightarrow> (\<exists>t. acl_run K name reqs s = Inr t))"
  using acl.run_rest [of name K reqs s] acl.run_next [of name K reqs s] acl_run_boot [of K name reqs s t]
    acl_run_returns [of s K name reqs] by auto

lemma acl_requests_next_boot_witness:
  "\<exists>t. acl_run acl_consts ''user'' [(260, cps_api_oper_SET)] sample_acl = Inr t \<and> acl_next ''user'' t = 4"
proof -
  have "acl_ok sample_acl" by (rule acl_reachable_ok [OF sample_acl_reachable])
  then obtain t where t: "acl_run acl_consts ''user'' [(260, cps_api_oper_SET)] sample_acl = Inr t"
    using acl_requests_next_boot by blast
  have "acl_avail acl_consts ''user'' sample_acl" by code_simp
  then have "acl_next ''user'' t = 4"
    using acl_requests_next_boot [of acl_consts "''user''" "[(260, cps_api_oper_SET)]" sample_acl t] t
    by (simp add: boot_next_def del: acl_run.simps)
  then show ?thesis using t by blast
qed

section \<open>The start\<close>

text \<open>
  The name and the count that an object of the data base gives, as a start reads it, the state
  after one object, and the count that an object gives to a name.
\<close>

definition acl_given :: "acl_obj \<Rightarrow> (string \<times> u32) option" where
  "acl_given ob =
     (case fold acl_db_attr ob (None, None) of
        (Some bs, Some v) \<Rightarrow> (case c_string bs of None \<Rightarrow> None | Some name \<Rightarrow> Some (name, v))
      | _ \<Rightarrow> None)"

definition acl_set_both :: "string \<Rightarrow> u32 \<Rightarrow> nas_cmn_sw_init_info_t \<Rightarrow> nas_cmn_sw_init_info_t" where
  "acl_set_both name v s =
     (case acl_pos name s of None \<Rightarrow> s
      | Some i \<Rightarrow> s\<lparr>acl_groups := (acl_groups s)
          [i := (acl_groups s ! i)\<lparr>next_boot_pool_count := ucast v, current_pool_count := ucast v\<rparr>]\<rparr>)"

definition acl_take :: "acl_obj \<Rightarrow> nas_cmn_sw_init_info_t \<Rightarrow> nas_cmn_sw_init_info_t" where
  "acl_take ob s = (case acl_given ob of None \<Rightarrow> s | Some (name, v) \<Rightarrow> acl_set_both name v s)"

definition acl_count_for :: "string \<Rightarrow> acl_obj \<Rightarrow> u32 option" where
  "acl_count_for name ob =
     (case acl_given ob of None \<Rightarrow> None | Some (n, v) \<Rightarrow> (if n = name then Some v else None))"

lemma acl_set_both_find [simp]: "acl_find n (acl_set_both name v s) = acl_find n s"
  by (rule acl_find_names)
    (auto simp: acl_set_both_def acl_count_def nth_list_update dest: acl_pos_bound split: option.split)

lemma acl_set_both_frame [simp]:
  "acl_ok (acl_set_both name v s) = acl_ok s" "acl_pos n (acl_set_both name v s) = acl_pos n s"
  "acl_profile_valid (acl_set_both name v s) = acl_profile_valid s"
  "length (acl_groups (acl_set_both name v s)) = length (acl_groups s)"
  by (simp_all add: acl_set_both_def acl_pos_def acl_set_both_find [unfolded acl_set_both_def acl_pos_def]
      split: option.split)

lemma acl_take_frame [simp]:
  "acl_ok (acl_take ob s) = acl_ok s" "acl_pos n (acl_take ob s) = acl_pos n s"
  "acl_profile_valid (acl_take ob s) = acl_profile_valid s"
  "length (acl_groups (acl_take ob s)) = length (acl_groups s)"
  by (simp_all add: acl_take_def split: option.split prod.split)

lemma acl_db_obj_take:
  assumes "acl_ok s" "acl_profile_valid s" "acl_obj_ok ob"
  shows "acl_db_obj ob s = Inr (acl_take ob s)"
proof -
  obtain nm c where f: "fold acl_db_attr ob (None, None) = (nm, c)"
    by (cases "fold acl_db_attr ob (None, None)")
  show ?thesis
  proof (cases "\<exists>bs v. nm = Some bs \<and> c = Some v")
    case True
    then obtain bs v where b: "nm = Some bs" "c = Some v" by blast
    then have "NUL \<in> set bs"
      using acl_db_attr_ids [of ob None None bs c] f assms(3) by (auto simp: acl_obj_ok_def)
    then obtain name where n: "c_string bs = Some name" by (simp add: c_string_def)
    obtain p where "acl_find (Some name) s = Inr p" using acl_find_Inr [OF assms(1)] by blast
    then show ?thesis
      using f b n assms(2)
      by (simp add: acl_db_obj_def acl_take_def acl_given_def acl_set_both_def acl_pos_def
          nas_switch_acl_profile_update_cache_def Let_def split: option.split)
  next
    case False
    then show ?thesis
      using f by (auto simp: acl_db_obj_def acl_take_def acl_given_def split: option.split)
  qed
qed

lemma acl_db_objs_take:
  "acl_ok s \<Longrightarrow> acl_profile_valid s \<Longrightarrow> list_all acl_obj_ok obs \<Longrightarrow> acl_db_objs obs s = Inr (fold acl_take obs s)"
  by (induction obs arbitrary: s) (auto simp: acl_db_obj_take)

lemma fold_acl_take_frame [simp]:
  "acl_ok (fold acl_take obs s) = acl_ok s" "acl_pos n (fold acl_take obs s) = acl_pos n s"
  "length (acl_groups (fold acl_take obs s)) = length (acl_groups s)"
  by (induction obs arbitrary: s) simp_all

text \<open>A group after the start: only the first of its name takes the counts of the data base.\<close>

definition started_group ::
  "acl_obj list \<Rightarrow> nas_cmn_sw_init_info_t \<Rightarrow> nat \<Rightarrow> nas_cmn_acl_profile_app_group_info_t" where
  "started_group obs s j =
     (let g = acl_groups s ! j
      in if acl_pos (app_group_name g) s = Some j
         then (case last_value (acl_count_for (app_group_name g)) obs of
                 None \<Rightarrow> g
               | Some v \<Rightarrow> g\<lparr>next_boot_pool_count := ucast v, current_pool_count := ucast v\<rparr>)
         else g)"

lemma last_value_snoc:
  "last_value f (xs @ [x]) = (case f x of None \<Rightarrow> last_value f xs | Some v \<Rightarrow> Some v)"
  by (induction xs) (auto split: option.splits)

lemma acl_search_first:
  "acl_search P gs is = Inr (Some i) \<Longrightarrow> P (gs ! i)"
  by (induction "is") (auto split: if_splits)

lemma acl_pos_name: "acl_pos name s = Some i \<Longrightarrow> app_group_name (acl_groups s ! i) = name"
  by (auto simp: acl_pos_def acl_find_def dest: acl_search_first split: sum.splits)

lemma started_group_name [simp]: "app_group_name (started_group obs s j) = app_group_name (acl_groups s ! j)"
  by (simp add: started_group_def Let_def split: option.split)

lemma fold_acl_take_groups:
  "fold acl_take obs s = s\<lparr>acl_groups := map (started_group obs s) [0..<length (acl_groups s)]\<rparr>"
proof (induction obs rule: rev_induct)
  case Nil
  have "map (started_group [] s) [0..<length (acl_groups s)] = acl_groups s"
    by (rule nth_equalityI) (simp_all add: started_group_def Let_def)
  then show ?case by simp
next
  case (snoc ob obs)
  let ?gs = "map (started_group obs s) [0..<length (acl_groups s)]"
  let ?t = "s\<lparr>acl_groups := ?gs\<rparr>"
  have pos: "acl_pos n ?t = acl_pos n s" for n
    using fold_acl_take_frame(2) [of n obs s] by (simp add: snoc.IH)
  have step: "started_group (obs @ [ob]) s j =
      (case acl_given ob of None \<Rightarrow> started_group obs s j
       | Some (n, v) \<Rightarrow> if acl_pos n s = Some j
           then (started_group obs s j)\<lparr>next_boot_pool_count := ucast v, current_pool_count := ucast v\<rparr>
           else started_group obs s j)" for j
  proof (cases "acl_given ob")
    case None
    then show ?thesis by (simp add: started_group_def Let_def last_value_snoc acl_count_for_def)
  next
    case (Some nv)
    obtain n v where nv: "nv = (n, v)" by (cases nv)
    show ?thesis
    proof (cases "acl_pos n s = Some j")
      case True
      then have "app_group_name (acl_groups s ! j) = n" by (rule acl_pos_name)
      then show ?thesis
        using True Some nv
        by (simp add: started_group_def Let_def last_value_snoc acl_count_for_def split: option.split)
    next
      case False
      then show ?thesis
        using Some nv by (auto simp: started_group_def Let_def last_value_snoc acl_count_for_def)
    qed
  qed
  have "acl_take ob ?t = s\<lparr>acl_groups := map (started_group (obs @ [ob]) s) [0..<length (acl_groups s)]\<rparr>"
  proof (cases "acl_given ob")
    case None
    then show ?thesis by (simp add: acl_take_def step)
  next
    case (Some nv)
    then obtain n v where g: "acl_given ob = Some (n, v)" by (cases nv) simp
    show ?thesis
    proof (cases "acl_pos n s")
      case None
      then show ?thesis by (simp add: acl_take_def g acl_set_both_def pos step)
    next
      case pn: (Some i)
      have "?gs[i := (?gs ! i)\<lparr>next_boot_pool_count := ucast v, current_pool_count := ucast v\<rparr>] =
          map (started_group (obs @ [ob]) s) [0..<length (acl_groups s)]"
        using acl_pos_bound [OF pn]
        by (intro nth_equalityI) (auto simp: nth_list_update step g pn)
      then show ?thesis by (simp add: acl_take_def g acl_set_both_def pos pn)
    qed
  qed
  then show ?case by (simp add: snoc.IH)
qed

lemma started_group_update:
  "current_pool_count (started_group obs s i) = next_boot_pool_count (started_group obs s i) \<Longrightarrow>
   (acl_groups s ! i)\<lparr>next_boot_pool_count := next_boot_pool_count (started_group obs s i),
     current_pool_count := next_boot_pool_count (started_group obs s i)\<rparr> = started_group obs s i"
  by (cases "acl_groups s ! i") (auto simp: started_group_def Let_def split: option.splits if_splits)

lemma ucast_ucast_u8: "ucast (ucast (w :: u8) :: u32) = w"
  by (rule ucast_down_ucast_id) (simp add: is_down)

lemma c_string_with_nul: "NUL \<notin> set name \<Longrightarrow> c_string (with_nul name) = Some name"
  by (induction name) (auto simp: c_string_def with_nul_def)

lemma acl_running_loop_exact:
  "\<forall>i \<in> set is. i < length (acl_groups s) \<Longrightarrow>
   \<exists>rc. acl_running_loop commit sw s is =
     Inr (rc, takeWhile commit (map (\<lambda>i. acl_running_obj sw (acl_groups s ! i)) is))"
  by (induction "is") (auto simp: Let_def)

text \<open>The state after a start, and the objects that it writes while the data base takes them.\<close>

definition acl_started :: "acl_obj list \<Rightarrow> nas_cmn_sw_init_info_t \<Rightarrow> nas_cmn_sw_init_info_t" where
  "acl_started obs s = s\<lparr>acl_groups := map (started_group obs s) [0..<length (acl_groups s)]\<rparr>"

definition acl_saved :: "u32 \<Rightarrow> nas_cmn_sw_init_info_t \<Rightarrow> acl_obj list" where
  "acl_saved sw s = map (\<lambda>i. acl_running_obj sw (acl_groups s ! i)) [0..<acl_count s]"

lemma acl_parse_exact:
  assumes "acl_ok s" "acl_profile_valid s" "list_all acl_obj_ok obs"
  shows "nas_sw_acl_profile_parse_db_and_update commit (Some obs) sw s =
    Inr (STD_ERR_OK, acl_started obs s, takeWhile commit (acl_saved sw (acl_started obs s)))"
proof -
  have ok: "acl_ok (acl_started obs s)" using assms(1) by (simp add: acl_started_def acl_ok_def acl_count_def)
  then obtain rc where "acl_running_loop commit sw (acl_started obs s) [0..<acl_count (acl_started obs s)] =
      Inr (rc, takeWhile commit (acl_saved sw (acl_started obs s)))"
    using acl_running_loop_exact [of "[0..<acl_count (acl_started obs s)]" "acl_started obs s" commit sw]
    by (auto simp: acl_ok_def acl_saved_def)
  then show ?thesis
    using assms
    by (simp add: nas_sw_acl_profile_parse_db_and_update_def acl_db_objs_take fold_acl_take_groups
        acl_started_def [symmetric] nas_switch_upd_acl_profile_info_to_running_cps_db_def)
qed

text \<open>C20: When the switch starts with a valid ACL profile, in any state that readings, requests and
  starts lead to under the conditions of \<open>acl_reachable\<close> and with terminated identifiers in the data
  base, the first group of each name takes as its current number of pools and as that of the next boot
  the last number the startup data base has for the name, reduced to a byte; every other group keeps the
  counts it has, those of the file or what requests made of them, and nothing else in the state changes.
  The running configuration gets one object for every group, in order, until the data base refuses one;
  the start is a success whether it refuses one or not.\<close>

theorem acl_start_takes_last:
  assumes "acl_reachable api cpy K s" "acl_profile_valid s"
    "list_all acl_obj_ok (case db of None \<Rightarrow> [] | Some obs \<Rightarrow> obs)"
  shows "nas_sw_acl_profile_parse_db_and_update commit db sw s =
    (let obs = (case db of None \<Rightarrow> [] | Some obs \<Rightarrow> obs)
     in Inr (STD_ERR_OK, s\<lparr>acl_groups := map (started_group obs s) [0..<length (acl_groups s)]\<rparr>,
          takeWhile commit (map (\<lambda>i. acl_running_obj sw (started_group obs s i)) [0..<acl_count s])))"
proof -
  let ?obs = "case db of None \<Rightarrow> [] | Some obs \<Rightarrow> obs"
  have ok: "acl_ok s" by (rule acl_reachable_ok [OF assms(1)])
  then have "acl_saved sw (acl_started ?obs s) =
      map (\<lambda>i. acl_running_obj sw (started_group ?obs s i)) [0..<acl_count s]"
    by (auto simp: acl_saved_def acl_started_def acl_count_def acl_ok_def)
  moreover have "nas_sw_acl_profile_parse_db_and_update commit db sw s =
      nas_sw_acl_profile_parse_db_and_update commit (Some ?obs) sw s"
    by (simp add: nas_sw_acl_profile_parse_db_and_update_def)
  ultimately show ?thesis
    using acl_parse_exact [OF ok assms(2,3)] by (simp add: acl_started_def Let_def)
qed

definition sample_counts :: "acl_obj list" where
  "sample_counts = [[APP_GROUP_ID (with_nul ''user''), APP_GROUP_POOL_COUNT 1],
     [APP_GROUP_POOL_COUNT 2, APP_GROUP_ID (with_nul ''user'')]]"

lemma sample_counts_ok: "list_all acl_obj_ok sample_counts"
  by (simp add: sample_counts_def acl_obj_ok_def with_nul_def)

lemma sample_acl_started: "map (started_group sample_counts sample_acl) [0..<length (acl_groups sample_acl)] =
    [sample_group ''system'', (sample_group ''user'')\<lparr>next_boot_pool_count := 2, current_pool_count := 2\<rparr>]"
  by code_simp

theorem acl_start_takes_last_witness:
  "\<exists>out. nas_sw_acl_profile_parse_db_and_update (\<lambda>_. True) (Some sample_counts) 0 sample_acl =
    Inr (STD_ERR_OK, sample_acl\<lparr>acl_groups := [sample_group ''system'',
      (sample_group ''user'')\<lparr>next_boot_pool_count := 2, current_pool_count := 2\<rparr>]\<rparr>, out)"
proof -
  have "acl_profile_valid sample_acl" by (simp add: sample_acl_def)
  from acl_start_takes_last [OF sample_acl_reachable this, of "Some sample_counts" "\<lambda>_. True" 0] sample_counts_ok
  show ?thesis by (simp add: sample_acl_started)
qed

text \<open>A restart from what a start saved gives every group the counts it had, when the names of the
  groups are different and the file gave each group one count for both values.\<close>

theorem acl_restart_keeps_counts:
  assumes init: "acl_ok s" "\<forall>g \<in> set (acl_groups s). current_pool_count g = next_boot_pool_count g"
    and names: "\<forall>i < acl_count s. acl_pos (app_group_name (acl_groups s ! i)) s = Some i \<and>
      NUL \<notin> set (app_group_name (acl_groups s ! i))"
    and i: "i < acl_count s"
  shows "acl_groups (acl_started (acl_saved sw (acl_started obs s)) s) ! i = acl_groups (acl_started obs s) ! i"
proof -
  let ?t = "acl_started obs s" and ?n = "app_group_name (acl_groups s ! i)"
  have len: "j < acl_count s \<Longrightarrow> j < length (acl_groups s)" for j using init(1) by (simp add: acl_ok_def)
  have group: "j < acl_count s \<Longrightarrow> acl_groups ?t ! j = started_group obs s j" for j
    using len [of j] by (simp add: acl_started_def)
  have cnt: "acl_count ?t = acl_count s" by (simp add: acl_started_def acl_count_def)
  have given: "acl_given (acl_running_obj sw (started_group obs s j)) =
      Some (app_group_name (acl_groups s ! j), ucast (next_boot_pool_count (started_group obs s j)))"
    if "j < acl_count s" for j
    using names that by (simp add: acl_given_def acl_running_obj_def acl_db_attr_def c_string_with_nul)
  have last: "last_value (acl_count_for ?n) (map (\<lambda>j. acl_running_obj sw (started_group obs s j)) js) =
      (if i \<in> set js then Some (ucast (next_boot_pool_count (started_group obs s i))) else None)"
    if "\<forall>j \<in> set js. j < acl_count s" for js
    using that
  proof (induction js)
    case (Cons j js)
    have "acl_count_for ?n (acl_running_obj sw (started_group obs s j)) =
        (if j = i then Some (ucast (next_boot_pool_count (started_group obs s i))) else None)"
      using given [of j] Cons.prems names i by (auto simp: acl_count_for_def) (metis option.inject)
    then show ?case using Cons by auto
  qed simp
  have saved: "acl_saved sw ?t = map (\<lambda>j. acl_running_obj sw (started_group obs s j)) [0..<acl_count s]"
    by (simp add: acl_saved_def cnt group)
  have same: "current_pool_count (started_group obs s i) = next_boot_pool_count (started_group obs s i)"
    using init(2) len [OF i] by (auto simp: started_group_def Let_def split: option.split)
  let ?g = "acl_groups s ! i" and ?v = "next_boot_pool_count (started_group obs s i)"
  have "last_value (acl_count_for ?n) (acl_saved sw ?t) = Some (ucast ?v)"
    using i by (simp add: saved last)
  then have "started_group (acl_saved sw ?t) s i = ?g\<lparr>next_boot_pool_count := ?v, current_pool_count := ?v\<rparr>"
    using names i by (simp add: started_group_def [of "acl_saved sw ?t"] ucast_ucast_u8)
  also have "\<dots> = started_group obs s i" using same by (rule started_group_update)
  finally have "started_group (acl_saved sw ?t) s i = started_group obs s i" .
  then show ?thesis using len [OF i] by (simp add: acl_started_def)
qed

theorem acl_restart_keeps_counts_witness:
  "acl_groups (acl_started (acl_saved 0 (acl_started sample_counts sample_acl)) sample_acl) ! 1 =
     (sample_group ''user'')\<lparr>next_boot_pool_count := 2, current_pool_count := 2\<rparr>"
proof -
  have count: "acl_count sample_acl = 2" by code_simp
  have pos: "acl_pos (app_group_name (acl_groups sample_acl ! i)) sample_acl = Some i \<and>
      NUL \<notin> set (app_group_name (acl_groups sample_acl ! i))" if "i < 2" for i
    using that by (auto dest!: less_2_cases) (code_simp+)
  have "acl_ok sample_acl" "\<forall>g \<in> set (acl_groups sample_acl). current_pool_count g = next_boot_pool_count g"
    by code_simp+
  from acl_restart_keeps_counts [OF this, of 1 0 sample_counts]
  show ?thesis using sample_acl_started by (simp add: count pos acl_started_def)
qed

end
