(* ===== verification/Switch.thy ===== *)
theory Switch
  imports SwAclProfile "HOL-Library.Sublist"
begin

text \<open>
  The inventory of the switches (\<open>src/src/nas_switch.c\<close>): the handler that \<open>nas_switch_init\<close>
  calls for every node of \<open>switch.xml\<close>, the initialisation, and the lookups. The file is a
  parameter: the nodes in the order in which the library visits them, their names, attributes
  and children, and the splitting of a text at commas.
\<close>

section \<open>State\<close>

definition MAX_HW_INFO_SZ :: nat where
  "MAX_HW_INFO_SZ = 256"

record nas_switch_detail_t =
  number_of_npus :: nat
  npus :: "u32 list option"
  hw_info :: string
  cpu_port_id :: u32

text \<open>
  The static variables of the file, with the profile data of \<open>SwProfile\<close>, which the handler
  fills. \<open>switch_cfg\<close> is the array of the details, empty for \<open>NULL\<close>; an array of no elements is
  taken to be \<open>NULL\<close> as well.
\<close>

record switch_state =
  failed :: bool
  number_of_switches :: nat
  switch_list :: "u32 list option"
  switch_cfg :: "nas_switch_detail_t list"
  num_switches :: nat
  nas_sw_fc_supported :: bool
  nas_sw_l2mc_vlan_port_lookup_enabled :: bool
  nas_sw_os_event_flag :: bool
  lag_supported :: bool
  ecmp_supported :: bool
  sw_info :: nas_cmn_sw_init_info_t

definition switch_state_init :: switch_state where
  "switch_state_init = \<lparr>failed = False, number_of_switches = 0, switch_list = None, switch_cfg = [],
     num_switches = 0, nas_sw_fc_supported = False, nas_sw_l2mc_vlan_port_lookup_enabled = False,
     nas_sw_os_event_flag = True, lag_supported = False, ecmp_supported = False,
     sw_info = nas_switch_info_init\<rparr>"

text \<open>
  The environment: the configuration library, the string copy, the constants of the generated
  headers, \<open>std_parse_string\<close> with a comma (the tokens, or \<open>None\<close> when it fails), and \<open>alloc c k\<close>,
  whether allocation \<open>k\<close> of the handler of node \<open>c\<close> succeeds.
\<close>

record 'n sw_env =
  cfg :: "'n config_api"
  scpy :: strcopy
  hdr :: sw_consts
  std_parse_string :: "string \<Rightarrow> string list option"
  alloc :: "'n \<Rightarrow> nat \<Rightarrow> bool"

section \<open>The handler of a node\<close>

text \<open>
  The numbers of a text: the array, if it could be allocated, and the length, which is written
  before the allocation.
\<close>

definition int_array_from_string ::
  "('n, 'x) sw_env_scheme \<Rightarrow> bool \<Rightarrow> string \<Rightarrow> u32 list option \<times> nat option" where
  "int_array_from_string E mem_ok str =
     (case std_parse_string E str of
        None \<Rightarrow> (None, None)
      | Some toks \<Rightarrow> (if mem_ok then Some (map atoi toks) else None, Some (length toks)))"

definition set_len :: "nat option \<Rightarrow> nat \<Rightarrow> nat" where
  "set_len n old = (case n of None \<Rightarrow> old | Some k \<Rightarrow> k)"

text \<open>Each part of the handler says whether the handler returns after it.\<close>

definition empty_detail :: nas_switch_detail_t where
  "empty_detail = \<lparr>number_of_npus = 0, npus = None, hw_info = [], cpu_port_id = 0\<rparr>"

definition topology_part ::
  "('n, 'x) sw_env_scheme \<Rightarrow> string \<Rightarrow> 'n \<Rightarrow> switch_state \<Rightarrow> bool \<times> switch_state" where
  "topology_part E name node s =
     (if name \<noteq> ''switch_topology'' then (False, s)
      else case config_attr (cfg E) node ''switch_ids'' of
             None \<Rightarrow> (True, s)
           | Some switch_ids \<Rightarrow>
               (let (lst, n) = int_array_from_string E (alloc E node 0) switch_ids;
                    s1 = s\<lparr>switch_list := lst,
                           number_of_switches := set_len n (number_of_switches s)\<rparr>
                in if lst = None then (True, s1\<lparr>failed := True\<rparr>)
                   else if alloc E node 1
                   then (False, s1\<lparr>switch_cfg := replicate (number_of_switches s1) empty_detail\<rparr>)
                   else (False, s1\<lparr>switch_cfg := [], failed := True\<rparr>)))"

text \<open>An \<open>int\<close> as a \<open>size_t\<close>: a negative one is very large.\<close>

definition size_of_int :: "i32 \<Rightarrow> nat" where
  "size_of_int i = unat (scast i :: u64)"

definition switch_part ::
  "('n, 'x) sw_env_scheme \<Rightarrow> string \<Rightarrow> 'n \<Rightarrow> switch_state \<Rightarrow> fault + (bool \<times> switch_state)" where
  "switch_part E name node s =
     (if name \<noteq> ''switch'' then Inr (False, s)
      else case (config_attr (cfg E) node ''id'', config_attr (cfg E) node ''npus'') of
             (Some i, Some ns) \<Rightarrow>
               (let ix = size_of_int (atoi i)
                in if ix \<ge> number_of_switches s then Inr (True, s\<lparr>failed := True\<rparr>)
                   else if ix \<ge> length (switch_cfg s) then Inl Null_Deref
                   else
                     (let (lst, n) = int_array_from_string E (alloc E node 0) ns;
                          d = switch_cfg s ! ix;
                          k = set_len n (number_of_npus d);
                          d' = d\<lparr>npus := lst, number_of_npus := k,
                                 hw_info := (case config_attr (cfg E) node ''hw_info'' of
                                               None \<Rightarrow> [] | Some h \<Rightarrow> scpy E h MAX_HW_INFO_SZ),
                                 cpu_port_id := (case config_attr (cfg E) node ''cpu_port_id'' of
                                                   None \<Rightarrow> 0 | Some c \<Rightarrow> atoi c)\<rparr>
                      in Inr (False,
                              s\<lparr>switch_cfg := (switch_cfg s)[ix := d'],
                                failed := (if lst = None then True else failed s),
                                num_switches := num_switches s + k\<rparr>)))
           | _ \<Rightarrow> Inr (True, s))"

text \<open>
  \<open>strncmp (name, X, strlen (name)) == 0\<close>: the node's name is a prefix of the word, not the word.
\<close>

definition name_is :: "string \<Rightarrow> string \<Rightarrow> bool" where
  "name_is name X \<longleftrightarrow> prefix name X"

definition feature_part ::
  "('n, 'x) sw_env_scheme \<Rightarrow> string \<Rightarrow> 'n \<Rightarrow> switch_state \<Rightarrow> bool \<times> switch_state" where
  "feature_part E name node s =
     (if \<not> name_is name ''switch_feature'' then (False, s)
      else case config_attr (cfg E) node ''fc_enabled'' of
             None \<Rightarrow> (True, s)
           | Some status \<Rightarrow> (False, s\<lparr>nas_sw_fc_supported := (atoi status \<noteq> 0)\<rparr>))"

text \<open>\<open>nas_switch_resilient_hash_handler\<close>: the value it returns and the variables afterwards.\<close>

definition nas_switch_resilient_hash_handler ::
  "bool \<Rightarrow> bool \<Rightarrow> bool \<Rightarrow> switch_state \<Rightarrow> bool \<times> switch_state" where
  "nas_switch_resilient_hash_handler is_lag is_update is_supported s =
     (let s' = (if is_update then (if is_lag then s\<lparr>lag_supported := is_supported\<rparr>
                                   else s\<lparr>ecmp_supported := is_supported\<rparr>) else s)
      in (if is_lag then lag_supported s' else ecmp_supported s', s'))"

definition upd_info ::
  "(nas_cmn_sw_init_info_t \<Rightarrow> t_std_error \<times> nas_cmn_sw_init_info_t) \<Rightarrow> switch_state \<Rightarrow> switch_state" where
  "upd_info f s = s\<lparr>sw_info := snd (f (sw_info s))\<rparr>"

definition upd_info_fault ::
  "(nas_cmn_sw_init_info_t \<Rightarrow> fault + (t_std_error \<times> nas_cmn_sw_init_info_t)) \<Rightarrow> switch_state \<Rightarrow>
   fault + switch_state" where
  "upd_info_fault f s =
     (case f (sw_info s) of Inl e \<Rightarrow> Inl e | Inr (rc, i) \<Rightarrow> Inr (s\<lparr>sw_info := i\<rparr>))"

text \<open>The other parts run one after the other; none of them ends the handler.\<close>

definition simple_parts ::
  "('n, 'x) sw_env_scheme \<Rightarrow> string \<Rightarrow> 'n \<Rightarrow> switch_state \<Rightarrow> switch_state" where
  "simple_parts E name node s =
     (let api = cfg E;
          s = (if name_is name ''switch_multicast_config'' then
                 (case config_attr api node ''l2mc_vlan_port_lookup_enabled'' of
                    None \<Rightarrow> s
                  | Some v \<Rightarrow> s\<lparr>nas_sw_l2mc_vlan_port_lookup_enabled := (atoi v \<noteq> 0)\<rparr>) else s);
          s = (if name_is name ''switch_profile''
               then upd_info (nas_switch_update_profile_info api (scpy E) (alloc E node 1) node) s else s);
          s = (if name_is name ''switch_npu_profile''
               then upd_info (nas_switch_update_npu_profile_info api node) s else s);
          s = (if name_is name ''switch_forwarding_mode''
               then upd_info (nas_switch_update_uft_info api (hdr E) (alloc E node 2) node) s else s);
          s = (if name_is name ''switch_resilient_hash'' then
                 (let s1 = (if config_attr api node ''lag_enabled'' \<noteq> None
                            then snd (nas_switch_resilient_hash_handler True True True s) else s)
                  in if config_attr api node ''ecmp_enabled'' \<noteq> None
                     then snd (nas_switch_resilient_hash_handler False True True s1) else s1) else s);
          s = (if name_is name ''switch_ecmp'' then upd_info (nas_switch_update_ecmp_info api node) s else s)
      in if name_is name ''ipv6_extended_prefix''
         then upd_info (nas_switch_update_ipv6_extended_prefix_info api node) s else s)"

definition last_parts ::
  "('n, 'x) sw_env_scheme \<Rightarrow> string \<Rightarrow> 'n \<Rightarrow> switch_state \<Rightarrow> switch_state" where
  "last_parts E name node s =
     (let s = (if name_is name ''vxlan-riot-config''
               then upd_info (nas_switch_update_vxlan_riot_info (cfg E) node) s else s)
      in if name_is name ''l3-table-size''
         then upd_info (nas_switch_update_l3_table_size_info (cfg E) node) s else s)"

definition fn_switch_parser ::
  "('n, 'x) sw_env_scheme \<Rightarrow> 'n \<Rightarrow> switch_state \<Rightarrow> fault + switch_state" where
  "fn_switch_parser E node s =
     (let name = config_name (cfg E) node in
      if failed s then Inr s
      else case topology_part E name node s of
        (True, s1) \<Rightarrow> Inr s1
      | (False, s1) \<Rightarrow>
        (case switch_part E name node s1 of
           Inl f \<Rightarrow> Inl f
         | Inr (True, s2) \<Rightarrow> Inr s2
         | Inr (False, s2) \<Rightarrow>
           (case feature_part E name node s2 of
              (True, s3) \<Rightarrow> Inr s3
            | (False, s3) \<Rightarrow>
              (let s4 = simple_parts E name node s3 in
               case (if name_is name ''switch_acl_profile''
                     then upd_info_fault (nas_switch_update_acl_profile_info (cfg E) (scpy E) (hdr E)
                            (alloc E node 3) (\<lambda>i. alloc E node (i + 4)) node) s4
                     else Inr s4) of
                 Inl f \<Rightarrow> Inl f
               | Inr s5 \<Rightarrow>
                 (let s6 = last_parts E name node s5 in
                  if name_is name ''deep_buffer_mode''
                  then upd_info_fault (nas_switch_update_deep_buffer_mode_info (cfg E) node) s6
                  else Inr s6)))))"

fun parse_nodes ::
  "('n, 'x) sw_env_scheme \<Rightarrow> 'n list \<Rightarrow> switch_state \<Rightarrow> fault + switch_state" where
  "parse_nodes E [] s = Inr s"
| "parse_nodes E (c # cs) s =
     (case fn_switch_parser E c s of Inl f \<Rightarrow> Inl f | Inr s' \<Rightarrow> parse_nodes E cs s')"

section \<open>Initialisation\<close>

text \<open>
  \<open>nas_switch_init\<close>: the surroundings are the variable of the environment, the file (\<open>None\<close> when
  it cannot be loaded, \<open>Some None\<close> when it has no root, else its nodes), the data base and whether
  the file that switches the events off exists. The return code of the parsing is overwritten by
  that of the data base.
\<close>

record 'n init_env = "'n sw_env" +
  cfg_path_var :: "string option"
  std_config_load :: "string \<Rightarrow> 'n list option option"
  obj_ok :: bool
  commit :: "sw_obj \<Rightarrow> bool"
  acl_commit :: "acl_obj \<Rightarrow> bool"
  startup_db :: "sw_obj list option"
  acl_startup_db :: "acl_obj list option"
  nocreate_exists :: bool

definition NAS_SWITCH_CFG_DEFAULT_PATH :: string where
  "NAS_SWITCH_CFG_DEFAULT_PATH = ''/etc/opx/switch.xml''"

definition init_intf_os_event_flag :: "bool \<Rightarrow> bool" where
  "init_intf_os_event_flag file_exists = (if file_exists then False else True)"

definition nas_switch_init :: "'n init_env \<Rightarrow> switch_state \<Rightarrow> fault + (t_std_error \<times> switch_state)" where
  "nas_switch_init E s =
     (let path = (case cfg_path_var E of None \<Rightarrow> NAS_SWITCH_CFG_DEFAULT_PATH | Some p \<Rightarrow> p) in
      case std_config_load E path of
        None \<Rightarrow> Inr (STD_ERR HALCOM FAIL (Priv 0), s)
      | Some root \<Rightarrow>
        (case (case root of None \<Rightarrow> Inr s | Some nodes \<Rightarrow> parse_nodes E nodes s) of
           Inl f \<Rightarrow> Inl f
         | Inr s1 \<Rightarrow>
           (case nas_sw_parse_db_and_update (scpy E) (obj_ok E) (commit E) (acl_commit E)
                   (startup_db E) (acl_startup_db E) 0 (sw_info s1) of
              Inl f \<Rightarrow> Inl f
            | Inr (rc, i, _, _) \<Rightarrow>
              (let s2 = s1\<lparr>sw_info := i\<rparr>
               in if rc \<noteq> STD_ERR_OK then Inr (STD_ERR HALCOM FAIL (Priv 0), s2)
                  else Inr (rc, s2\<lparr>nas_sw_os_event_flag :=
                                     init_intf_os_event_flag (nocreate_exists E)\<rparr>)))))"

section \<open>Lookups\<close>

definition nas_switch_get_fc_supported :: "switch_state \<Rightarrow> bool" where
  "nas_switch_get_fc_supported s = nas_sw_fc_supported s"

definition nas_switch_get_l2mc_vlan_port_lookup_enabled :: "switch_state \<Rightarrow> bool" where
  "nas_switch_get_l2mc_vlan_port_lookup_enabled s = nas_sw_l2mc_vlan_port_lookup_enabled s"

definition nas_switch_resilient_hash_ecmp_supported :: "switch_state \<Rightarrow> bool" where
  "nas_switch_resilient_hash_ecmp_supported s = fst (nas_switch_resilient_hash_handler False False False s)"

definition nas_switch_resilient_hash_lag_supported :: "switch_state \<Rightarrow> bool" where
  "nas_switch_resilient_hash_lag_supported s = fst (nas_switch_resilient_hash_handler True False False s)"

definition nas_switch_get_max_npus :: "switch_state \<Rightarrow> nat" where
  "nas_switch_get_max_npus s = num_switches s"

definition nas_switch_get_os_event_flag :: "switch_state \<Rightarrow> bool" where
  "nas_switch_get_os_event_flag s = nas_sw_os_event_flag s"

text \<open>
  The pointer \<open>&(switch_cfg[switch_id])\<close> as the index of the detail, \<open>None\<close> for \<open>NULL\<close>. When the
  array is \<open>NULL\<close>, the address of its element 0 is \<open>NULL\<close> too, and that of any other element is a
  pointer to nowhere. \<open>detail_at\<close> is an access through such a pointer.
\<close>

definition nas_switch :: "u32 \<Rightarrow> switch_state \<Rightarrow> nat option" where
  "nas_switch switch_id s =
     (if unat switch_id \<ge> number_of_switches s then None
      else if switch_cfg s = [] \<and> unat switch_id = 0 then None
      else Some (unat switch_id))"

definition detail_at :: "switch_state \<Rightarrow> nat \<Rightarrow> fault + nas_switch_detail_t" where
  "detail_at s i =
     (if i < length (switch_cfg s) then Inr (switch_cfg s ! i)
      else Inl (if switch_cfg s = [] then Null_Deref else Out_Of_Bounds))"

text \<open>The two nested loops: the NPUs of a switch up to their number, then the switches.\<close>

fun find_npu :: "u32 \<Rightarrow> nas_switch_detail_t \<Rightarrow> nat list \<Rightarrow> fault + bool" where
  "find_npu npu d [] = Inr False"
| "find_npu npu d (k # ks) =
     (case npus d of
        None \<Rightarrow> Inl Null_Deref
      | Some l \<Rightarrow>
          if k \<ge> length l then Inl Out_Of_Bounds
          else if l ! k = npu then Inr True else find_npu npu d ks)"

fun find_switch :: "u32 \<Rightarrow> switch_state \<Rightarrow> nat list \<Rightarrow> fault + nat option" where
  "find_switch npu s [] = Inr None"
| "find_switch npu s (i # is) =
     (case detail_at s i of
        Inl f \<Rightarrow> Inl f
      | Inr d \<Rightarrow>
        (case find_npu npu d [0..<number_of_npus d] of
           Inl f \<Rightarrow> Inl f
         | Inr True \<Rightarrow> Inr (Some i)
         | Inr False \<Rightarrow> find_switch npu s is))"

text \<open>The structure that the inventory points to.\<close>

definition nas_switch_inventory :: "switch_state \<Rightarrow> nat \<times> u32 list option" where
  "nas_switch_inventory s = (number_of_switches s, switch_list s)"

definition nas_find_switch_id_by_npu :: "u32 \<Rightarrow> switch_state \<Rightarrow> fault + nat option" where
  "nas_find_switch_id_by_npu npu s = find_switch npu s [0..<number_of_switches s]"

text \<open>
  \<open>hw_info\<close> is an array inside the detail, so the function only computes an address: the result is
  again the index of the detail. \<open>read_hw_info\<close> is what the caller reads there.
\<close>

definition nas_switch_get_hw_info :: "u32 \<Rightarrow> switch_state \<Rightarrow> nat option" where
  "nas_switch_get_hw_info switch_id s =
     (case nas_switch switch_id s of None \<Rightarrow> None | Some i \<Rightarrow> Some i)"

definition read_hw_info :: "switch_state \<Rightarrow> nat option \<Rightarrow> fault + string option" where
  "read_hw_info s p =
     (case p of
        None \<Rightarrow> Inr None
      | Some i \<Rightarrow> (case detail_at s i of Inl f \<Rightarrow> Inl f | Inr d \<Rightarrow> Inr (Some (hw_info d))))"

definition nas_switch_get_cpu_port_id :: "u32 \<Rightarrow> switch_state \<Rightarrow> fault + u32" where
  "nas_switch_get_cpu_port_id switch_id s =
     (case nas_switch switch_id s of
        None \<Rightarrow> Inr 0
      | Some i \<Rightarrow>
          (case detail_at s i of Inl f \<Rightarrow> Inl f | Inr d \<Rightarrow> Inr (cpu_port_id d)))"

end
