(* ===== verification/SwitchProps.thy ===== *)
theory SwitchProps
  imports Switch
begin

text \<open>
  What the inventory of switches guarantees: as long as the parsing has not failed, the array of
  the details has the length that the loops use, so the lookups are exact and never fault. The
  initialisation reports success also when it has failed, and then a lookup can fault.
\<close>

section \<open>The invariant\<close>

definition npus_of :: "nas_switch_detail_t \<Rightarrow> u32 list" where
  "npus_of d = (case npus d of None \<Rightarrow> [] | Some l \<Rightarrow> l)"

definition detail_ok :: "nas_switch_detail_t \<Rightarrow> bool" where
  "detail_ok d \<longleftrightarrow> length (npus_of d) = number_of_npus d"

definition switch_ids :: "switch_state \<Rightarrow> u32 list" where
  "switch_ids s = (case switch_list s of None \<Rightarrow> [] | Some l \<Rightarrow> l)"

definition switches_ok :: "switch_state \<Rightarrow> bool" where
  "switches_ok s \<longleftrightarrow>
     failed s \<or> length (switch_cfg s) = number_of_switches s \<and> (\<forall>d \<in> set (switch_cfg s). detail_ok d)
       \<and> length (switch_ids s) = number_of_switches s"

text \<open>The parts of the handler that read the profiles keep the inventory.\<close>

definition inventory :: "switch_state \<Rightarrow> bool \<times> nat \<times> u32 list option \<times> nas_switch_detail_t list" where
  "inventory s = (failed s, number_of_switches s, switch_list s, switch_cfg s)"

named_theorems inventory_simps "operations that keep the inventory"

lemma inventory_upd_info [inventory_simps]: "inventory (upd_info f s) = inventory s"
  by (simp add: inventory_def upd_info_def)

lemma inventory_hash [inventory_simps]:
  "inventory (snd (nas_switch_resilient_hash_handler l u v s)) = inventory s"
  by (simp add: inventory_def nas_switch_resilient_hash_handler_def Let_def)

lemma inventory_flags [inventory_simps]:
  "inventory (s\<lparr>nas_sw_l2mc_vlan_port_lookup_enabled := b\<rparr>) = inventory s"
  "inventory (s\<lparr>nas_sw_fc_supported := b\<rparr>) = inventory s"
  "inventory (s\<lparr>sw_info := i\<rparr>) = inventory s"
  "inventory (s\<lparr>nas_sw_os_event_flag := b\<rparr>) = inventory s"
  by (simp_all add: inventory_def)

lemma inventory_upd_info_fault: "upd_info_fault f s = Inr s' \<Longrightarrow> inventory s' = inventory s"
  by (auto simp: upd_info_fault_def inventory_simps split: sum.splits)

lemma inventory_if: "inventory (if b then x else y) = (if b then inventory x else inventory y)"
  by simp

lemma inventory_simple_parts [inventory_simps]: "inventory (simple_parts E name node s) = inventory s"
  unfolding simple_parts_def Let_def
  by (simp only: inventory_if inventory_simps if_cancel split: option.split) (simp add: inventory_simps)

lemma inventory_last_parts [inventory_simps]: "inventory (last_parts E name node s) = inventory s"
  unfolding last_parts_def Let_def by (simp add: inventory_simps inventory_if)

lemma inventory_feature_part: "feature_part E name node s = (r, s') \<Longrightarrow> inventory s' = inventory s"
  by (auto simp: feature_part_def inventory_simps split: if_splits option.splits)

lemma switches_ok_inventory: "inventory s' = inventory s \<Longrightarrow> switches_ok s' = switches_ok s"
  by (simp add: inventory_def switches_ok_def switch_ids_def)

lemma int_array_length:
  "int_array_from_string E ok str = (Some l, n) \<Longrightarrow> n = Some (length l)"
  by (auto simp: int_array_from_string_def split: option.splits if_splits)

lemma topology_part_ok: "switches_ok s \<Longrightarrow> topology_part E name node s = (r, s') \<Longrightarrow> switches_ok s'"
  by (auto simp: topology_part_def switches_ok_def detail_ok_def npus_of_def switch_ids_def empty_detail_def Let_def
      set_len_def dest!: int_array_length split: if_splits option.splits prod.splits)

lemma detail_ok_update [simp]:
  "detail_ok (d\<lparr>npus := Some l, number_of_npus := length l, hw_info := h, cpu_port_id := c\<rparr>)"
  by (simp add: detail_ok_def npus_of_def)

lemma ball_set_update: "\<forall>d \<in> set xs. P d \<Longrightarrow> P y \<Longrightarrow> \<forall>d \<in> set (xs[i := y]). P d"
  using set_update_subset_insert [of xs i y] by auto

lemma switch_part_ok:
  assumes ok: "switches_ok s" and part: "switch_part E name node s = Inr (r, s')"
  shows "switches_ok s'"
proof (cases "failed s' \<or> s' = s")
  case True
  then show ?thesis using ok by (auto simp: switches_ok_def)
next
  case False
  from part False obtain i l h c n ns where s':
    "int_array_from_string E (alloc E node 0) ns = (Some l, n)"
    "switch_cfg s' = (switch_cfg s)
       [i := (switch_cfg s ! i)\<lparr>npus := Some l, number_of_npus := set_len n (number_of_npus (switch_cfg s ! i)),
             hw_info := h, cpu_port_id := c\<rparr>]"
    "number_of_switches s' = number_of_switches s" "\<not> failed s" "switch_list s' = switch_list s"
    by (auto simp: switch_part_def Let_def split: if_splits option.splits prod.splits)
  have n: "n = Some (length l)" using int_array_length [OF s'(1)] .
  have "\<forall>d \<in> set (switch_cfg s'). detail_ok d"
    unfolding s'(2) n set_len_def option.case
    by (rule ball_set_update) (use ok s'(4) in \<open>simp_all add: switches_ok_def\<close>)
  then show ?thesis using ok s' by (simp add: switches_ok_def switch_ids_def)
qed

lemma fn_switch_parser_ok:
  assumes ok: "switches_ok s" and run: "fn_switch_parser E node s = Inr s'"
  shows "switches_ok s'"
proof -
  let ?name = "config_name (cfg E) node"
  obtain r1 s1 where 1: "topology_part E ?name node s = (r1, s1)" by fastforce
  have ok1: "switches_ok s1" using topology_part_ok [OF ok 1] .
  show ?thesis
  proof (cases "failed s \<or> r1")
    case True
    then show ?thesis using run ok ok1 1 by (auto simp: fn_switch_parser_def Let_def split: if_splits)
  next
    case False
    then obtain r2 s2 where 2: "switch_part E ?name node s1 = Inr (r2, s2)"
      using run 1 by (auto simp: fn_switch_parser_def Let_def split: sum.splits)
    have ok2: "switches_ok s2" using switch_part_ok [OF ok1 2] .
    obtain r3 s3 where 3: "feature_part E ?name node s2 = (r3, s3)" by fastforce
    have ok3: "switches_ok s3"
      using ok2 switches_ok_inventory [OF inventory_feature_part [OF 3]] by simp
    show ?thesis
    proof (cases "r2 \<or> r3")
      case True
      then show ?thesis using run False 1 2 3 ok2 ok3
        by (cases r2; cases r3) (simp_all add: fn_switch_parser_def)
    next
      case no: False
      have "inventory s' = inventory s3"
        using run False no 1 2 3
        by (auto simp: fn_switch_parser_def Let_def inventory_simps dest!: inventory_upd_info_fault
            split: if_splits sum.splits)
      then show ?thesis using ok3 switches_ok_inventory by blast
    qed
  qed
qed

lemma parse_nodes_ok: "switches_ok s \<Longrightarrow> parse_nodes E cs s = Inr s' \<Longrightarrow> switches_ok s'"
  by (induction cs arbitrary: s) (auto dest: fn_switch_parser_ok split: sum.splits)

lemma switches_ok_init: "switches_ok switch_state_init"
  by (simp add: switches_ok_def switch_ids_def switch_state_init_def)

lemma nas_switch_init_ok:
  assumes ok: "switches_ok s" and run: "nas_switch_init E s = Inr (rc, s')"
  shows "switches_ok s'"
proof -
  have "s' = s \<or> (\<exists>s1 i b. switches_ok s1 \<and> (s' = s1\<lparr>sw_info := i\<rparr> \<or>
      s' = s1\<lparr>sw_info := i, nas_sw_os_event_flag := b\<rparr>))"
    using run ok by (fastforce simp: nas_switch_init_def Let_def dest: parse_nodes_ok
        split: option.splits sum.splits if_splits)
  then show ?thesis using ok by (auto simp: switches_ok_def switch_ids_def)
qed

text \<open>The states of the process: any number of initialisations, each in surroundings of its own.
  The nodes of the files are numbers.\<close>

inductive switch_reachable :: "switch_state \<Rightarrow> bool" where
  start: "switch_reachable switch_state_init"
| init: "switch_reachable s \<Longrightarrow> nas_switch_init (E :: int init_env) s = Inr (rc, s') \<Longrightarrow> switch_reachable s'"

lemma switch_reachable_ok: "switch_reachable s \<Longrightarrow> switches_ok s"
  by (induction rule: switch_reachable.induct) (auto intro: switches_ok_init nas_switch_init_ok)

section \<open>Lookups\<close>

lemma find_npu_from:
  assumes "npus d = Some l"
  shows "k \<le> length l \<Longrightarrow> find_npu npu d [k..<length l] = Inr (npu \<in> set (drop k l))"
proof (induction "length l - k" arbitrary: k)
  case (Suc n)
  then have "k < length l" by simp
  moreover from this have "drop k l = l ! k # drop (Suc k) l" by (simp add: Cons_nth_drop_Suc)
  ultimately show ?case
    using Suc.hyps(1) [of "Suc k"] Suc.hyps(2) assms by (auto simp: upt_conv_Cons)
qed simp

lemma find_npu_exact: "detail_ok d \<Longrightarrow> find_npu npu d [0..<number_of_npus d] = Inr (npu \<in> set (npus_of d))"
  using find_npu_from [of d "npus_of d" 0 npu]
  by (cases "npus d") (auto simp: detail_ok_def npus_of_def)

lemma find_switch_exact:
  assumes "\<forall>i \<in> set is. i < length (switch_cfg s)" "\<forall>d \<in> set (switch_cfg s). detail_ok d"
  shows "find_switch npu s is = Inr (find (\<lambda>i. npu \<in> set (npus_of (switch_cfg s ! i))) is)"
  using assms by (induction "is") (auto simp: detail_at_def find_npu_exact)

lemma detail_at_ok: "\<not> failed s \<Longrightarrow> switches_ok s \<Longrightarrow> i < number_of_switches s \<Longrightarrow> detail_at s i = Inr (switch_cfg s ! i)"
  by (simp add: detail_at_def switches_ok_def)

text \<open>C21: After any initialisations none of which failed to parse its file, the lookups never
  fault and are exact: the switch of an NPU is the first one whose list of NPUs has it, and the
  hardware text and the port of the CPU are those of the switch, or \<open>NULL\<close> and 0 for a number
  that is not of a switch.\<close>

theorem switch_lookup_exact:
  assumes "switch_reachable s" "\<not> failed s"
  shows "nas_find_switch_id_by_npu npu s =
      Inr (find (\<lambda>i. npu \<in> set (npus_of (switch_cfg s ! i))) [0..<number_of_switches s]) \<and>
    read_hw_info s (nas_switch_get_hw_info i s) =
      Inr (if unat i < number_of_switches s then Some (hw_info (switch_cfg s ! unat i)) else None) \<and>
    nas_switch_get_cpu_port_id i s =
      Inr (if unat i < number_of_switches s then cpu_port_id (switch_cfg s ! unat i) else 0)"
proof -
  have ok: "switches_ok s" using switch_reachable_ok [OF assms(1)] .
  have "nas_find_switch_id_by_npu npu s =
      Inr (find (\<lambda>i. npu \<in> set (npus_of (switch_cfg s ! i))) [0..<number_of_switches s])"
    unfolding nas_find_switch_id_by_npu_def
    by (rule find_switch_exact) (use ok assms(2) in \<open>auto simp: switches_ok_def\<close>)
  moreover have "nas_switch i s = (if unat i < number_of_switches s then Some (unat i) else None)"
    using ok assms(2) by (auto simp: nas_switch_def switches_ok_def)
  ultimately show ?thesis
    using ok assms(2)
    by (simp add: nas_switch_get_hw_info_def read_hw_info_def nas_switch_get_cpu_port_id_def detail_at_ok)
qed

section \<open>A sample file\<close>

text \<open>Node 0 is the topology, the others are its switches, with the identifiers 0 and 1.\<close>

definition sample_attrs :: "int \<Rightarrow> string \<Rightarrow> string option" where
  "sample_attrs n a =
     (if n = 0 then if a = ''switch_ids'' then Some ''0,1'' else None
      else if a = ''id'' then Some (if n = 1 then ''0'' else ''1'')
      else if a = ''npus'' then Some (if n = 1 then ''0'' else ''2,3'')
      else if a = ''cpu_port_id'' \<and> n = 2 then Some ''5''
      else None)"

definition sample_tokens :: "string \<Rightarrow> string list option" where
  "sample_tokens str =
     (if str = ''0,1'' then Some [''0'', ''1''] else if str = ''2,3'' then Some [''2'', ''3''] else Some [str])"

definition sample_env :: "(int \<Rightarrow> nat \<Rightarrow> bool) \<Rightarrow> int list \<Rightarrow> int init_env" where
  "sample_env mem nodes = \<lparr>
     cfg = \<lparr>config_name = (\<lambda>n. if n = 0 then ''switch_topology'' else ''switch''),
            config_attr = sample_attrs, config_children = (\<lambda>n. [])\<rparr>,
     scpy = trunc_copy,
     hdr = \<lparr>BASE_SWITCH_UFT_MODE_MIN = 1, BASE_SWITCH_UFT_MODE_MAX = 4,
            BASE_ACL_STAGE_INGRESS = 1, BASE_ACL_STAGE_EGRESS = 2\<rparr>,
     std_parse_string = sample_tokens, alloc = mem,
     cfg_path_var = None, std_config_load = (\<lambda>p. Some (Some nodes)), obj_ok = True,
     commit = (\<lambda>ob. True), acl_commit = (\<lambda>ob. True), startup_db = None, acl_startup_db = None,
     nocreate_exists = False\<rparr>"

definition sample_switches :: switch_state where
  "sample_switches = snd (projr (nas_switch_init (sample_env (\<lambda>n k. True) [0, 1, 2]) switch_state_init))"

lemma sample_init:
  "nas_switch_init (sample_env (\<lambda>n k. True) [0, 1, 2]) switch_state_init = Inr (STD_ERR_OK, sample_switches)"
  unfolding sample_switches_def by code_simp

lemma sample_reachable: "switch_reachable sample_switches"
  by (rule switch_reachable.init [OF switch_reachable.start sample_init])

lemma sample_ok: "\<not> failed sample_switches"
  by code_simp

lemma sample_parts: "map npus_of (switch_cfg sample_switches) = [[0], [2, 3]]"
  "number_of_switches sample_switches = 2" "map cpu_port_id (switch_cfg sample_switches) = [0, 5]"
  by code_simp+

theorem switch_lookup_exact_witness:
  "nas_find_switch_id_by_npu 3 sample_switches = Inr (Some 1) \<and>
   nas_find_switch_id_by_npu 1 sample_switches = Inr None \<and>
   nas_switch_get_cpu_port_id 1 sample_switches = Inr 5 \<and> nas_switch_get_cpu_port_id 2 sample_switches = Inr 0"
proof -
  have cfg: "npus_of (switch_cfg sample_switches ! 0) = [0]"
    "npus_of (switch_cfg sample_switches ! Suc 0) = [2, 3]" "cpu_port_id (switch_cfg sample_switches ! Suc 0) = 5"
    by code_simp+
  have upt: "[0..<2::nat] = [0, Suc 0]" by code_simp
  show ?thesis
    using switch_lookup_exact [OF sample_reachable sample_ok, of 3 1]
      switch_lookup_exact [OF sample_reachable sample_ok, of 1 2]
    by (simp add: sample_parts(2) cfg upt)
qed

section \<open>An initialisation that fails\<close>

definition oom_env :: "int init_env" where
  "oom_env = sample_env (\<lambda>n k. k \<noteq> 1) [0, 1, 2]"

definition oom_parsed :: switch_state where
  "oom_parsed = projr (parse_nodes oom_env [0, 1, 2] switch_state_init)"

text \<open>C37: When the parsing of the file fails and the reading of the data base does not, the
  initialisation returns success, whatever file the environment names: the code of the data base
  replaces that of the parsing. When it failed because the array of the details could not be
  allocated, the switches stay counted: switch 0 looks as if it did not exist; for every other one
  the port of the CPU is read through a pointer to nowhere, and the hardware text is such a pointer;
  and the search for the switch of any NPU reads through the null pointer.\<close>

theorem init_hides_failure:
  assumes "std_config_load E (case cfg_path_var E of None \<Rightarrow> NAS_SWITCH_CFG_DEFAULT_PATH | Some p \<Rightarrow> p) =
      Some (Some ns)"
    and "parse_nodes E ns s = Inr u" "failed u"
    and "nas_sw_parse_db_and_update (scpy E) (obj_ok E) (commit E) (acl_commit E) (startup_db E)
      (acl_startup_db E) 0 (sw_info u) = Inr (STD_ERR_OK, i, obs, acl_obs)"
  shows "\<exists>t. nas_switch_init E s = Inr (STD_ERR_OK, t) \<and> failed t \<and> inventory t = inventory u \<and>
    (switch_cfg u = [] \<and> 0 < number_of_switches u \<longrightarrow>
       nas_switch_get_hw_info 0 t = None \<and> nas_switch_get_cpu_port_id 0 t = Inr 0 \<and>
       (\<forall>k. 0 < unat k \<and> unat k < number_of_switches u \<longrightarrow>
          nas_switch_get_hw_info k t = Some (unat k) \<and> read_hw_info t (Some (unat k)) = Inl Null_Deref \<and>
          nas_switch_get_cpu_port_id k t = Inl Null_Deref) \<and>
       (\<forall>npu. nas_find_switch_id_by_npu npu t = Inl Null_Deref))"
proof -
  let ?t = "u\<lparr>sw_info := i, nas_sw_os_event_flag := init_intf_os_event_flag (nocreate_exists E)\<rparr>"
  have "nas_switch_init E s = Inr (STD_ERR_OK, ?t)"
    using assms by (simp add: nas_switch_init_def Let_def)
  moreover have "nas_find_switch_id_by_npu npu ?t = Inl Null_Deref"
    if "switch_cfg u = []" "0 < number_of_switches u" for npu
    using that by (simp add: nas_find_switch_id_by_npu_def detail_at_def upt_rec)
  ultimately show ?thesis
    using assms(3)
    by (intro exI [of _ ?t]) (simp add: inventory_def nas_switch_get_hw_info_def read_hw_info_def
      nas_switch_get_cpu_port_id_def nas_switch_def detail_at_def)
qed

text \<open>The array of the details of the sample file cannot be allocated.\<close>

theorem init_hides_failure_witness:
  "\<exists>t. nas_switch_init oom_env switch_state_init = Inr (STD_ERR_OK, t) \<and> failed t \<and>
     nas_switch_get_cpu_port_id 0 t = Inr 0 \<and> nas_switch_get_cpu_port_id 1 t = Inl Null_Deref \<and>
     nas_find_switch_id_by_npu 3 t = Inl Null_Deref"
proof -
  have env: "std_config_load oom_env (case cfg_path_var oom_env of None \<Rightarrow> NAS_SWITCH_CFG_DEFAULT_PATH
      | Some p \<Rightarrow> p) = Some (Some [0, 1, 2])"
    by (simp add: oom_env_def sample_env_def)
  have parsed: "parse_nodes oom_env [0, 1, 2] switch_state_init = Inr oom_parsed" "failed oom_parsed"
    "number_of_switches oom_parsed = 2" "switch_cfg oom_parsed = []"
    unfolding oom_parsed_def by code_simp+
  let ?db = "nas_sw_parse_db_and_update (scpy oom_env) (obj_ok oom_env) (commit oom_env)
      (acl_commit oom_env) (startup_db oom_env) (acl_startup_db oom_env) 0 (sw_info oom_parsed)"
  have "case ?db of Inl f \<Rightarrow> False | Inr r \<Rightarrow> fst r = STD_ERR_OK" by code_simp
  then obtain i obs acl_obs where "?db = Inr (STD_ERR_OK, i, obs, acl_obs)"
    by (cases ?db) auto
  from init_hides_failure [OF env parsed(1,2) this] parsed(3,4) show ?thesis by auto
qed

text \<open>The parts of the node handler match a node whose name is a prefix of their word, so a
  node with the name of a switch and without the attribute of the feature part ends the handler
  there; with the attribute the parts of the profiles run on it and declare the ACL profile
  valid although the file has none.\<close>

theorem switch_node_runs_feature_part:
  "(case fn_switch_parser (sample_env (\<lambda>n k. True) []\<lparr>cfg := \<lparr>config_name = (\<lambda>n. ''switch''),
        config_attr = (\<lambda>n a. if a = ''fc_enabled'' then Some ''1'' else sample_attrs 1 a),
        config_children = (\<lambda>n. [])\<rparr>\<rparr>) 1 sample_switches of
      Inr s \<Rightarrow> nas_sw_fc_supported s \<and> acl_profile_valid (sw_info s) | Inl f \<Rightarrow> False) \<and>
   \<not> nas_sw_fc_supported sample_switches \<and> \<not> acl_profile_valid (sw_info sample_switches)"
  by (intro conjI; code_simp)

end
