(* ===== verification/SysMac.thy ===== *)
theory SysMac
  imports Prelude
begin

text \<open>
  The base MAC address of the system (\<open>src/src/nas_switch_utl.cpp\<close>): two functions that wait until
  the platform answers. The platform is a parameter, a world that every request and every pause
  moves on. The loops may run for ever, which is the value \<open>None\<close>.
\<close>

section \<open>The platform\<close>

text \<open>
  The two requests, by their keys. A request gives whether it succeeded and the list of the
  objects; \<open>first_attr\<close> is the address attribute of the first object of a list that is not empty, as
  \<open>cps_api_object_list_get\<close> and \<open>cps_api_object_attr_get\<close> find it. Of an empty list the former gives
  \<open>NULL\<close>; \<open>null_object_attr\<close> is what the latter does with that, a fault or an answer.
\<close>

datatype mac_query = SWITCHING_ENTITY | CHASSIS_OBJ

record ('w, 'l) mac_env =
  key_from_attr :: "mac_query \<Rightarrow> 'w \<Rightarrow> bool \<times> 'w"
  cps_api_get :: "mac_query \<Rightarrow> 'w \<Rightarrow> bool \<times> 'l \<times> 'w"
  list_size :: "'l \<Rightarrow> nat"
  first_attr :: "mac_query \<Rightarrow> 'l \<Rightarrow> u8 list option"
  null_object_attr :: "fault + u8 list option"
  is_registered :: "'w \<Rightarrow> bool \<times> 'w"
  std_usleep :: "nat \<Rightarrow> 'w \<Rightarrow> 'w"

text \<open>The world, the number of requests that are open, and the lines about waiting in the log.\<close>

record 'w mac_state =
  platform :: 'w
  open_requests :: nat
  wait_logs :: nat

abbreviation upd_platform :: "'w \<Rightarrow> 'w mac_state \<Rightarrow> 'w mac_state" where
  "upd_platform w s \<equiv> s\<lparr>platform := w\<rparr>"

definition request_init :: "'w mac_state \<Rightarrow> 'w mac_state" where
  "request_init s = s\<lparr>open_requests := open_requests s + 1\<rparr>"

definition request_close :: "'w mac_state \<Rightarrow> 'w mac_state" where
  "request_close s = s\<lparr>open_requests := open_requests s - 1\<rparr>"

text \<open>\<open>memcpy\<close> of the 6 bytes of a \<open>hal_mac_addr_t\<close> from the attribute's data.\<close>

definition copy_mac :: "u8 list \<Rightarrow> fault + u8 list" where
  "copy_mac bs = (if length bs < 6 then Inl Out_Of_Bounds else Inr (take 6 bs))"

section \<open>The requests\<close>

definition dn_hal_low_get_number_of_npus :: u32 where
  "dn_hal_low_get_number_of_npus = 1"

text \<open>
  The pointer \<open>mac_base\<close> is \<open>None\<close> for \<open>NULL\<close>, else what it points to; the result has the code,
  what it points to afterwards, and the state.
\<close>

definition nas_switch_get_sys_mac_base ::
  "('w, 'l) mac_env \<Rightarrow> u8 list option \<Rightarrow> 'w mac_state \<Rightarrow> fault + (t_std_error \<times> u8 list option \<times> 'w mac_state)" where
  "nas_switch_get_sys_mac_base E mac_base s =
     (if mac_base = None then Inr (STD_ERR BOARD PARAM (Priv 0), mac_base, s)
      else
        (let s1 = request_init s;
             failed = (\<lambda>s. Inr (STD_ERR BOARD FAIL (Priv 0), mac_base, request_close s))
         in case key_from_attr E SWITCHING_ENTITY (platform s1) of (key_ok, w2) \<Rightarrow>
              (let s2 = upd_platform w2 s1
               in if \<not> key_ok then failed s2
                  else case cps_api_get E SWITCHING_ENTITY (platform s2) of (ok, l, w3) \<Rightarrow>
                    (let s3 = upd_platform w3 s2
                     in if \<not> ok then failed s3
                        else if list_size E l = 0 then failed s3
                        else case first_attr E SWITCHING_ENTITY l of
                               None \<Rightarrow> failed s3
                             | Some bs \<Rightarrow>
                                 (case copy_mac bs of Inl f \<Rightarrow> Inl f
                                  | Inr a \<Rightarrow> Inr (STD_ERR_OK, Some a, request_close s3))))))"

text \<open>
  The two failures after the request return without closing it. The length of the list is not
  tested, so an empty one passes a null object on.
\<close>

definition chassis_attr :: "('w, 'l) mac_env \<Rightarrow> 'l \<Rightarrow> fault + u8 list option" where
  "chassis_attr E l =
     (if list_size E l = 0 then null_object_attr E else Inr (first_attr E CHASSIS_OBJ l))"

definition nas_fetch_base_mac ::
  "('w, 'l) mac_env \<Rightarrow> u8 list option \<Rightarrow> 'w mac_state \<Rightarrow> fault + (t_std_error \<times> u8 list option \<times> 'w mac_state)" where
  "nas_fetch_base_mac E mac_base s =
     (if mac_base = None then Inr (STD_ERR COM FAIL (Priv 0), mac_base, s)
      else
        (let s1 = request_init s;
             s2 = upd_platform (snd (key_from_attr E CHASSIS_OBJ (platform s1))) s1
         in case cps_api_get E CHASSIS_OBJ (platform s2) of (ok, l, w3) \<Rightarrow>
              (let s3 = upd_platform w3 s2
               in if \<not> ok then Inr (STD_ERR BOARD FAIL (Priv 0), mac_base, s3)
                  else case chassis_attr E l of
                         Inl f \<Rightarrow> Inl f
                       | Inr None \<Rightarrow> Inr (STD_ERR COM FAIL (Priv 0), mac_base, s3)
                       | Inr (Some bs) \<Rightarrow>
                           (case copy_mac bs of Inl f \<Rightarrow> Inl f
                            | Inr a \<Rightarrow> Inr (STD_ERR_OK, Some a, request_close s3)))))"

section \<open>The waiting loops\<close>

text \<open>One pass of a loop says whether the loop ends; \<open>between\<close> is what is done before the next.\<close>

partial_function (option) retry ::
  "('s \<Rightarrow> fault + (bool \<times> 's)) \<Rightarrow> ('s \<Rightarrow> 's) \<Rightarrow> 's \<Rightarrow> (fault + 's) option" where
  "retry pass between s =
     (case pass s of
        Inl f \<Rightarrow> Some (Inl f)
      | Inr (stop, s') \<Rightarrow> if stop then Some (Inr s') else retry pass between (between s'))"

definition MILLI_TO_MICRO :: "nat \<Rightarrow> nat" where
  "MILLI_TO_MICRO n = n * 1000"

definition MAX_TRY_BEFORE_LOG :: nat where
  "MAX_TRY_BEFORE_LOG = 5"

text \<open>The state of a loop is the address, the counter of tries and the state.\<close>

type_synonym 'w wait_state = "u8 list option \<times> nat \<times> 'w mac_state"

definition sys_mac_pass ::
  "('w, 'l) mac_env \<Rightarrow> 'w wait_state \<Rightarrow> fault + (bool \<times> 'w wait_state)" where
  "sys_mac_pass E x =
     (case x of (p, c, s) \<Rightarrow>
        (case nas_switch_get_sys_mac_base E p s of
           Inl f \<Rightarrow> Inl f | Inr (rc, p', s') \<Rightarrow> Inr (rc = STD_ERR_OK, (p', c, s'))))"

definition sys_mac_pause :: "('w, 'l) mac_env \<Rightarrow> 'w wait_state \<Rightarrow> 'w wait_state" where
  "sys_mac_pause E x =
     (case x of (p, c, s) \<Rightarrow> (p, c, upd_platform (std_usleep E (MILLI_TO_MICRO 500) (platform s)) s))"

definition nas_switch_wait_for_sys_base_mac ::
  "('w, 'l) mac_env \<Rightarrow> u8 list option \<Rightarrow> 'w mac_state \<Rightarrow> (fault + (u8 list option \<times> 'w mac_state)) option" where
  "nas_switch_wait_for_sys_base_mac E mac_base s =
     map_option (map_sum id (\<lambda>(p, c, s). (p, s))) (retry (sys_mac_pass E) (sys_mac_pause E) (mac_base, 0, s))"

text \<open>The pause of the other function: a line in the log at the first try and after every fifth.\<close>

definition platform_pause :: "('w, 'l) mac_env \<Rightarrow> 'w wait_state \<Rightarrow> 'w wait_state" where
  "platform_pause E x =
     (case x of (p, c, s) \<Rightarrow>
        (let (c', s') = (if c \<ge> MAX_TRY_BEFORE_LOG then (0, s\<lparr>wait_logs := wait_logs s + 1\<rparr>) else (c, s))
         in (p, c' + 1, upd_platform (std_usleep E (MILLI_TO_MICRO 1000) (platform s')) s')))"

definition registered_pass :: "('w, 'l) mac_env \<Rightarrow> 'w wait_state \<Rightarrow> fault + (bool \<times> 'w wait_state)" where
  "registered_pass E x =
     (case x of (p, c, s) \<Rightarrow>
        (case is_registered E (platform s) of (reg, w) \<Rightarrow> Inr (reg, (p, c, upd_platform w s))))"

definition fetch_pass :: "('w, 'l) mac_env \<Rightarrow> 'w wait_state \<Rightarrow> fault + (bool \<times> 'w wait_state)" where
  "fetch_pass E x =
     (case x of (p, c, s) \<Rightarrow>
        (case nas_fetch_base_mac E p s of
           Inl f \<Rightarrow> Inl f | Inr (rc, p', s') \<Rightarrow> Inr (rc = STD_ERR_OK, (p', c, s'))))"

definition nas_get_platform_base_mac_address ::
  "('w, 'l) mac_env \<Rightarrow> u8 list option \<Rightarrow> 'w mac_state \<Rightarrow>
   (fault + (t_std_error \<times> u8 list option \<times> 'w mac_state)) option" where
  "nas_get_platform_base_mac_address E mac_base s =
     (let s0 = upd_platform (snd (key_from_attr E CHASSIS_OBJ (platform s))) s
      in case retry (registered_pass E) (platform_pause E) (mac_base, MAX_TRY_BEFORE_LOG, s0) of
           None \<Rightarrow> None
         | Some (Inl f) \<Rightarrow> Some (Inl f)
         | Some (Inr (p, c, s1)) \<Rightarrow>
             map_option (map_sum id (\<lambda>(p, c, s). (STD_ERR_OK, p, s)))
               (retry (fetch_pass E) (platform_pause E) (p, MAX_TRY_BEFORE_LOG, s1)))"

section \<open>Polling\<close>

lemma retry_returns_induct:
  assumes ret: "retry pass between s = Some r"
    and step: "\<And>s. (\<And>s'. pass s = Inr (False, s') \<Longrightarrow> P (between s')) \<Longrightarrow> P s"
  shows "P s"
proof -
  have "pass = pass \<longrightarrow> between = between \<longrightarrow> P s"
  proof (rule retry.raw_induct [OF _ ret, where P = "\<lambda>p b s r. p = pass \<longrightarrow> b = between \<longrightarrow> P s"],
      intro impI)
    fix rec p b s r
    assume IH: "\<And>p b s r. rec p b s = Some r \<Longrightarrow> p = pass \<longrightarrow> b = between \<longrightarrow> P s"
      and eq: "p = pass" "b = between"
      and run: "(case p s of Inl f \<Rightarrow> Some (Inl f)
        | Inr (stop, s') \<Rightarrow> if stop then Some (Inr s') else rec p b (b s')) = Some r"
    show "P s"
    proof (rule step)
      fix s' assume "pass s = Inr (False, s')"
      then show "P (between s')" using IH [of p b "b s'" r] run eq by simp
    qed
  qed
  then show ?thesis by simp
qed

text \<open>
  The contract of a waiting loop: it asks, and pauses when there was no answer. \<open>st w i\<close> is the
  state of the loop in the world \<open>w\<close> after \<open>i\<close> failures, \<open>mid\<close> the state before the pause, \<open>fin\<close>
  how an answer ends it.
\<close>

fun polls :: "('w \<Rightarrow> 'a option \<times> 'w) \<Rightarrow> ('w \<Rightarrow> 'w) \<Rightarrow> nat \<Rightarrow> 'w \<Rightarrow> 'w" where
  "polls ask pause 0 w = w"
| "polls ask pause (Suc n) w = polls ask pause n (pause (snd (ask w)))"

text \<open>The answer \<open>b\<close> comes at try \<open>n\<close> and none before.\<close>

definition answered :: "('w \<Rightarrow> 'a option \<times> 'w) \<Rightarrow> ('w \<Rightarrow> 'w) \<Rightarrow> 'w \<Rightarrow> nat \<Rightarrow> 'a \<Rightarrow> bool" where
  "answered ask pause w n b \<longleftrightarrow>
     (\<forall>k < n. fst (ask (polls ask pause k w)) = None) \<and> fst (ask (polls ask pause n w)) = Some b"

lemma answered_0 [simp]: "answered ask pause w 0 b \<longleftrightarrow> fst (ask w) = Some b"
  by (simp add: answered_def)

lemma answered_Suc [simp]:
  "answered ask pause w (Suc n) b \<longleftrightarrow> fst (ask w) = None \<and> answered ask pause (pause (snd (ask w))) n b"
  by (auto simp: answered_def All_less_Suc2)

locale polling =
  fixes ask :: "'w \<Rightarrow> 'a option \<times> 'w"
    and pause :: "'w \<Rightarrow> 'w"
    and st :: "'w \<Rightarrow> nat \<Rightarrow> 's"
    and mid :: "'w \<Rightarrow> nat \<Rightarrow> 's"
    and fin :: "'a \<Rightarrow> 'w \<Rightarrow> nat \<Rightarrow> fault + 's"
    and pass :: "'s \<Rightarrow> fault + (bool \<times> 's)"
    and between :: "'s \<Rightarrow> 's"
  assumes pass_none: "ask w = (None, w') \<Longrightarrow> pass (st w i) = Inr (False, mid w' i)"
    and pass_some: "ask w = (Some b, w') \<Longrightarrow>
      pass (st w i) = (case fin b w' i of Inl f \<Rightarrow> Inl f | Inr z \<Rightarrow> Inr (True, z))"
    and between_mid: "between (mid w i) = st (pause w) (Suc i)"
begin

lemma returns:
  "answered ask pause w n b \<Longrightarrow> retry pass between (st w i) = Some (fin b (snd (ask (polls ask pause n w))) (i + n))"
proof (induction n arbitrary: w i)
  case 0
  then obtain w' where "ask w = (Some b, w')" by (cases "ask w") auto
  then show ?case by (subst retry.simps) (simp add: pass_some split: sum.split)
next
  case (Suc n)
  then obtain w' where "ask w = (None, w')" by (cases "ask w") auto
  then show ?case using Suc by (subst retry.simps) (simp add: pass_none between_mid)
qed

lemma only_when_answered: "retry pass between (st w i) = Some r \<Longrightarrow> \<exists>n b. answered ask pause w n b"
proof -
  assume "retry pass between (st w i) = Some r"
  then have "\<forall>v j. st w i = st v j \<longrightarrow> (\<exists>n b. answered ask pause v n b)"
  proof (rule retry_returns_induct [where P = "\<lambda>x. \<forall>w i. x = st w i \<longrightarrow> (\<exists>n b. answered ask pause w n b)"])
    fix x
    assume step: "\<And>x'. pass x = Inr (False, x') \<Longrightarrow>
      \<forall>w i. between x' = st w i \<longrightarrow> (\<exists>n b. answered ask pause w n b)"
    show "\<forall>w i. x = st w i \<longrightarrow> (\<exists>n b. answered ask pause w n b)"
    proof (intro allI impI)
      fix w i assume x: "x = st w i"
      show "\<exists>n b. answered ask pause w n b"
      proof (cases "ask w")
        case (Pair a w')
        show ?thesis
        proof (cases a)
          case (Some b)
          then have "answered ask pause w 0 b" using Pair by simp
          then show ?thesis by blast
        next
          case None
          then obtain n b where "answered ask pause (pause w') n b"
            using step [of "mid w' i"] Pair x pass_none between_mid by metis
          then have "answered ask pause w (Suc n) b" using None Pair by simp
          then show ?thesis by blast
        qed
      qed
    qed
  qed
  then show ?thesis by blast
qed

text \<open>The loop returns exactly when there is an answer, and then with the first one.\<close>

lemma exact:
  "retry pass between (st w i) = Some r \<longleftrightarrow>
     (\<exists>n b. answered ask pause w n b \<and> r = fin b (snd (ask (polls ask pause n w))) (i + n))"
  using only_when_answered [of w i r] returns by fastforce

end

section \<open>The loops of the code\<close>

text \<open>What the platform answers to the two requests, and whether its service is registered.\<close>

definition sys_answer :: "('w, 'l) mac_env \<Rightarrow> 'w \<Rightarrow> u8 list option \<times> 'w" where
  "sys_answer E w =
     (case key_from_attr E SWITCHING_ENTITY w of (key_ok, w2) \<Rightarrow>
        if \<not> key_ok then (None, w2)
        else case cps_api_get E SWITCHING_ENTITY w2 of (ok, l, w3) \<Rightarrow>
          (if ok \<and> list_size E l \<noteq> 0 then first_attr E SWITCHING_ENTITY l else None, w3))"

definition attr_answer :: "fault + u8 list option \<Rightarrow> (fault + u8 list) option" where
  "attr_answer x = (case x of Inl f \<Rightarrow> Some (Inl f) | Inr None \<Rightarrow> None | Inr (Some bs) \<Rightarrow> Some (Inr bs))"

definition chassis_answer :: "('w, 'l) mac_env \<Rightarrow> 'w \<Rightarrow> (fault + u8 list) option \<times> 'w" where
  "chassis_answer E w =
     (case cps_api_get E CHASSIS_OBJ (snd (key_from_attr E CHASSIS_OBJ w)) of (ok, l, w3) \<Rightarrow>
        (if ok then attr_answer (chassis_attr E l) else None, w3))"

text \<open>What an answer ends the loop with: a fault, or the bytes that are copied.\<close>

definition answer_mac :: "fault + u8 list \<Rightarrow> fault + u8 list" where
  "answer_mac b = (case b of Inl f \<Rightarrow> Inl f | Inr bs \<Rightarrow> copy_mac bs)"

definition service_answer :: "('w, 'l) mac_env \<Rightarrow> 'w \<Rightarrow> unit option \<times> 'w" where
  "service_answer E w = (case is_registered E w of (reg, w') \<Rightarrow> (if reg then Some () else None, w'))"

text \<open>The counter after \<open>i\<close> failures, and the lines in the log by then.\<close>

definition counter_after :: "nat \<Rightarrow> nat" where
  "counter_after i = (if i = 0 then MAX_TRY_BEFORE_LOG else (i - 1) mod MAX_TRY_BEFORE_LOG + 1)"

definition logs_after :: "nat \<Rightarrow> nat" where
  "logs_after i = (i + 4) div MAX_TRY_BEFORE_LOG"

lemma after_0 [simp]: "counter_after 0 = MAX_TRY_BEFORE_LOG" "logs_after 0 = 0"
  by (simp_all add: counter_after_def logs_after_def MAX_TRY_BEFORE_LOG_def)

lemma ex_unit: "(\<exists>u::unit. P u) \<longleftrightarrow> P ()"
  by auto

lemma counter_step:
  "(if counter_after i \<ge> MAX_TRY_BEFORE_LOG then 0 else counter_after i) + 1 = counter_after (Suc i)"
  by (cases i) (auto simp: counter_after_def MAX_TRY_BEFORE_LOG_def mod_Suc)

lemma logs_step:
  "logs_after (Suc i) = (if counter_after i \<ge> MAX_TRY_BEFORE_LOG then logs_after i + 1 else logs_after i)"
  unfolding logs_after_def counter_after_def MAX_TRY_BEFORE_LOG_def
  by (cases i) (simp_all, presburger)

interpretation sys: polling "sys_answer E" "std_usleep E (MILLI_TO_MICRO 500)"
  "\<lambda>w i. (Some m, 0, s\<lparr>platform := w\<rparr>)" "\<lambda>w i. (Some m, 0, s\<lparr>platform := w\<rparr>)"
  "\<lambda>b w i. case copy_mac b of Inl f \<Rightarrow> Inl f | Inr a \<Rightarrow> Inr (Some a, 0, s\<lparr>platform := w\<rparr>)"
  "sys_mac_pass E" "sys_mac_pause E" for E m s
  by unfold_locales
    (auto simp: sys_answer_def sys_mac_pass_def sys_mac_pause_def nas_switch_get_sys_mac_base_def Let_def
      request_init_def request_close_def split: prod.splits option.splits if_splits sum.splits)

interpretation chassis: polling "chassis_answer E" "std_usleep E (MILLI_TO_MICRO 1000)"
  "\<lambda>w i. (Some m, counter_after i,
     s\<lparr>platform := w, open_requests := open_requests s + i, wait_logs := wait_logs s + logs_after i\<rparr>)"
  "\<lambda>w i. (Some m, counter_after i,
     s\<lparr>platform := w, open_requests := open_requests s + i + 1, wait_logs := wait_logs s + logs_after i\<rparr>)"
  "\<lambda>b w i. case answer_mac b of Inl f \<Rightarrow> Inl f | Inr a \<Rightarrow> Inr (Some a, counter_after i,
     s\<lparr>platform := w, open_requests := open_requests s + i, wait_logs := wait_logs s + logs_after i\<rparr>)"
  "fetch_pass E" "platform_pause E" for E m s
  by unfold_locales
    (auto simp: chassis_answer_def attr_answer_def answer_mac_def fetch_pass_def platform_pause_def nas_fetch_base_mac_def Let_def
      request_init_def request_close_def logs_step counter_step [symmetric]
      split: prod.splits option.splits if_splits sum.splits)

interpretation service: polling "service_answer E" "std_usleep E (MILLI_TO_MICRO 1000)"
  "\<lambda>w i. (p, counter_after i, s\<lparr>platform := w, wait_logs := wait_logs s + logs_after i\<rparr>)"
  "\<lambda>w i. (p, counter_after i, s\<lparr>platform := w, wait_logs := wait_logs s + logs_after i\<rparr>)"
  "\<lambda>b w i. Inr (p, counter_after i, s\<lparr>platform := w, wait_logs := wait_logs s + logs_after i\<rparr>)"
  "registered_pass E" "platform_pause E" for E p s
  by unfold_locales
    (auto simp: service_answer_def registered_pass_def platform_pause_def Let_def logs_step
      counter_step [symmetric] split: prod.splits if_splits)

section \<open>What the waits return\<close>

lemma map_sum_answer:
  "map_sum id g (case x of Inl f \<Rightarrow> Inl f | Inr a \<Rightarrow> Inr (h a)) = (case x of Inl f \<Rightarrow> Inl f | Inr a \<Rightarrow> Inr (g (h a)))"
  by (cases x) simp_all

lemma ex_simps': "(\<exists>q. (\<exists>n b. A n b \<and> q = F n b) \<and> r = G q) \<longleftrightarrow> (\<exists>n b. A n b \<and> r = G (F n b))"
  by blast

lemma case_stage:
  "(case X of None \<Rightarrow> None | Some (Inl f) \<Rightarrow> Some (Inl f) | Some (Inr (p, c, t)) \<Rightarrow> F p c t) = Some r \<longleftrightarrow>
     (\<exists>f. X = Some (Inl f) \<and> r = Inl f) \<or> (\<exists>p c t. X = Some (Inr (p, c, t)) \<and> F p c t = Some r)"
  by (auto split: option.splits sum.splits)

lemma retry_NULL:
  assumes "\<And>x. fst x = None \<Longrightarrow> \<exists>x'. pass x = Inr (False, x') \<and> fst (between x') = None" "fst x = None"
  shows "retry pass between x = None"
proof (rule ccontr)
  assume "retry pass between x \<noteq> None"
  then obtain r where "retry pass between x = Some r" by blast
  then have "fst x \<noteq> None"
    by (rule retry_returns_induct [where P = "\<lambda>x. fst x \<noteq> None"]) (use assms(1) in fastforce)
  then show False using assms(2) by simp
qed

text \<open>The wait for the system's address returns exactly when an answer of the switch service
  has the address attribute, however long that takes, with the first 6 bytes of the first such
  answer; answers without it, empty lists and failed requests are asked again after a pause, and
  no request stays open. With a \<open>NULL\<close> pointer it never returns.\<close>

theorem sys_mac_wait_exact:
  "(nas_switch_wait_for_sys_base_mac E (Some m) s = Some r \<longleftrightarrow>
     (\<exists>n bs. answered (sys_answer E) (std_usleep E 500000) (platform s) n bs \<and>
        r = (case copy_mac bs of Inl f \<Rightarrow> Inl f
             | Inr a \<Rightarrow> Inr (Some a, s\<lparr>platform :=
                 snd (sys_answer E (polls (sys_answer E) (std_usleep E 500000) n (platform s)))\<rparr>)))) \<and>
   nas_switch_wait_for_sys_base_mac E None s = None"
proof -
  have "retry (sys_mac_pass E) (sys_mac_pause E) (None, 0, s) = None"
    by (rule retry_NULL) (auto simp: sys_mac_pass_def sys_mac_pause_def nas_switch_get_sys_mac_base_def)
  moreover have "retry (sys_mac_pass E) (sys_mac_pause E) (Some m, 0, s) = Some q \<longleftrightarrow>
      (\<exists>n bs. answered (sys_answer E) (std_usleep E 500000) (platform s) n bs \<and>
        q = (case copy_mac bs of Inl f \<Rightarrow> Inl f | Inr a \<Rightarrow> Inr (Some a, 0, s\<lparr>platform :=
          snd (sys_answer E (polls (sys_answer E) (std_usleep E 500000) n (platform s)))\<rparr>)))" for q
    using sys.exact [where E = E and m = m and s = s and w = "platform s" and r = q]
    by (simp add: MILLI_TO_MICRO_def cong del: sum.case_cong_weak)
  ultimately show ?thesis
    by (simp add: nas_switch_wait_for_sys_base_mac_def map_sum_answer eq_commute [of _ r] ex_simps' cong del: sum.case_cong_weak)
qed

text \<open>The two loops of the platform's wait, each from the state in which it starts.\<close>

lemma registered_wait:
  "retry (registered_pass E) (platform_pause E) (p, MAX_TRY_BEFORE_LOG, s\<lparr>platform := v\<rparr>) = Some q \<longleftrightarrow>
     (\<exists>k. answered (service_answer E) (std_usleep E 1000000) v k () \<and>
       q = Inr (p, counter_after k, s\<lparr>platform :=
          snd (service_answer E (polls (service_answer E) (std_usleep E 1000000) k v)),
          wait_logs := wait_logs s + logs_after k\<rparr>))"
  using service.exact [where E = E and p = p and s = s and w = v and i = 0 and r = q]
  by (simp add: MILLI_TO_MICRO_def ex_unit)

lemma fetch_wait:
  "retry (fetch_pass E) (platform_pause E) (Some m, MAX_TRY_BEFORE_LOG, t) = Some q \<longleftrightarrow>
     (\<exists>n b. answered (chassis_answer E) (std_usleep E 1000000) (platform t) n b \<and>
       q = (case answer_mac b of Inl f \<Rightarrow> Inl f | Inr a \<Rightarrow> Inr (Some a, counter_after n,
         t\<lparr>platform := snd (chassis_answer E (polls (chassis_answer E) (std_usleep E 1000000) n (platform t))),
           open_requests := open_requests t + n, wait_logs := wait_logs t + logs_after n\<rparr>)))"
  using chassis.exact [where E = E and m = m and s = t and w = "platform t" and i = 0 and r = q]
  by (simp add: MILLI_TO_MICRO_def cong del: sum.case_cong_weak)

lemma fetch_wait_result:
  "(\<exists>q. retry (fetch_pass E) (platform_pause E) (Some m, MAX_TRY_BEFORE_LOG, t) = Some q \<and>
      r = map_sum id (\<lambda>(p, c, s). (STD_ERR_OK, p, s)) q) \<longleftrightarrow>
    (\<exists>n b. answered (chassis_answer E) (std_usleep E 1000000) (platform t) n b \<and>
      r = (case answer_mac b of Inl f \<Rightarrow> Inl f | Inr a \<Rightarrow> Inr (STD_ERR_OK, Some a,
        t\<lparr>platform := snd (chassis_answer E (polls (chassis_answer E) (std_usleep E 1000000) n (platform t))),
          open_requests := open_requests t + n, wait_logs := wait_logs t + logs_after n\<rparr>)))"
  by (simp add: fetch_wait ex_simps' map_sum_answer cong del: sum.case_cong_weak)

text \<open>C26: The wait for the platform's address returns exactly when its service is registered at some
  time and a later answer has the address attribute, with the first 6 bytes of the first such
  answer, or is an empty list of which the CPS library's reading of an attribute faults, with that
  fault. Each failed request of the wait stays open for ever, and the log has one line for every
  five pauses that were begun. With a \<open>NULL\<close> pointer it never returns.\<close>

theorem platform_mac_wait_exact:
  "(nas_get_platform_base_mac_address E (Some m) s = Some r \<longleftrightarrow>
     (\<exists>k n b. let pause = std_usleep E 1000000;
                  w0 = snd (key_from_attr E CHASSIS_OBJ (platform s));
                  w1 = snd (service_answer E (polls (service_answer E) pause k w0));
                  w2 = snd (chassis_answer E (polls (chassis_answer E) pause n w1))
      in answered (service_answer E) pause w0 k () \<and> answered (chassis_answer E) pause w1 n b \<and>
         r = (case answer_mac b of Inl f \<Rightarrow> Inl f
              | Inr a \<Rightarrow> Inr (STD_ERR_OK, Some a,
                  s\<lparr>platform := w2, open_requests := open_requests s + n,
                    wait_logs := wait_logs s + logs_after k + logs_after n\<rparr>)))) \<and>
   nas_get_platform_base_mac_address E None s = None"
proof -
  let ?w0 = "snd (key_from_attr E CHASSIS_OBJ (platform s))"
  have null: "retry (fetch_pass E) (platform_pause E) (None, c, t) = None" for c t
    by (rule retry_NULL) (auto simp: fetch_pass_def platform_pause_def nas_fetch_base_mac_def Let_def)
  have no_fault: "retry (registered_pass E) (platform_pause E) (p, MAX_TRY_BEFORE_LOG, s\<lparr>platform := ?w0\<rparr>) \<noteq>
      Some (Inl f)" for p f
    by (simp add: registered_wait)
  have some: "nas_get_platform_base_mac_address E (Some m) s = Some r \<longleftrightarrow>
      (\<exists>p c t q. retry (registered_pass E) (platform_pause E) (Some m, MAX_TRY_BEFORE_LOG, s\<lparr>platform := ?w0\<rparr>) =
          Some (Inr (p, c, t)) \<and>
        retry (fetch_pass E) (platform_pause E) (p, MAX_TRY_BEFORE_LOG, t) = Some q \<and>
        r = map_sum id (\<lambda>(p, c, s). (STD_ERR_OK, p, s)) q)"
    unfolding nas_get_platform_base_mac_address_def Let_def case_stage using no_fault by auto
  have "nas_get_platform_base_mac_address E None s = None"
    using registered_wait [where p = None and s = s and v = ?w0 and E = E]
    by (auto simp: nas_get_platform_base_mac_address_def Let_def null split: option.split sum.split)
  moreover have "nas_get_platform_base_mac_address E (Some m) s = Some r \<longleftrightarrow>
      (\<exists>k. answered (service_answer E) (std_usleep E 1000000) ?w0 k () \<and>
        (\<exists>q. retry (fetch_pass E) (platform_pause E) (Some m, MAX_TRY_BEFORE_LOG, s\<lparr>platform :=
            snd (service_answer E (polls (service_answer E) (std_usleep E 1000000) k ?w0)),
            wait_logs := wait_logs s + logs_after k\<rparr>) = Some q \<and>
          r = map_sum id (\<lambda>(p, c, s). (STD_ERR_OK, p, s)) q))"
    unfolding some registered_wait by blast
  ultimately show ?thesis unfolding fetch_wait_result Let_def
    by (simp cong del: sum.case_cong_weak)
qed

end
