(* ===== verification/UnitTests.thy ===== *)
theory UnitTests
  imports IfUtils BaseResources BaseUtils NdiObjIdTable
begin

text \<open>
  The unit tests of the repository (\<open>src/src/unit_test\<close>) as executable definitions: a test is the
  sequence of its calls and assertions, and its lemma says that every assertion holds in the model.
  The output that the tests print is left out.
\<close>

section \<open>The interface table\<close>

text \<open>
  A test has one structure \<open>r\<close> and the table. A step changes the structure, or calls an operation
  and asserts whether it succeeds, or asserts something of the structure and the table.
\<close>

datatype if_test_step =
    Assign "interface_ctrl \<Rightarrow> interface_ctrl"
  | Register bool
  | Deregister bool
  | Get_Info bool
  | Update_Desc string bool
  | Check "interface_ctrl \<Rightarrow> if_db \<Rightarrow> bool"

definition if_test_call ::
  "bool \<Rightarrow> interface_ctrl \<Rightarrow> fault + (t_std_error \<times> if_db) \<Rightarrow> (interface_ctrl \<times> if_db) option" where
  "if_test_call expected r res =
     (case res of Inl f \<Rightarrow> None
      | Inr (rc, db) \<Rightarrow> if (rc = STD_ERR_OK) = expected then Some (r, db) else None)"

text \<open>\<open>None\<close> is a fault or a failed assertion.\<close>

fun if_test_exec :: "if_test_step \<Rightarrow> interface_ctrl \<times> if_db \<Rightarrow> (interface_ctrl \<times> if_db) option" where
  "if_test_exec (Assign f) (r, db) = Some (f r, db)"
| "if_test_exec (Register ok) (r, db) = if_test_call ok r (dn_hal_if_register True HAL_INTF_OP_REG (Some r) db)"
| "if_test_exec (Deregister ok) (r, db) =
     if_test_call ok r (dn_hal_if_register True HAL_INTF_OP_DEREG (Some r) db)"
| "if_test_exec (Get_Info ok) (r, db) =
     (case dn_hal_get_interface_info (Some r) db of Inl f \<Rightarrow> None
      | Inr (rc, r') \<Rightarrow> if (rc = STD_ERR_OK) = ok then Some (r', db) else None)"
| "if_test_exec (Update_Desc d ok) (r, db) =
     if_test_call ok r (dn_hal_update_intf_desc trunc_copy True (Some r) (Some d) db)"
| "if_test_exec (Check P) (r, db) = (if P r db then Some (r, db) else None)"

fun if_test_run :: "if_test_step list \<Rightarrow> interface_ctrl \<times> if_db \<Rightarrow> (interface_ctrl \<times> if_db) option" where
  "if_test_run [] s = Some s"
| "if_test_run (t # ts) s = (case if_test_exec t s of None \<Rightarrow> None | Some s' \<Rightarrow> if_test_run ts s')"

text \<open>The size of the name array belongs to the platform; any above 9 gives the same tests.\<close>

definition IF_NAME_SZ :: nat where
  "IF_NAME_SZ = 16"

text \<open>\<open>memset\<close> to 0, then the members that both blocks of the test assign.\<close>

definition npu_port_record :: "interface_ctrl \<Rightarrow> interface_ctrl" where
  "npu_port_record r = zero_ctrl\<lparr>npu_id := 1, un := port_union False 2, if_index := 3, vrf_id := 4,
     if_name := ''cliff''\<rparr>"

definition test_npu_port :: "if_test_step list" where
  "test_npu_port = [
     Assign (\<lambda>r. set_port_mapped (npu_port_record r)),
     Register True, Register False,
     Assign npu_port_record,
     Assign (\<lambda>r. r\<lparr>q_type := HAL_INTF_INFO_FROM_PORT\<rparr>), Get_Info True,
     Assign (\<lambda>r. r\<lparr>q_type := HAL_INTF_INFO_FROM_IF_NAME\<rparr>), Get_Info True,
     Assign (\<lambda>r. r\<lparr>q_type := HAL_INTF_INFO_FROM_IF_NAME, if_name := CHR ''x'' # tl (if_name r)\<rparr>), Get_Info False,
     Assign (\<lambda>r. r\<lparr>q_type := HAL_INTF_INFO_FROM_PORT\<rparr>), Get_Info True,
     Assign (\<lambda>r. r\<lparr>q_type := HAL_INTF_INFO_FROM_PORT, un := port_union (port_mapped r) 0\<rparr>), Get_Info False,
     Assign (\<lambda>r. r\<lparr>q_type := HAL_INTF_INFO_FROM_PORT, un := port_union (port_mapped r) 2, npu_id := 0\<rparr>),
     Get_Info False,
     Assign (\<lambda>r. r\<lparr>q_type := HAL_INTF_INFO_FROM_IF_NAME\<rparr>), Get_Info True,
     Assign (\<lambda>r. r\<lparr>if_index := - 1, q_type := HAL_INTF_INFO_FROM_IF\<rparr>), Get_Info False,
     Assign (\<lambda>r. r\<lparr>q_type := HAL_INTF_INFO_FROM_IF_NAME\<rparr>), Get_Info True,
     Deregister True,
     Assign (\<lambda>r. r\<lparr>q_type := HAL_INTF_INFO_FROM_PORT\<rparr>), Get_Info False,
     Assign (\<lambda>r. r\<lparr>q_type := HAL_INTF_INFO_FROM_IF_NAME\<rparr>), Get_Info False]"

definition test_virtual_port :: "if_test_step list" where
  "test_virtual_port = [
     Assign (\<lambda>r. zero_ctrl\<lparr>vrf_id := 1, if_name := trunc_copy ''virt_intf'' IF_NAME_SZ\<rparr>),
     Register True, Register False,
     Assign (\<lambda>r. zero_ctrl\<lparr>vrf_id := 1, q_type := HAL_INTF_INFO_FROM_IF_NAME,
       if_name := trunc_copy ''unknown'' IF_NAME_SZ\<rparr>), Get_Info False,
     Assign (\<lambda>r. zero_ctrl\<lparr>vrf_id := 1, q_type := HAL_INTF_INFO_FROM_IF_NAME,
       if_name := trunc_copy ''virt_intf'' IF_NAME_SZ\<rparr>), Get_Info True,
     Deregister True, Deregister True]"

text \<open>The text of a description pointer; \<open>strlen\<close> of it is asserted.\<close>

definition test_intf_desc :: "if_test_step list" where
  "test_intf_desc = [
     Assign (\<lambda>r. zero_ctrl\<lparr>npu_id := 1, un := port_union True 2, if_index := 3, vrf_id := 4, desc := None,
       if_name := trunc_copy ''intf1'' IF_NAME_SZ\<rparr>),
     Register True,
     Assign (\<lambda>r. r\<lparr>q_type := HAL_INTF_INFO_FROM_IF_NAME\<rparr>), Get_Info True,
     Assign (\<lambda>r. r\<lparr>q_type := HAL_INTF_INFO_FROM_IF_NAME\<rparr>), Update_Desc ''intf_desc'' True,
     Get_Info True,
     Check (\<lambda>r db. map_option length (intf_desc db r) = Some (length ''intf_desc'')),
     Assign (\<lambda>r. r\<lparr>q_type := HAL_INTF_INFO_FROM_IF_NAME\<rparr>), Update_Desc '''' True,
     Get_Info True, Check (\<lambda>r db. desc r = None),
     Assign (\<lambda>r. r\<lparr>q_type := HAL_INTF_INFO_FROM_IF_NAME\<rparr>), Update_Desc (replicate 299 (CHR ''a'')) False]"

lemma test_npu_port_passes: "if_test_run test_npu_port (zero_ctrl, empty_db) \<noteq> None"
  by code_simp

lemma test_virtual_port_passes: "if_test_run test_virtual_port (zero_ctrl, empty_db) \<noteq> None"
  by code_simp

lemma test_intf_desc_passes: "if_test_run test_intf_desc (zero_ctrl, empty_db) \<noteq> None"
  by code_simp

section \<open>The base classes\<close>

text \<open>The assertions of a test, in order.\<close>

definition test_attr_set :: "bool list" where
  "test_attr_set =
     (let attrs = attr_add 4 (attr_add 8 (attr_add 7 (attr_add 4 attr_set_empty)));
          attrs2 = attr_add 9 (attr_add 5 (attr_add 3 (attr_add 0 attr_set_empty)));
          both = attr_plus attrs attrs2
      in [attr_contains attrs 7, \<not> attr_contains attrs 5,
          attr_contains both 7, attr_contains both 0, attr_contains both 5, attr_contains both 9,
          attr_to_array both (replicate (attr_count both) 0) (attr_count both) = Inr [0, 3, 4, 5, 7, 8, 9]])"

lemma test_attr_set_passes: "list_all id test_attr_set"
  by code_simp

definition test_npu_set :: "bool list" where
  "test_npu_set =
     (let npus1 = npu_add 9 (npu_add 4 (npu_add 15 (npu_add 7 (npu_add 4 []))));
          npus2 = npu_add 9 (npu_add 10 (npu_add 8 (npu_add 4 [])))
      in case npu_compare npus1 npus2 ([], [], []) of (mine, second, both) \<Rightarrow>
           [npu_contains mine 7, npu_contains mine 15, npu_contains second 8, npu_contains second 10,
            npu_contains both 4, npu_contains both 9,
            npu_dump mine [] = ''NPUs: 7, 15, ''])"

lemma test_npu_set_passes: "list_all id test_npu_set"
  by code_simp

text \<open>
  The generator's test: a step asserts the result of a reservation, releases, or asserts that an
  identifier is found or that there is none.
\<close>

datatype id_test_step = Reserve nat bool | Release nat | Alloc_Found | Alloc_Throws

fun id_test_exec :: "'b bitmap_api \<Rightarrow> id_test_step \<Rightarrow> 'b id_generator_t \<Rightarrow> 'b id_generator_t option" where
  "id_test_exec B (Reserve i ok) g =
     (case reserve_id B i g of Inl f \<Rightarrow> None | Inr (b, g') \<Rightarrow> if b = ok then Some g' else None)"
| "id_test_exec B (Release i) g = (case release_id B i g of Inl f \<Rightarrow> None | Inr g' \<Rightarrow> Some g')"
| "id_test_exec B Alloc_Found g = (case alloc_id B g of Inr (Inr i, g') \<Rightarrow> Some g' | _ \<Rightarrow> None)"
| "id_test_exec B Alloc_Throws g = (case alloc_id B g of Inr (Inl e, g') \<Rightarrow> Some g' | _ \<Rightarrow> None)"

fun id_test_run :: "'b bitmap_api \<Rightarrow> id_test_step list \<Rightarrow> 'b id_generator_t \<Rightarrow> 'b id_generator_t option" where
  "id_test_run B [] g = Some g"
| "id_test_run B (t # ts) g = (case id_test_exec B t g of None \<Rightarrow> None | Some g' \<Rightarrow> id_test_run B ts g')"

definition test_id_gen :: "nat \<Rightarrow> id_test_step list" where
  "test_id_gen max_id =
     [Reserve max_id True, Reserve (max_id + 1) False, Reserve (max_id + 5) False, Release max_id] @
     replicate max_id Alloc_Found @ [Alloc_Throws, Reserve 4 False, Release 4, Release 6,
       Reserve 4 True, Reserve 4 False, Release 4, Alloc_Found, Alloc_Found, Alloc_Throws]"

text \<open>A generator whose free identifiers from 1 on are \<open>F\<close>, and what each step needs and leaves.\<close>

definition id_state :: "'b bitmap_api \<Rightarrow> nat \<Rightarrow> nat set \<Rightarrow> 'b id_generator_t \<Rightarrow> bool" where
  "id_state B n F g \<longleftrightarrow> id_inv B g \<and> max_ids g = n + 1 \<and> free_ids B g - {0} = F"

lemma id_state_change:
  "id_state B n F g \<Longrightarrow> id_inv B g' \<Longrightarrow> max_ids g' = max_ids g \<Longrightarrow> free_ids B g' - {0} = G \<Longrightarrow> id_state B n G g'"
  by (simp add: id_state_def)

definition id_runs :: "'b bitmap_api \<Rightarrow> nat \<Rightarrow> nat set \<Rightarrow> id_test_step list \<Rightarrow> bool" where
  "id_runs B n F ts \<longleftrightarrow> (\<forall>g. id_state B n F g \<longrightarrow> id_test_run B ts g \<noteq> None)"

lemma id_runs_Nil: "id_runs B n F []"
  by (simp add: id_runs_def)

lemma id_runs_Cons:
  assumes "\<And>g. id_state B n F g \<Longrightarrow> \<exists>g' F'. id_test_exec B t g = Some g' \<and> id_state B n F' g' \<and> id_runs B n F' ts"
  shows "id_runs B n F (t # ts)"
  unfolding id_runs_def
proof (intro allI impI)
  fix g assume "id_state B n F g"
  from assms [OF this] obtain g' F' where "id_test_exec B t g = Some g'" "id_state B n F' g'" "id_runs B n F' ts"
    by blast
  then show "id_test_run B (t # ts) g \<noteq> None" by (simp add: id_runs_def)
qed

lemma id_runs_Reserve:
  assumes "bitmap_spec B" "0 < i" "ok = (i \<in> F)" "id_runs B n (F - {i}) ts"
  shows "id_runs B n F (Reserve i ok # ts)"
proof (rule id_runs_Cons)
  fix g assume g: "id_state B n F g"
  then obtain g' where "reserve_id B i g = Inr (i \<in> free_ids B g, g')" "id_inv B g'"
      "max_ids g' = max_ids g" "free_ids B g' = free_ids B g - {i}"
    using reserve_id_eq [OF assms(1), of g i] by (auto simp: id_state_def)
  then show "\<exists>g' F'. id_test_exec B (Reserve i ok) g = Some g' \<and> id_state B n F' g' \<and> id_runs B n F' ts"
    using g assms(2-4) by (intro exI [of _ g'] exI [of _ "F - {i}"]) (auto simp: id_state_def)
qed

lemma id_runs_Release:
  assumes "bitmap_spec B" "0 < i" "id_runs B n (F \<union> ({i} \<inter> {..n})) ts"
  shows "id_runs B n F (Release i # ts)"
proof (rule id_runs_Cons)
  fix g assume g: "id_state B n F g"
  then obtain g' where g': "release_id B i g = Inr g'" "id_inv B g'"
      "max_ids g' = max_ids g" "free_ids B g' = free_ids B g \<union> ({i} \<inter> {..<max_ids g})"
    using release_id_eq [OF assms(1), of g i] by (auto simp: id_state_def)
  have "free_ids B g' - {0} = F \<union> ({i} \<inter> {..n})"
    using g g'(4) assms(2) unfolding id_state_def by (simp add: lessThan_Suc_atMost Un_Diff)
  from id_state_change [OF g g'(2,3) this]
  show "\<exists>g' F'. id_test_exec B (Release i) g = Some g' \<and> id_state B n F' g' \<and> id_runs B n F' ts"
    using assms(3) g'(1) by auto
qed

lemma id_runs_Found:
  assumes "bitmap_spec B" "F \<noteq> {}" "\<And>i. i \<in> F \<Longrightarrow> id_runs B n (F - {i}) ts"
  shows "id_runs B n F (Alloc_Found # ts)"
proof (rule id_runs_Cons)
  fix g assume g: "id_state B n F g"
  then have inv: "id_inv B g" by (simp add: id_state_def)
  from assms(1) inv show "\<exists>g' F'. id_test_exec B Alloc_Found g = Some g' \<and> id_state B n F' g' \<and> id_runs B n F' ts"
  proof (cases rule: alloc_id_cases)
    case (got i g')
    have "i \<in> F" using got(4,5) g unfolding id_state_def by auto
    moreover have "id_state B n (F - {i}) g'"
      using id_state_change [OF g got(2,3), of "F - {i}"] got(6) g by (auto simp: id_state_def)
    ultimately show ?thesis using got(1) assms(3) by auto
  next
    case full
    then show ?thesis using g assms(2) unfolding id_state_def by blast
  qed
qed

lemma id_runs_Throws:
  assumes "bitmap_spec B" "id_runs B n {} ts"
  shows "id_runs B n {} (Alloc_Throws # ts)"
proof (rule id_runs_Cons)
  fix g assume g: "id_state B n {} g"
  then have inv: "id_inv B g" by (simp add: id_state_def)
  from assms(1) inv show "\<exists>g' F'. id_test_exec B Alloc_Throws g = Some g' \<and> id_state B n F' g' \<and> id_runs B n F' ts"
  proof (cases rule: alloc_id_cases)
    case (got i g')
    have "i \<in> free_ids B g - {0}" using got(4,5) by simp
    then have False using g unfolding id_state_def by blast
    then show ?thesis ..
  next
    case (full g')
    have "id_state B n {} g'" using full(2,3,5) g unfolding id_state_def by simp
    then show ?thesis using full(1) assms(2) by auto
  qed
qed

lemma id_runs_all_found:
  "bitmap_spec B \<Longrightarrow> finite F \<Longrightarrow> card F = k \<Longrightarrow> id_runs B n {} ts \<Longrightarrow> id_runs B n F (replicate k Alloc_Found @ ts)"
proof (induction k arbitrary: F)
  case (Suc k)
  have "F \<noteq> {}" using Suc.prems(3) by (rule contrapos_pn) simp
  moreover have "id_runs B n (F - {i}) (replicate k Alloc_Found @ ts)" if "i \<in> F" for i
    using Suc.prems that by (intro Suc.IH) (simp_all add: card_Diff_singleton)
  ultimately show ?case using id_runs_Found [OF Suc.prems(1)] by simp
qed simp

text \<open>The test passes for every number from 6 on, so in its loop from 6 to 18, over every bit map
  that behaves as documented.\<close>

lemma test_id_gen_passes:
  assumes "bitmap_spec B" "6 \<le> n" "n + 1 < 2 ^ 31" "id_generator_new B n = Some g"
  shows "id_test_run B (test_id_gen n) g \<noteq> None"
proof -
  have "id_state B n {1..n} g"
    using id_new_inv [OF assms(1,3,4)] by (auto simp: id_state_def)
  moreover have last: "id_runs B n {4, 6} [Alloc_Found, Alloc_Found, Alloc_Throws]"
  proof -
    have "card {4, 6 :: nat} = 2" by simp
    from id_runs_all_found [OF assms(1) _ this id_runs_Throws [OF assms(1) id_runs_Nil]]
    show ?thesis by (simp add: numeral_2_eq_2)
  qed
  have sets: "{} \<union> {4} \<inter> {..n} = {4}" "{4} \<union> {6} \<inter> {..n} = {4, 6}" "{4, 6} - {4} = {6 :: nat}"
    "{6} - {4} = {6 :: nat}" "{6} \<union> {4} \<inter> {..n} = {4, 6}"
    using assms(2) by auto
  have "id_runs B n {4, 6} [Reserve 4 True, Reserve 4 False, Release 4, Alloc_Found, Alloc_Found, Alloc_Throws]"
    by (rule id_runs_Reserve [OF assms(1)], simp, simp, unfold sets,
        rule id_runs_Reserve [OF assms(1)], simp, simp, unfold sets,
        rule id_runs_Release [OF assms(1)], simp, unfold sets, rule last)
  then have "id_runs B n {4} (Release 6 # [Reserve 4 True, Reserve 4 False, Release 4, Alloc_Found, Alloc_Found,
      Alloc_Throws])"
    by - (rule id_runs_Release [OF assms(1)], simp, unfold sets)
  then have "id_runs B n {} (Release 4 # Release 6 # [Reserve 4 True, Reserve 4 False, Release 4, Alloc_Found,
      Alloc_Found, Alloc_Throws])"
    by - (rule id_runs_Release [OF assms(1)], simp, unfold sets)
  then have rest: "id_runs B n {} [Alloc_Throws, Reserve 4 False, Release 4, Release 6,
       Reserve 4 True, Reserve 4 False, Release 4, Alloc_Found, Alloc_Found, Alloc_Throws]"
    by (intro id_runs_Throws id_runs_Reserve assms(1)) simp_all
  have all: "{1..n} - {n} - {n + 1} - {n + 5} \<union> {n} \<inter> {..n} = {1..n}" using assms(2) by auto
  have "id_runs B n {1..n} (test_id_gen n)"
    unfolding test_id_gen_def append_Cons append_Nil
    by (rule id_runs_Reserve [OF assms(1)], use assms(2) in simp, use assms(2) in simp,
        rule id_runs_Reserve [OF assms(1)], simp, simp,
        rule id_runs_Reserve [OF assms(1)], simp, simp,
        rule id_runs_Release [OF assms(1)], use assms(2) in simp, unfold all,
        rule id_runs_all_found [OF assms(1) _ _ rest], simp_all)
  ultimately show ?thesis by (simp add: id_runs_def)
qed

end
