(* ===== verification/TableTests.thy ===== *)
theory TableTests
  imports UnitTests IfProps
begin

text \<open>
  The walk over the indexes and the tests of the tables that grow: a thousand interfaces
  (\<open>src/src/unit_test/nas_if_mapping_unittest.cpp\<close>, \<open>limits\<close>), for every number of interfaces up to
  that, and the encoding of the NDI table (\<open>nas_ndi_obj_id_table_ut.cpp\<close>).
\<close>

section \<open>The indexes\<close>

text \<open>
  \<open>get_next_ifindex\<close>: the numbers that it prints, one for each of at most \<open>n\<close> calls. A call that
  fails leaves the variable, which is printed once more.
\<close>

fun test_get_next_ifindex :: "nat \<Rightarrow> i32 option \<Rightarrow> if_db \<Rightarrow> (fault + int list) option" where
  "test_get_next_ifindex 0 cur db = None"
| "test_get_next_ifindex (Suc n) cur db =
     (case dn_hal_get_next_ifindex cur db of
        Inl f \<Rightarrow> Some (Inl f)
      | Inr (rc, r) \<Rightarrow>
          (case (case r of Some j \<Rightarrow> Some j | None \<Rightarrow> map_option sint cur) of
             None \<Rightarrow> Some (Inl Uninitialised)
           | Some v \<Rightarrow>
               (if rc = STD_ERR_OK
                then map_option (map_sum id (Cons v)) (test_get_next_ifindex n (Some (word_of_int v)) db)
                else Some (Inr [v]))))"

lemma next_ifindex_prints_from:
  assumes "idx_inv db" "if_indexes db = xs @ x # ys"
  shows "test_get_next_ifindex (Suc (length ys)) (Some (word_of_int x)) db = Some (Inr (ys @ [last (x # ys)]))"
  using assms(2)
proof (induction ys arbitrary: xs x)
  case Nil
  then show ?case
    using next_ifindex_at [OF assms(1) Nil] idx_inv_word [OF assms(1), of x] by simp
next
  case (Cons y ys)
  have "test_get_next_ifindex (Suc (length ys)) (Some (word_of_int y)) db = Some (Inr (ys @ [last (y # ys)]))"
    using Cons.IH [of "xs @ [x]" y] Cons.prems by simp
  then show ?case using next_ifindex_at [OF assms(1) Cons.prems] by simp
qed

text \<open>The test ends with one call more than there are indexes and prints the last one twice; it
  relies on the interfaces that the tests before it have left in the table.\<close>

lemma test_get_next_ifindex_prints:
  assumes "idx_inv db" "if_indexes db \<noteq> []"
  shows "test_get_next_ifindex (Suc (length (if_indexes db))) None db =
    Some (Inr (if_indexes db @ [last (if_indexes db)]))"
proof -
  obtain x xs where x: "if_indexes db = x # xs" using assms(2) by (cases "if_indexes db") auto
  then show ?thesis
    using next_ifindex_prints_from [OF assms(1), of "[]" x xs] by (simp add: dn_hal_get_next_ifindex_def)
qed

lemma test_get_next_ifindex_empty: "test_get_next_ifindex (Suc n) None empty_db = Some (Inl End_Iterator)"
  by (simp add: dn_hal_get_next_ifindex_def empty_db_def)

section \<open>A thousand interfaces\<close>

definition limits_record :: "nat \<Rightarrow> interface_ctrl" where
  "limits_record ix = zero_ctrl\<lparr>npu_id := 0, un := port_union False (of_nat (ix + 1)), if_index := of_nat (ix + 1),
     vrf_id := 0, q_type := HAL_INTF_INFO_FROM_IF_NAME,
     if_name := trunc_copy (''cliff'' @ dec_of_nat ix) IF_NAME_SZ\<rparr>"

definition limits_query :: "nat \<Rightarrow> interface_ctrl" where
  "limits_query ix = zero_ctrl\<lparr>if_index := of_nat (ix + 1), vrf_id := 0, q_type := HAL_INTF_INFO_FROM_IF\<rparr>"

definition test_limits :: "nat \<Rightarrow> if_test_step list" where
  "test_limits mx =
     concat (map (\<lambda>ix. [Assign (\<lambda>_. limits_record ix), Register True]) [0..<mx]) @
     concat (map (\<lambda>ix. [Assign (\<lambda>_. limits_query ix), Get_Info True]) [0..<mx])"

lemma length_dec_of_nat: "n < 1000 \<Longrightarrow> length (dec_of_nat n) \<le> 3"
  by (subst dec_of_nat.simps, subst dec_of_nat.simps, subst dec_of_nat.simps) auto

lemma dec_of_nat_inject: "dec_of_nat m = dec_of_nat n \<Longrightarrow> m = n"
  by (metis c_digits_dec_of_nat)

lemma limits_name: "ix < 1000 \<Longrightarrow> if_name (limits_record ix) = ''cliff'' @ dec_of_nat ix"
  using length_dec_of_nat [of ix] by (simp add: limits_record_def trunc_copy_def IF_NAME_SZ_def)

lemma limits_not_mapped: "\<not> port_mapped (limits_record ix)"
  by (simp add: port_mapped_def limits_record_def port_union_def take_bit_push_bit)

lemma limits_fields:
  "int_type (limits_record ix) = nas_int_type_PORT" "vrf_id (limits_record ix) = 0"
  "if_index (limits_record ix) = of_nat (ix + 1)" "desc (limits_record ix) = None"
  by (simp_all add: limits_record_def zero_ctrl_def)

lemma limits_index_inject:
  "i < 1000 \<Longrightarrow> j < 1000 \<Longrightarrow> (of_nat (i + 1) :: i32) = of_nat (j + 1) \<Longrightarrow> i = j"
  by (simp add: word_of_nat_eq_iff take_bit_nat_eq_self del: of_nat_add)

lemma limits_same_key:
  assumes "i < 1000" "j < 1000" "same_key t (limits_record i) (limits_record j)"
  shows "i = j"
proof (cases t)
  case HAL_INTF_INFO_FROM_IF
  then show ?thesis using assms limits_index_inject [of j i] by (simp add: same_key_FROM_IF limits_fields)
next
  case HAL_INTF_INFO_FROM_IF_NAME
  then show ?thesis using assms dec_of_nat_inject by (auto simp: same_key_FROM_IF_NAME limits_name)
qed (use assms in \<open>simp_all add: same_key_def rec_key_def limits_not_mapped limits_fields INVALID_KEY_def\<close>)

text \<open>The table after \<open>k\<close> registrations.\<close>

definition limits_state :: "nat \<Rightarrow> if_db \<Rightarrow> bool" where
  "limits_state k db \<longleftrightarrow> table_inv db \<and> ran (rec_heap db) = limits_record ` {..<k}"

lemma limits_register:
  assumes "limits_state k db" "k < 1000"
  shows "\<exists>db'. dn_hal_if_register True HAL_INTF_OP_REG (Some (limits_record k)) db = Inr (STD_ERR_OK, db') \<and>
    limits_state (Suc k) db'"
proof -
  have t: "table_inv db" and r: "ran (rec_heap db) = limits_record ` {..<k}"
    using assms(1) by (simp_all add: limits_state_def)
  have "\<not> same_key t (limits_record k) r" if "rec_heap db a = Some r" for t a r
  proof -
    have "r \<in> ran (rec_heap db)" using that by (rule ranI)
    then obtain j where "j < k" "r = limits_record j" unfolding r by auto
    then show ?thesis using limits_same_key [of k j t] assms(2) by auto
  qed
  then have free: "locate_first all_queries (limits_record k) db = None"
    by (simp add: locate_first_None_iff [OF t])
  have key: "rec_key HAL_INTF_INFO_FROM_IF (limits_record k) \<noteq> None"
    by (simp add: rec_key_FROM_IF limits_fields)
  obtain db' where reg: "dn_hal_if_register True HAL_INTF_OP_REG (Some (limits_record k)) db = Inr (STD_ERR_OK, db')"
      "registered db (limits_record k) db'"
    using register_OK [OF free key] by blast
  have "table_inv db'" using registered_table_inv [OF t reg(2) free] key by blast
  moreover have "rec_heap db (next_addr db) = None"
    using t by (auto simp: table_inv_def)
  then have "ran (rec_heap db') = limits_record ` {..<Suc k}"
    using reg(2) r by (simp add: registered_def lessThan_Suc)
  ultimately show ?thesis using reg(1) by (auto simp: limits_state_def)
qed

lemma if_test_run_append:
  "if_test_run (xs @ ys) s = (case if_test_run xs s of None \<Rightarrow> None | Some s' \<Rightarrow> if_test_run ys s')"
  by (induction xs arbitrary: s) (auto split: option.split)

lemma limits_registrations:
  "n \<le> 1000 \<Longrightarrow> limits_state 0 db \<Longrightarrow> \<exists>r' db'.
     if_test_run (concat (map (\<lambda>ix. [Assign (\<lambda>_. limits_record ix), Register True]) [0..<n])) (r, db) =
       Some (r', db') \<and> limits_state n db'"
proof (induction n)
  case (Suc n)
  then obtain r' db' where
    "if_test_run (concat (map (\<lambda>ix. [Assign (\<lambda>_. limits_record ix), Register True]) [0..<n])) (r, db) = Some (r', db')"
    "limits_state n db'" by auto
  moreover obtain db'' where
    "dn_hal_if_register True HAL_INTF_OP_REG (Some (limits_record n)) db' = Inr (STD_ERR_OK, db'')"
    "limits_state (Suc n) db''"
    using limits_register [OF calculation(2)] Suc.prems by auto
  ultimately show ?case by (simp add: if_test_run_append if_test_call_def)
qed simp

lemma limits_lookup:
  assumes "limits_state n db" "ix < n"
  shows "\<exists>r. dn_hal_get_interface_info (Some (limits_query ix)) db = Inr (STD_ERR_OK, r)"
proof -
  have t: "table_inv db" using assms(1) by (simp add: limits_state_def)
  have "limits_record ix \<in> ran (rec_heap db)" using assms by (simp add: limits_state_def)
  then obtain a where a: "rec_heap db a = Some (limits_record ix)" by (auto simp: ran_def)
  have "same_key HAL_INTF_INFO_FROM_IF (limits_query ix) (limits_record ix)"
    by (simp add: same_key_FROM_IF limits_fields) (simp add: limits_query_def zero_ctrl_def)
  then have "locate HAL_INTF_INFO_FROM_IF (limits_query ix) db = Some a"
    using a by (auto simp: locate_Some_iff [OF t])
  moreover have "q_type (limits_query ix) = HAL_INTF_INFO_FROM_IF" by (simp add: limits_query_def)
  ultimately show ?thesis using a by (simp add: dn_hal_get_interface_info_def)
qed

lemma limits_lookups:
  "limits_state n db \<Longrightarrow> set xs \<subseteq> {..<n} \<Longrightarrow> \<exists>r'.
     if_test_run (concat (map (\<lambda>ix. [Assign (\<lambda>_. limits_query ix), Get_Info True]) xs)) (r, db) = Some (r', db)"
proof (induction xs arbitrary: r)
  case (Cons x xs)
  obtain r1 where "dn_hal_get_interface_info (Some (limits_query x)) db = Inr (STD_ERR_OK, r1)"
    using limits_lookup [OF Cons.prems(1), of x] Cons.prems(2) by auto
  then show ?case using Cons.IH [OF Cons.prems(1), of r1] Cons.prems(2) by simp
qed simp

lemma test_limits_passes:
  assumes "mx \<le> 1000"
  shows "if_test_run (test_limits mx) (r, empty_db) \<noteq> None"
proof -
  have "limits_state 0 empty_db"
    using empty_db_inv(1) by (simp add: limits_state_def) (simp add: empty_db_def)
  from limits_registrations [OF assms this] obtain r' db' where
    "if_test_run (concat (map (\<lambda>ix. [Assign (\<lambda>_. limits_record ix), Register True]) [0..<mx])) (r, empty_db) =
       Some (r', db')" "limits_state mx db'" by blast
  moreover have "set [0..<mx] \<subseteq> {..<mx}" by auto
  ultimately show ?thesis
    using limits_lookups [of mx db' "[0..<mx]" r'] by (auto simp: test_limits_def if_test_run_append)
qed

section \<open>The encoding of the NDI table\<close>

text \<open>The two tables that the test compares; \<open>elems\<close> is the order of the hash map's iterator.\<close>

definition test_ndi_cplusplus ::
  "('o, 'a) cps_api \<Rightarrow> (ndi_obj_id_table_t \<Rightarrow> (u32 \<times> u64) list) \<Rightarrow> 'o \<Rightarrow> ndi_obj_id_table_t \<times> ndi_obj_id_table_t" where
  "test_ndi_cplusplus api order cps_obj =
     (let t = [1 \<mapsto> 4, 2 \<mapsto> 6];
          cps = snd (ndi_obj_id_table_cps_serialize api (order t) cps_obj [5])
      in (t, snd (ndi_obj_id_table_cps_unserialize api Map.empty cps [5])))"

text \<open>The C interface: the two tables, and the results of the two lookups.\<close>

definition test_ndi_c_api ::
  "('o, 'a) cps_api \<Rightarrow> (ndi_obj_id_table_t \<Rightarrow> (u32 \<times> u64) list) \<Rightarrow> 'o
     \<Rightarrow> (ndi_obj_id_table_t \<times> ndi_obj_id_table_t \<times> (fault + (bool \<times> u64 option)) \<times> (fault + (bool \<times> u64 option))) option" where
  "test_ndi_c_api api order cps_obj =
     (case nas_ndi_obj_id_table_set_id True (nas_ndi_obj_id_table_create True) 49 4 of
        Inl f \<Rightarrow> None
      | Inr (_, t1) \<Rightarrow>
        (case nas_ndi_obj_id_table_set_id True (Some t1) 99 6 of
           Inl f \<Rightarrow> None
         | Inr (_, t2) \<Rightarrow>
           (case nas_ndi_obj_id_table_cps_serialize api order (Some t2) cps_obj [5, 6] of
              Inl f \<Rightarrow> None
            | Inr (_, cps) \<Rightarrow>
              (case nas_ndi_obj_id_table_cps_unserialize api (nas_ndi_obj_id_table_create True) cps [5, 6] of
                 Inl f \<Rightarrow> None
               | Inr (_, t3) \<Rightarrow>
                 Some (t2, t3, nas_ndi_obj_id_table_get_id (Some t2) 49, nas_ndi_obj_id_table_get_id (Some t2) 48)))))"

lemma list_api_serialize:
  "ndi_obj_id_table_cps_serialize list_api elems ob ids =
    (True, snd (ndi_obj_id_table_cps_serialize list_api elems ob ids))"
proof -
  have "fst (serialize_elems list_api ids inst elems ob)" for inst
    by (induction elems arbitrary: inst ob) (auto simp: list_api_def)
  then show ?thesis by (simp add: ndi_obj_id_table_cps_serialize_def prod_eq_iff)
qed

lemma list_api_round_trip:
  assumes "distinct (map fst elems)" "map_of elems = t" "t \<noteq> Map.empty"
  shows "ndi_obj_id_table_cps_unserialize list_api Map.empty
    (snd (ndi_obj_id_table_cps_serialize list_api elems (\<lambda>_. []) ids)) ids = (True, t)"
proof -
  have "elems \<noteq> []" using assms(2,3) by auto
  moreover have "object_it list_api (\<lambda>_. []) ids = None" by (simp add: list_api_it)
  ultimately show ?thesis
    using serialize_then_read [OF list_api_spec _ assms(1) _ list_api_serialize] assms(2) by simp
qed

text \<open>Both tests pass in every order in which the hash map may visit its entries.\<close>

lemma test_ndi_cplusplus_passes:
  assumes "\<And>t. distinct (map fst (order t)) \<and> map_of (order t) = t"
  shows "fst (test_ndi_cplusplus list_api order (\<lambda>_. [])) = snd (test_ndi_cplusplus list_api order (\<lambda>_. []))"
proof -
  have "[1 \<mapsto> 4, 2 \<mapsto> 6] \<noteq> (Map.empty :: ndi_obj_id_table_t)" by (simp add: fun_eq_iff) auto
  then show ?thesis
    using list_api_round_trip [of "order [1 \<mapsto> 4, 2 \<mapsto> 6]", OF _ _ , of "[1 \<mapsto> 4, 2 \<mapsto> 6]" "[5]"]
      assms [of "[1 \<mapsto> 4, 2 \<mapsto> 6]"]
    by (simp add: test_ndi_cplusplus_def Let_def)
qed

lemma test_ndi_c_api_passes:
  assumes "\<And>t. distinct (map fst (order t)) \<and> map_of (order t) = t"
  shows "\<exists>t. test_ndi_c_api list_api order (\<lambda>_. []) = Some (t, t, Inr (True, Some 4), Inr (False, None))"
proof -
  let ?t = "[49 \<mapsto> 4, 99 \<mapsto> 6] :: ndi_obj_id_table_t"
  have "?t \<noteq> Map.empty" by (simp add: fun_eq_iff) auto
  then have "ndi_obj_id_table_cps_unserialize list_api Map.empty
      (snd (ndi_obj_id_table_cps_serialize list_api (order ?t) (\<lambda>_. []) [5, 6])) [5, 6] = (True, ?t)"
    using list_api_round_trip assms by blast
  then show ?thesis
    by (subst test_ndi_c_api_def)
      (simp add: nas_ndi_obj_id_table_create_def nas_ndi_obj_id_table_set_id_def
        nas_ndi_obj_id_table_get_id_def nas_ndi_obj_id_table_cps_serialize_def
        nas_ndi_obj_id_table_cps_unserialize_def case_prod_beta)
qed

end
