(* ===== verification/ObjTests.thy ===== *)
theory ObjTests
  imports BaseObjUt
begin

text \<open>
  The tests of the base object (\<open>src/src/unit_test/nas_base_obj_ut_simple.cpp\<close>): the switch that
  stores the derived objects, and the two tests as the sequences of their requests and assertions.
  A request works on the object and on the original it is a copy of, whose NDI identifiers are in the
  roles \<open>New\<close> and \<open>Old\<close> of the NDI's world; afterwards they are stored back, as the code works on
  references.
\<close>

section \<open>The switch with its objects\<close>

record derived_obj =
  base :: base_obj_t
  leaves :: ndi_ut_obj_t
  obj_id :: nat
  ids :: "int \<Rightarrow> nat option"

record derived_switch =
  base_switch :: base_switch_t
  sw_objs :: "nat \<Rightarrow> derived_obj option"

text \<open>The static variables: the two switches, the counter of the object identifiers, and the NDI.\<close>

record obj_process =
  ut_switches :: "derived_switch list"
  new_id :: nat
  ndi_world :: ut_world

definition new_derived_switch :: "u32 \<Rightarrow> derived_switch" where
  "new_derived_switch i =
     \<lparr>base_switch = \<lparr>switch_id = i, switch_npus = []\<rparr>, sw_objs = Map.empty\<rparr>"

text \<open>The constructor does not set the leaves: they are what the memory holds.\<close>

definition new_derived_obj :: "ndi_ut_obj_t \<Rightarrow> derived_obj" where
  "new_derived_obj memory = \<lparr>base = new_base_obj, leaves = memory, obj_id = 0, ids = Map.empty\<rparr>"

definition base_ut_get_switch :: "nat \<Rightarrow> obj_process \<Rightarrow> t_std_error + derived_switch" where
  "base_ut_get_switch swid p =
     (if swid < 2 then Inr (ut_switches p ! swid) else Inl NAS_BASE_E_PARAM)"

definition put_switch :: "nat \<Rightarrow> derived_switch \<Rightarrow> obj_process \<Rightarrow> obj_process" where
  "put_switch swid sw p = p\<lparr>ut_switches := (ut_switches p)[swid := sw]\<rparr>"

definition get_ut_obj :: "derived_switch \<Rightarrow> nat \<Rightarrow> t_std_error + derived_obj" where
  "get_ut_obj sw i = (case sw_objs sw i of None \<Rightarrow> Inl NAS_BASE_E_PARAM | Some d \<Rightarrow> Inr d)"

text \<open>\<open>insert\<close> keeps an object that is there.\<close>

definition add_ut_obj :: "nat \<Rightarrow> derived_obj \<Rightarrow> obj_process \<Rightarrow> obj_process" where
  "add_ut_obj swid d p =
     (let i = new_id p + 1; sw = ut_switches p ! swid
      in put_switch swid
           (if sw_objs sw i = None then sw\<lparr>sw_objs := (sw_objs sw)(i \<mapsto> d\<lparr>obj_id := i\<rparr>)\<rparr> else sw)
           (p\<lparr>new_id := i\<rparr>))"

definition del_ut_obj :: "nat \<Rightarrow> nat \<Rightarrow> obj_process \<Rightarrow> obj_process" where
  "del_ut_obj swid i p =
     (let sw = ut_switches p ! swid in put_switch swid (sw\<lparr>sw_objs := (sw_objs sw)(i := None)\<rparr>) p)"

text \<open>\<open>at\<close> throws \<open>std::out_of_range\<close> when there is no such object.\<close>

definition change_ut_obj :: "nat \<Rightarrow> derived_obj \<Rightarrow> obj_process \<Rightarrow> fault + obj_process" where
  "change_ut_obj swid d p =
     (let sw = ut_switches p ! swid
      in if sw_objs sw (obj_id d) = None then Inl Uncaught
         else Inr (put_switch swid (sw\<lparr>sw_objs := (sw_objs sw)(obj_id d \<mapsto> d)\<rparr>) p))"

definition main_process :: "obj_process" where
  "main_process =
     (let sw = new_derived_switch 0
      in \<lparr>ut_switches =
            [sw\<lparr>base_switch := switch_add_npu 2 (switch_add_npu 1 (switch_add_npu 0 (base_switch sw)))\<rparr>,
             new_derived_switch 1],
          new_id = 0,
          ndi_world = \<lparr>simulate_ndi_fail = RESET_NPU_ID, simulate_ndi_attr1_fail = RESET_NPU_ID,
            simulate_ndi_attr2_fail = RESET_NPU_ID, ut_count = 0, ndi_obj_ids = (\<lambda>_. Map.empty),
            ut_cfg = Map.empty, ut_mem = []\<rparr>\<rparr>)"

section \<open>Requests\<close>

datatype ut_cps_attr = Attr1 u32 | Attr2 u32 | Npu_List "int list"

fun add_npus :: "base_switch_t \<Rightarrow> int list \<Rightarrow> base_obj_t \<Rightarrow> status \<times> base_obj_t" where
  "add_npus sw [] ob = (Done, ob)"
| "add_npus sw (n # ns) ob =
     (case add_npu sw n True ob of (Done, ob') \<Rightarrow> add_npus sw ns ob' | r \<Rightarrow> r)"

definition apply_attr :: "base_switch_t \<Rightarrow> ut_cps_attr \<Rightarrow> derived_obj \<Rightarrow> status \<times> derived_obj" where
  "apply_attr sw a d =
     (case a of
        Attr1 v \<Rightarrow> (case set_attr1 v (base d, leaves d) of (st, (b, l)) \<Rightarrow> (st, d\<lparr>base := b, leaves := l\<rparr>))
      | Attr2 v \<Rightarrow> (case set_attr2 v (base d, leaves d) of (st, (b, l)) \<Rightarrow> (st, d\<lparr>base := b, leaves := l\<rparr>))
      | Npu_List ns \<Rightarrow> (case add_npus sw ns (base d) of (st, b) \<Rightarrow> (st, d\<lparr>base := b\<rparr>)))"

fun apply_attrs :: "base_switch_t \<Rightarrow> ut_cps_attr list \<Rightarrow> derived_obj \<Rightarrow> status \<times> derived_obj" where
  "apply_attrs sw [] d = (Done, d)"
| "apply_attrs sw (a # as) d =
     (case apply_attr sw a d of (Done, d') \<Rightarrow> apply_attrs sw as d' | r \<Rightarrow> r)"

definition both_roles :: "derived_obj \<Rightarrow> derived_obj \<Rightarrow> role \<Rightarrow> derived_obj" where
  "both_roles n d x = (case x of New \<Rightarrow> n | Old \<Rightarrow> d)"

definition enter :: "(role \<Rightarrow> derived_obj) \<Rightarrow> ut_world \<Rightarrow> ut_world" where
  "enter ds w = w\<lparr>ndi_obj_ids := (\<lambda>x. ids (ds x))\<rparr>"

text \<open>
  The three kinds of request, as the blocks of the tests make them: \<open>arm\<close> sets the failures before the
  commit, an exception leaves the block. The result has the NPUs of the object for the assertions.
\<close>

definition ut_create ::
  "ndi_ut_obj_t \<Rightarrow> (ut_world \<Rightarrow> ut_world) \<Rightarrow> ut_cps_attr list \<Rightarrow> obj_process
     \<Rightarrow> (status \<times> npu_set_t) \<times> obj_process" where
  "ut_create memory arm attrs p =
     (case base_ut_get_switch 0 p of Inl e \<Rightarrow> ((Exc e, []), p)
      | Inr sw \<Rightarrow>
        (case apply_attrs (base_switch sw) attrs (new_derived_obj memory) of
           (Done, d) \<Rightarrow>
             (case ut_commit_create (base_switch sw) (ut_ops (\<lambda>_. leaves d) New) False
                     (base d, enter (\<lambda>_. d) (arm (ndi_world p))) of
                (Done, (b, w)) \<Rightarrow>
                  ((Done, obj_npus b),
                   add_ut_obj 0 (d\<lparr>base := b, ids := ndi_obj_ids w New\<rparr>) (p\<lparr>ndi_world := w\<rparr>))
              | (st, (b, w)) \<Rightarrow> ((st, obj_npus b), p\<lparr>ndi_world := w\<rparr>))
         | (st, d) \<Rightarrow> ((st, []), p)))"

text \<open>The original stays in the switch; the calls change its NDI identifiers.\<close>

definition keep_ids :: "nat \<Rightarrow> derived_obj \<Rightarrow> ut_world \<Rightarrow> obj_process \<Rightarrow> obj_process" where
  "keep_ids swid d w p =
     (let sw = ut_switches p ! swid
      in put_switch swid (sw\<lparr>sw_objs := (sw_objs sw)(obj_id d \<mapsto> d\<lparr>ids := ndi_obj_ids w Old\<rparr>)\<rparr>)
           (p\<lparr>ndi_world := w\<rparr>))"

definition ut_modify ::
  "nat \<Rightarrow> (ut_world \<Rightarrow> ut_world) \<Rightarrow> ut_cps_attr list \<Rightarrow> obj_process \<Rightarrow> (status \<times> npu_set_t) \<times> obj_process" where
  "ut_modify i arm attrs p =
     (case base_ut_get_switch 0 p of Inl e \<Rightarrow> ((Exc e, []), p)
      | Inr sw \<Rightarrow>
        (case get_ut_obj sw i of Inl e \<Rightarrow> ((Exc e, []), p)
         | Inr orig \<Rightarrow>
           (case apply_attrs (base_switch sw) attrs orig of
              (Done, d) \<Rightarrow>
                (let ds = both_roles d orig; ops = ut_ops (\<lambda>x. leaves (ds x))
                 in case ut_commit_modify (base_switch sw) (ops New) (ops Old) (leaves d) (base orig) False
                        (base d, enter ds (arm (ndi_world p))) of
                   (Done, (b, w), _) \<Rightarrow>
                     (case change_ut_obj 0 (d\<lparr>base := b, ids := ndi_obj_ids w New\<rparr>) (keep_ids 0 orig w p) of
                        Inl f \<Rightarrow> ((Escape f, obj_npus b), keep_ids 0 orig w p)
                      | Inr p' \<Rightarrow> ((Done, obj_npus b), p'))
                 | (st, (b, w), _) \<Rightarrow> ((st, obj_npus b), keep_ids 0 orig w p))
            | (st, d) \<Rightarrow> ((st, []), p))))"

definition ut_delete :: "nat \<Rightarrow> (ut_world \<Rightarrow> ut_world) \<Rightarrow> obj_process \<Rightarrow> status \<times> obj_process" where
  "ut_delete i arm p =
     (case base_ut_get_switch 0 p of Inl e \<Rightarrow> (Exc e, p)
      | Inr sw \<Rightarrow>
        (case get_ut_obj sw i of Inl e \<Rightarrow> (Exc e, p)
         | Inr d \<Rightarrow>
           (case commit_delete (ut_ops (\<lambda>_. leaves d) Old) False
                   (base d, enter (\<lambda>_. d) (arm (ndi_world p))) of
              (Done, (b, w)) \<Rightarrow> (Done, del_ut_obj 0 i (keep_ids 0 (d\<lparr>base := b\<rparr>) w p))
            | (st, (b, w)) \<Rightarrow> (st, keep_ids 0 (d\<lparr>base := b\<rparr>) w p))))"

section \<open>The tests\<close>

text \<open>
  A step of a test is a request with what the test asserts: \<open>None\<close> for an exception, otherwise the
  number of the object's NPUs; of a deletion, whether it succeeds. The result is \<open>None\<close> when an
  assertion fails or something else than a base exception leaves the block.
\<close>

datatype obj_test_step =
    Create "ut_world \<Rightarrow> ut_world" "ut_cps_attr list" "nat option"
  | Modify nat "ut_world \<Rightarrow> ut_world" "ut_cps_attr list" "nat option"
  | Delete nat "ut_world \<Rightarrow> ut_world" bool

definition asserted :: "nat option \<Rightarrow> (status \<times> npu_set_t) \<times> obj_process \<Rightarrow> obj_process option" where
  "asserted expected r =
     (case r of
        ((Done, ns), p) \<Rightarrow> if expected = Some (length ns) then Some p else None
      | ((Exc e, ns), p) \<Rightarrow> if expected = None then Some p else None
      | ((Escape f, ns), p) \<Rightarrow> None)"

definition asserted_deleted :: "bool \<Rightarrow> status \<times> obj_process \<Rightarrow> obj_process option" where
  "asserted_deleted expected r =
     (case r of
        (Done, p) \<Rightarrow> if expected then Some p else None
      | (Exc e, p) \<Rightarrow> if expected then None else Some p
      | (Escape f, p) \<Rightarrow> None)"

fun obj_test_exec :: "ndi_ut_obj_t \<Rightarrow> obj_test_step \<Rightarrow> obj_process \<Rightarrow> obj_process option" where
  "obj_test_exec memory (Create arm attrs expected) p = asserted expected (ut_create memory arm attrs p)"
| "obj_test_exec memory (Modify i arm attrs expected) p = asserted expected (ut_modify i arm attrs p)"
| "obj_test_exec memory (Delete i arm expected) p = asserted_deleted expected (ut_delete i arm p)"

fun obj_test_run :: "ndi_ut_obj_t \<Rightarrow> obj_test_step list \<Rightarrow> obj_process \<Rightarrow> obj_process option" where
  "obj_test_run memory [] p = Some p"
| "obj_test_run memory (t # ts) p =
     (case obj_test_exec memory t p of None \<Rightarrow> None | Some p' \<Rightarrow> obj_test_run memory ts p')"

text \<open>The blocks of \<open>test\<close>, in the order of its loops.\<close>

definition create_test :: "nat \<Rightarrow> obj_test_step" where
  "create_test i = Create id
     (take (i + 1) [Attr2 (of_nat i * 2), Attr1 (of_nat i * 4), Npu_List [1]])
     (if i = 0 then None else Some (if i + 1 < 3 then 3 else 1))"

definition modify_test :: "nat \<Rightarrow> obj_test_step" where
  "modify_test i = Modify 1 id [Attr2 (if i = 0 then 9 else 3), Npu_List [0]] (if i = 0 then None else Some 1)"

definition nas_base_obj_test :: "obj_test_step list" where
  "nas_base_obj_test =
     map create_test [0, 1, 2] @ map modify_test [0, 1] @ map (\<lambda>i. Delete i id True) [1, 2]"

definition rollback_create_test :: "nat \<Rightarrow> obj_test_step" where
  "rollback_create_test i = Create (if i = 0 then (\<lambda>w. w\<lparr>simulate_ndi_fail := 2\<rparr>) else id)
     [Attr2 (of_nat i * 2), Attr1 (of_nat i * 4)] (if i = 0 then None else Some 3)"

definition rollback_modify_test :: "nat \<Rightarrow> obj_test_step" where
  "rollback_modify_test i = Modify 3
     (if i = 0 then (\<lambda>w. w\<lparr>simulate_ndi_attr1_fail := 1\<rparr>)
      else if i = 1 then (\<lambda>w. w\<lparr>simulate_ndi_attr2_fail := 1\<rparr>)
      else (\<lambda>w. w\<lparr>simulate_ndi_attr2_fail := 2\<rparr>))
     ((if i = 0 then Attr1 5 else Attr2 3) # (if i < 2 then [Npu_List [0, 1]] else []))
     None"

definition npu_rollback_test :: "obj_test_step list" where
  "npu_rollback_test =
     map rollback_create_test [0, 1] @ map rollback_modify_test [0, 1, 2] @
     [Delete 3 (\<lambda>w. w\<lparr>simulate_ndi_fail := 2\<rparr>) False]"

lemma obj_tests_pass:
  "obj_test_run memory (nas_base_obj_test @ npu_rollback_test) main_process \<noteq> None"
proof (cases memory)
  case (fields a b)
  have "obj_test_run \<lparr>ut_attr1 = a, ut_attr2 = b\<rparr> (nas_base_obj_test @ npu_rollback_test) main_process \<noteq> None"
    by code_simp
  then show ?thesis using fields by simp
qed

end
