(* ===== verification/ObjLife.thy ===== *)
theory ObjLife
  imports ObjTests
begin

text \<open>
  The life of an object: any sequence of requests to the switch, each with any failures armed and any
  outcomes of its allocations, and the invariant that ties the stored object to what the NPUs hold. The
  steps are those of the tests (\<open>ObjTests\<close>), so the base object, its commits, the NDI and the switch
  work together here. The NDI's world records one object per NPU, so there is one object at a time.
\<close>

section \<open>Editing an object\<close>

text \<open>What applying attributes does to an object before its commit.\<close>

definition edited :: "base_switch_t \<Rightarrow> derived_obj \<Rightarrow> derived_obj \<Rightarrow> bool" where
  "edited sw d d' \<longleftrightarrow>
     ids d' = ids d \<and> obj_id d' = obj_id d \<and> ndi_created (base d') = ndi_created (base d) \<and>
     (oset (obj_npus (base d)) \<longrightarrow> oset (obj_npus (base d'))) \<and>
     set (obj_npus (base d')) \<subseteq> set (obj_npus (base d)) \<union> set (switch_npus sw) \<and>
     (obj_npus (base d) \<noteq> [] \<longrightarrow> obj_npus (base d') \<noteq> []) \<and>
     (attr_inv (dirty_attributes (base d)) \<longrightarrow> attr_inv (dirty_attributes (base d'))) \<and>
     set (attributes (dirty_attributes (base d))) \<subseteq> set (attributes (dirty_attributes (base d'))) \<and>
     set (attributes (dirty_attributes (base d'))) \<subseteq>
       set (attributes (dirty_attributes (base d))) \<union> {BASE_UT_ATTR1, BASE_UT_ATTR2} \<and>
     (\<forall>a. a \<notin> set (attributes (dirty_attributes (base d'))) \<longrightarrow> ut_vals (leaves d') a = ut_vals (leaves d) a)"

lemma edited_refl: "edited sw d d"
  by (auto simp: edited_def)

lemma edited_trans: "edited sw a b \<Longrightarrow> edited sw b c \<Longrightarrow> edited sw a c"
  unfolding edited_def by (simp, blast)

lemma edited_add_npu:
  assumes "add_npu sw n reset ob = (st, ob')"
  shows "edited sw (d\<lparr>base := ob\<rparr>) (d\<lparr>base := ob'\<rparr>) \<and> (\<forall>f. st \<noteq> Escape f)"
proof -
  have "oset_insert n xs \<noteq> []" for xs :: "int list"
    using set_oset_insert [of n xs] by (metis empty_iff empty_set insertI1)
  then show ?thesis
    using assms by (auto simp: add_npu_def edited_def npu_add_def npu_contains_def oset_simps Let_def
        split: if_splits)
qed

lemma edited_add_npus:
  "add_npus sw ns ob = (st, ob') \<Longrightarrow>
     edited sw (d\<lparr>base := ob\<rparr>) (d\<lparr>base := ob'\<rparr>) \<and> (\<forall>f. st \<noteq> Escape f)"
proof (induction ns arbitrary: ob)
  case (Cons n ns)
  obtain st1 ob1 where 1: "add_npu sw n True ob = (st1, ob1)" by force
  note e = edited_add_npu [OF 1, of d]
  show ?case
  proof (cases st1)
    case Done
    then show ?thesis using e Cons.IH [of ob1] Cons.prems 1 by (auto intro: edited_trans)
  qed (use e Cons.prems 1 in auto)
qed (simp add: edited_refl)

lemma edited_apply_attr:
  "apply_attr sw a d = (st, d') \<Longrightarrow> edited sw d d' \<and> (\<forall>f. st \<noteq> Escape f)"
proof (cases a)
  case (Npu_List ns)
  assume "apply_attr sw a d = (st, d')"
  then show ?thesis
    using Npu_List edited_add_npus [of sw ns "base d" _ _ d] by (auto simp: apply_attr_def split: prod.splits)
qed (auto simp: apply_attr_def set_attr1_def set_attr2_def edited_refl edited_def mark_attr_dirty_def
    attr_add_inv attr_add_eq oset_simps ut_vals_def split: if_splits)

lemma edited_apply_attrs:
  "apply_attrs sw as d = (st, d') \<Longrightarrow> edited sw d d' \<and> (\<forall>f. st \<noteq> Escape f)"
proof (induction as arbitrary: d)
  case (Cons a as)
  obtain st1 d1 where 1: "apply_attr sw a d = (st1, d1)" by force
  note e = edited_apply_attr [OF 1]
  show ?case
  proof (cases st1)
    case Done
    then show ?thesis using e Cons.IH [of d1] Cons.prems 1 by (auto intro: edited_trans)
  qed (use e Cons.prems 1 in auto)
qed (simp add: edited_refl)

section \<open>Requests and the invariant\<close>

datatype obj_request =
    Req_Create ndi_ut_obj_t "ut_cps_attr list"
  | Req_Modify nat "ut_cps_attr list"
  | Req_Delete nat

text \<open>The three failures that are armed, and the outcomes of the coming allocations.\<close>

type_synonym armed_t = "int \<times> int \<times> int \<times> bool list"

definition armed :: "armed_t \<Rightarrow> ut_world \<Rightarrow> ut_world" where
  "armed fs w = (case fs of (f, f1, f2, oks) \<Rightarrow>
     w\<lparr>simulate_ndi_fail := f, simulate_ndi_attr1_fail := f1, simulate_ndi_attr2_fail := f2, ut_mem := oks\<rparr>)"

definition memory_ok :: "armed_t \<Rightarrow> bool" where
  "memory_ok fs \<longleftrightarrow> (case fs of (f, f1, f2, oks) \<Rightarrow> False \<notin> set oks)"

fun obj_exec :: "armed_t \<Rightarrow> obj_request \<Rightarrow> obj_process \<Rightarrow> status \<times> obj_process" where
  "obj_exec fs (Req_Create memory as) p = (case ut_create memory (armed fs) as p of ((st, _), p') \<Rightarrow> (st, p'))"
| "obj_exec fs (Req_Modify i as) p = (case ut_modify i (armed fs) as p of ((st, _), p') \<Rightarrow> (st, p'))"
| "obj_exec fs (Req_Delete i) p = ut_delete i (armed fs) p"

definition stored :: "obj_process \<Rightarrow> nat \<Rightarrow> derived_obj option" where
  "stored p = sw_objs (ut_switches p ! 0)"

text \<open>An object is created when there is none.\<close>

definition req_ok :: "obj_request \<Rightarrow> obj_process \<Rightarrow> bool" where
  "req_ok r p \<longleftrightarrow> (case r of Req_Create _ _ \<Rightarrow> stored p = Map.empty | _ \<Rightarrow> True)"

text \<open>The blocks of the tests catch base exceptions; a \<open>bad_alloc\<close> ends the process.\<close>

inductive obj_reachable :: "obj_process \<Rightarrow> bool" where
  obj_init: "obj_reachable main_process"
| obj_step: "obj_reachable p \<Longrightarrow> req_ok r p \<Longrightarrow> obj_exec fs r p = (st, p') \<Longrightarrow> \<forall>f. st \<noteq> Escape f \<Longrightarrow>
     obj_reachable p'"

text \<open>The NPUs hold exactly what an object says, and the object can address them.\<close>

definition live :: "derived_obj \<Rightarrow> ut_world \<Rightarrow> bool" where
  "live d w \<longleftrightarrow> ndi_created (base d) \<and> oset (obj_npus (base d)) \<and> obj_npus (base d) \<noteq> [] \<and>
     set (obj_npus (base d)) \<subseteq> {0, 1, 2} \<and>
     attributes (dirty_attributes (base d)) = [] \<and> attr_inv (dirty_attributes (base d)) \<and>
     (\<forall>n \<in> set (obj_npus (base d)). ids d n \<noteq> None) \<and>
     ut_cfg w = (\<lambda>n. if n \<in> set (obj_npus (base d)) then Some (ut_vals (leaves d)) else None)"

definition obj_sync :: "obj_process \<Rightarrow> bool" where
  "obj_sync p \<longleftrightarrow> length (ut_switches p) = 2 \<and> switch_npus (base_switch (ut_switches p ! 0)) = [0, 1, 2] \<and>
     (stored p = Map.empty \<and> ut_cfg (ndi_world p) = Map.empty \<or>
      (\<exists>i d. stored p = [i \<mapsto> d] \<and> obj_id d = i \<and> live d (ndi_world p)))"

lemma ut_ops_Old: "ut_ops obs Old = ut_ops obs' Old" if "obs Old = obs' Old"
  using that by (simp add: ut_ops_def)

lemma world_frame [simp]:
  "ut_wf w" "ut_cfg (enter ds w) = ut_cfg w" "ut_cfg (armed fs w) = ut_cfg w"
  "ndi_obj_ids (enter ds w) x = ids (ds x)" "ut_memory (enter ds w) = ut_memory w"
  "ut_memory (armed fs w) = memory_ok fs"
  by (cases fs; simp add: enter_def armed_def ut_wf_def ut_memory_def memory_ok_def)+

lemma main_sync: "obj_sync main_process"
  by (simp add: obj_sync_def main_process_def new_derived_switch_def switch_add_npu_def npu_add_def
      oset_insert_def stored_def Let_def)

lemma npu_in_switch_ok: "n \<in> {0, 1, 2} \<Longrightarrow> ut_npu_ok n"
  by (auto simp: ut_npu_ok_def RESET_NPU_ID_def)

lemma commit_npus_cases:
  assumes "switch_npus sw = [0, 1, 2]" "oset (obj_npus ob)" "set (obj_npus ob) \<subseteq> {0, 1, 2}"
  shows "oset (commit_npus sw ob) \<and> commit_npus sw ob \<noteq> [] \<and> set (commit_npus sw ob) \<subseteq> {0, 1, 2}"
  using assms by (auto simp: commit_npus_def oset_def)

lemma sync_empty: "obj_sync p \<Longrightarrow> stored p = Map.empty \<Longrightarrow> ut_cfg (ndi_world p) = Map.empty"
  unfolding obj_sync_def by (metis map_upd_nonempty)

lemma sync_stored:
  "obj_sync p \<Longrightarrow> stored p i = Some d \<Longrightarrow> stored p = [i \<mapsto> d] \<and> obj_id d = i \<and> live d (ndi_world p)"
  by (auto simp: obj_sync_def split: if_splits)

text \<open>The parts of the process outside the stored objects, and how each operation changes those.\<close>

definition frame :: "obj_process \<Rightarrow> bool" where
  "frame p \<longleftrightarrow> length (ut_switches p) = 2 \<and> switch_npus (base_switch (ut_switches p ! 0)) = [0, 1, 2]"

lemma sync_liveI: "frame p \<Longrightarrow> stored p = [i \<mapsto> d] \<Longrightarrow> obj_id d = i \<Longrightarrow> live d (ndi_world p) \<Longrightarrow> obj_sync p"
  by (auto simp: obj_sync_def frame_def)

lemma sync_emptyI: "frame p \<Longrightarrow> stored p = Map.empty \<Longrightarrow> ut_cfg (ndi_world p) = Map.empty \<Longrightarrow> obj_sync p"
  by (simp add: obj_sync_def frame_def)

lemma sync_frame: "obj_sync p \<Longrightarrow> frame p"
  by (simp add: obj_sync_def frame_def)

lemma put_switch_frame:
  "frame p \<Longrightarrow> base_switch sw = base_switch (ut_switches p ! 0) \<Longrightarrow>
     frame (put_switch 0 sw p) \<and> stored (put_switch 0 sw p) = sw_objs sw \<and>
     ndi_world (put_switch 0 sw p) = ndi_world p"
  by (simp add: frame_def put_switch_def stored_def)

lemma process_frame [simp]:
  "frame (p\<lparr>ndi_world := w\<rparr>) = frame p" "stored (p\<lparr>ndi_world := w\<rparr>) = stored p"
  "frame (p\<lparr>new_id := k\<rparr>) = frame p" "stored (p\<lparr>new_id := k\<rparr>) = stored p"
  by (simp_all add: frame_def stored_def)

lemma add_ut_obj_frame:
  assumes "frame p" "stored p = Map.empty"
  shows "frame (add_ut_obj 0 d p) \<and> ndi_world (add_ut_obj 0 d p) = ndi_world p \<and>
    stored (add_ut_obj 0 d p) = [new_id p + 1 \<mapsto> d\<lparr>obj_id := new_id p + 1\<rparr>]"
  using assms put_switch_frame [of "p\<lparr>new_id := new_id p + 1\<rparr>"]
  by (simp add: add_ut_obj_def Let_def) (simp add: stored_def)

lemma keep_ids_frame:
  assumes "frame p"
  shows "frame (keep_ids 0 d w p) \<and> ndi_world (keep_ids 0 d w p) = w \<and>
    stored (keep_ids 0 d w p) = (stored p)(obj_id d \<mapsto> d\<lparr>ids := ndi_obj_ids w Old\<rparr>)"
  using assms put_switch_frame [of "p\<lparr>ndi_world := w\<rparr>"]
  by (simp add: keep_ids_def Let_def) (simp add: stored_def)

lemma change_ut_obj_frame:
  assumes "frame p" "stored p (obj_id d) \<noteq> None"
  shows "\<exists>p'. change_ut_obj 0 d p = Inr p' \<and> frame p' \<and> ndi_world p' = ndi_world p \<and>
    stored p' = (stored p)(obj_id d \<mapsto> d)"
  using assms put_switch_frame [of p] by (simp add: change_ut_obj_def Let_def) (simp add: stored_def)

lemma del_ut_obj_frame:
  assumes "frame p"
  shows "frame (del_ut_obj 0 i p) \<and> ndi_world (del_ut_obj 0 i p) = ndi_world p \<and>
    stored (del_ut_obj 0 i p) = (stored p)(i := None)"
  using assms put_switch_frame [of p] by (simp add: del_ut_obj_def Let_def) (simp add: stored_def)

text \<open>
  How every request ends. It returns; or a base exception leaves it, and then no NPU has changed; or
  something else does, for lack of memory. The invariant holds after the first two.
\<close>

definition good_end :: "armed_t \<Rightarrow> status \<Rightarrow> obj_process \<Rightarrow> obj_process \<Rightarrow> bool" where
  "good_end fs st p p' \<longleftrightarrow>
     (case st of Done \<Rightarrow> obj_sync p'
      | Exc e \<Rightarrow> obj_sync p' \<and> ut_cfg (ndi_world p') = ut_cfg (ndi_world p)
      | Escape f \<Rightarrow> \<not> memory_ok fs)"

lemma good_end_simps [simp]:
  "good_end fs Done p p' \<longleftrightarrow> obj_sync p'"
  "good_end fs (Exc e) p p' \<longleftrightarrow> obj_sync p' \<and> ut_cfg (ndi_world p') = ut_cfg (ndi_world p)"
  "good_end fs (Escape f) p p' \<longleftrightarrow> \<not> memory_ok fs"
  by (simp_all add: good_end_def)

lemma create_sync:
  assumes "obj_sync p" "req_ok (Req_Create memory as) p"
    "ut_create memory (armed fs) as p = ((st, ns), p')"
  shows "good_end fs st p p'"
proof -
  let ?sw = "base_switch (ut_switches p ! 0)"
  have e: "stored p = Map.empty" using assms(2) by (simp add: req_ok_def)
  have sw: "switch_npus ?sw = [0, 1, 2]" "length (ut_switches p) = 2" using assms(1) by (auto simp: obj_sync_def)
  have cfg: "ut_cfg (ndi_world p) = Map.empty" using assms(1) e by (rule sync_empty)
  obtain st1 d where a: "apply_attrs ?sw as (new_derived_obj memory) = (st1, d)" by force
  have ed: "edited ?sw (new_derived_obj memory) d" "\<forall>f. st1 \<noteq> Escape f" using edited_apply_attrs [OF a] by auto
  have new: "\<not> ndi_created (base d)" "oset (obj_npus (base d))" "set (obj_npus (base d)) \<subseteq> {0, 1, 2}"
    using ed(1) sw(1) by (auto simp: edited_def new_derived_obj_def new_base_obj_def oset_def)
  note c = commit_npus_cases [OF sw(1) new(2,3)]
  let ?w = "enter (\<lambda>_. d) (armed fs (ndi_world p))"
  obtain st2 b w where cc: "commit_create ?sw (ut_ops (\<lambda>_. leaves d) New) False (base d, ?w) = (st2, (b, w))"
    by (metis surj_pair)
  have npus: "\<forall>n \<in> set (commit_npus ?sw (base d)). ut_npu_ok n \<and> ut_cfg ?w n = None"
    using c npu_in_switch_ok cfg by auto
  have wf: "ut_wf ?w" by simp
  have "create_unrestored ?sw (ut_ops (\<lambda>_. leaves d)) (base d) ?w = {}"
    using c npus by (intro ut.commits_restore(1)) auto
  note res = ut.commit_create_result [OF wf new(1) _ npus cc, unfolded this]
  have "obj_sync (p\<lparr>ndi_world := w'\<rparr>)" if "ut_cfg w' = Map.empty" for w'
    using sync_frame [OF assms(1)] e that by (intro sync_emptyI) simp_all
  moreover have "obj_sync (add_ut_obj 0 (d\<lparr>base := b, ids := ndi_obj_ids w New\<rparr>) (p\<lparr>ndi_world := w\<rparr>))"
    if "st2 = Done"
  proof -
    have "frame (p\<lparr>ndi_world := w\<rparr>)" "stored (p\<lparr>ndi_world := w\<rparr>) = Map.empty"
      using sync_frame [OF assms(1)] e by simp_all
    note f = add_ut_obj_frame [OF this, of "d\<lparr>base := b, ids := ndi_obj_ids w New\<rparr>"]
    have "live (d\<lparr>base := b, ids := ndi_obj_ids w New, obj_id := new_id p + 1\<rparr>) w"
      using res c that cfg by (simp add: live_def ut_owned_def fun_eq_iff)
    then show ?thesis using f by (intro sync_liveI [of _ "new_id p + 1"]) (auto intro: sync_liveI)
  qed
  moreover have "ut_cfg w = Map.empty" if "st2 = Exc x" for x using res c that cfg by (simp add: fun_eq_iff)
  moreover have "\<not> memory_ok fs" if "st2 = Escape f" for f using res c that by auto
  ultimately show ?thesis
    using assms(1,3) a ed(2) cc cfg
    by (auto simp: ut_create_def base_ut_get_switch_def ut_commit_create_def split: status.splits if_splits)
qed

lemma live_keep_ids:
  assumes "live d w" "ut_cfg w' = ut_cfg w" "\<forall>n. ids d n \<noteq> None \<longrightarrow> is n \<noteq> None"
  shows "live (d\<lparr>ids := is\<rparr>) w'"
  using assms by (auto simp: live_def)

lemma live_cfg:
  "live d w \<Longrightarrow> live d' w' \<Longrightarrow> base d' = base d \<Longrightarrow> leaves d' = leaves d \<Longrightarrow> ut_cfg w' = ut_cfg w"
  unfolding live_def by (auto simp: fun_eq_iff)

lemma ut_keptD: "ut.kept w w' \<Longrightarrow> ndi_obj_ids w x n \<noteq> None \<Longrightarrow> ndi_obj_ids w' x n \<noteq> None"
  by (auto simp: ut.kept_def ut.owns_more_def ut_owned_def)

text \<open>The commit of an edited copy of a live object.\<close>

lemma commit_modify_live:
  assumes "live orig v" "edited sw orig d" "switch_npus sw = [0, 1, 2]" "ut_wf w" "ut_cfg w = ut_cfg v"
    "ndi_obj_ids w = (\<lambda>_. ids orig)"
    "commit_modify sw (ut_ops obs New) (ut_ops obs Old) (base orig) False (base d, w) = (st, (b, w'), ch)"
    "obs New = leaves d" "obs Old = leaves orig"
  shows "(\<exists>f. st = Escape f \<and> \<not> ut_memory w) \<or>
    live (orig\<lparr>ids := ndi_obj_ids w' Old\<rparr>) w' \<and> (\<exists>e. st = Exc e) \<or>
    st = Done \<and> live (d\<lparr>base := b, ids := ndi_obj_ids w' New\<rparr>) w'"
proof -
  have o: "ndi_created (base orig)" "obj_npus (base orig) \<noteq> []" "oset (obj_npus (base orig))"
    "set (obj_npus (base orig)) \<subseteq> {0, 1, 2}" "attributes (dirty_attributes (base orig)) = []"
    "attr_inv (dirty_attributes (base orig))" "\<forall>n \<in> set (obj_npus (base orig)). ids orig n \<noteq> None"
    "ut_cfg w = (\<lambda>n. if n \<in> set (obj_npus (base orig)) then Some (ut_vals (leaves orig)) else None)"
    using assms(1,5) by (simp_all add: live_def)
  have d: "ndi_created (base d)" "obj_npus (base d) \<noteq> []" "oset (obj_npus (base d))"
    "set (obj_npus (base d)) \<subseteq> {0, 1, 2}" "attr_inv (dirty_attributes (base d))"
    "set (attributes (dirty_attributes (base d))) \<subseteq> {BASE_UT_ATTR1, BASE_UT_ATTR2}"
    "\<forall>a. a \<notin> set (attributes (dirty_attributes (base d))) \<longrightarrow> ut_vals (leaves d) a = ut_vals (leaves orig) a"
    using assms(2,3) o by (auto simp: edited_def)
  have c: "commit_npus sw (base d) = obj_npus (base d)" using d(2) by (simp add: commit_npus_def)
  have pre: "\<forall>n \<in> set (commit_npus sw (base d)) \<union> set (obj_npus (base orig)). ut_npu_ok n"
    "\<forall>n \<in> set (obj_npus (base orig)). ut_cfg w n = Some (ut_vals (obs Old)) \<and> ut_owned Old w n \<and> ut_owned New w n"
    "\<forall>n \<in> set (commit_npus sw (base d)) - set (obj_npus (base orig)). ut_cfg w n = None"
    "\<forall>a \<in> set (attributes (dirty_attributes (base d))). ut_attr_ok a \<and> is_leaf_attr (ut_ops obs New) a"
    "\<forall>a. a \<notin> set (attributes (dirty_attributes (base d))) \<longrightarrow> ut_vals (obs New) a = ut_vals (obs Old) a"
    using npu_in_switch_ok [OF subsetD [OF Un_least [OF d(4) o(4)]]] o(7,8) d(6,7) assms(6,8,9)
    by (auto simp: c ut_owned_def ut_attr_ok_def ut_ops_def)
  have "modify_unrestored sw (ut_ops obs) (base d) (base orig) w = {}"
    using pre d(5) by (intro ut.commits_restore(2)) (auto simp: ut.in_sync_def)
  note res = ut.commit_modify_result [OF d(1) assms(4) pre(1-3) d(5) pre(4,5) assms(7), unfolded this]
  moreover have "live (orig\<lparr>ids := ndi_obj_ids w' Old\<rparr>) w'" if "\<forall>n. ut_cfg w' n = ut_cfg w n"
    using assms(1) that assms(5,6) ut_keptD [of w w' Old] res
    by (intro live_keep_ids [of orig v]) (auto simp: fun_eq_iff)
  moreover have "live (d\<lparr>base := b, ids := ndi_obj_ids w' New\<rparr>) w'" if "st = Done"
    using res that c d(2-4) assms(8) o(8) by (auto simp: live_def ut_owned_def)
  ultimately show ?thesis by auto
qed

lemma modify_sync:
  assumes "obj_sync p" "req_ok (Req_Modify i as) p"
    "ut_modify i (armed fs) as p = ((st, ns), p')"
  shows "good_end fs st p p'"
proof (cases "stored p i")
  case None
  then show ?thesis using assms
    by (auto simp: ut_modify_def base_ut_get_switch_def get_ut_obj_def stored_def)
next
  case (Some orig)
  let ?sw = "base_switch (ut_switches p ! 0)"
  have s: "stored p = [i \<mapsto> orig]" "obj_id orig = i" "live orig (ndi_world p)"
    using sync_stored [OF assms(1) Some] by auto
  have fr: "frame p" using assms(1) by (rule sync_frame)
  have get: "get_ut_obj (ut_switches p ! 0) i = Inr orig" using Some by (simp add: get_ut_obj_def stored_def)
  obtain st1 d where a: "apply_attrs ?sw as orig = (st1, d)" by force
  have ed: "edited ?sw orig d" "\<forall>f. st1 \<noteq> Escape f" using edited_apply_attrs [OF a] by auto
  let ?ds = "both_roles d orig" let ?obs = "\<lambda>x. leaves (?ds x)"
  let ?w = "enter ?ds (armed fs (ndi_world p))"
  obtain st2 b w ch where cm: "commit_modify ?sw (ut_ops ?obs New) (ut_ops ?obs Old) (base orig) False
      (base d, ?w) = (st2, (b, w), ch)" by (metis surj_pair)
  have ids: "ndi_obj_ids ?w = (\<lambda>_. ids orig)"
    using ed(1) by (auto simp: enter_def both_roles_def edited_def fun_eq_iff split: role.split)
  have res: "(\<exists>f. st2 = Escape f \<and> \<not> ut_memory ?w) \<or>
      live (orig\<lparr>ids := ndi_obj_ids w Old\<rparr>) w \<and> (\<exists>e. st2 = Exc e) \<or>
      st2 = Done \<and> live (d\<lparr>base := b, ids := ndi_obj_ids w New\<rparr>) w"
    using assms(2) fr ids
    by (intro commit_modify_live [OF s(3) ed(1) _ _ _ _ cm]) (auto simp: req_ok_def frame_def both_roles_def)
  have keep: "frame (keep_ids 0 orig v p)" "ndi_world (keep_ids 0 orig v p) = v"
    "stored (keep_ids 0 orig v p) = [i \<mapsto> orig\<lparr>ids := ndi_obj_ids v Old\<rparr>]" for v
    using keep_ids_frame [OF fr, of orig v] s by auto
  have v: "ut_cfg v = ut_cfg (ndi_world p)" if "live (orig\<lparr>ids := ndi_obj_ids v Old\<rparr>) v" for v
    using s(3) that by (rule live_cfg) simp_all
  have kept: "obj_sync (keep_ids 0 orig v p)" if "live (orig\<lparr>ids := ndi_obj_ids v Old\<rparr>) v" for v
    using keep [of v] that s(2) by (intro sync_liveI [of _ i]) auto
  have same: "live (orig\<lparr>ids := ndi_obj_ids ?w Old\<rparr>) ?w"
    using s(3) by (intro live_keep_ids [of orig "ndi_world p"]) (auto simp: both_roles_def)
  have id: "obj_id d = i" using ed(1) s(2) by (simp add: edited_def)
  obtain p1 where p1: "change_ut_obj 0 (d\<lparr>base := b, ids := ndi_obj_ids w New\<rparr>) (keep_ids 0 orig w p) = Inr p1"
      "frame p1" "ndi_world p1 = w" "stored p1 = [i \<mapsto> d\<lparr>base := b, ids := ndi_obj_ids w New\<rparr>]"
    using change_ut_obj_frame [OF keep(1) [of w], of "d\<lparr>base := b, ids := ndi_obj_ids w New\<rparr>"] keep(2,3) [of w] id
    by auto
  have changed: "obj_sync p1" if "live (d\<lparr>base := b, ids := ndi_obj_ids w New\<rparr>) w"
    using p1 that id by (intro sync_liveI [of _ i]) auto
  show ?thesis
    using assms(1,3) a ed(2) cm res kept [of w] kept [OF same] changed p1(1) get v [of w] keep(2)
    by (auto simp: ut_modify_def base_ut_get_switch_def ut_commit_modify_def Let_def split: status.splits if_splits)
qed

lemma delete_sync:
  assumes "obj_sync p" "req_ok (Req_Delete i) p" "ut_delete i (armed fs) p = (st, p')"
  shows "good_end fs st p p'"
proof (cases "stored p i")
  case None
  then show ?thesis using assms
    by (auto simp: ut_delete_def base_ut_get_switch_def get_ut_obj_def stored_def)
next
  case (Some d)
  have s: "stored p = [i \<mapsto> d]" "obj_id d = i" "live d (ndi_world p)"
    using sync_stored [OF assms(1) Some] by auto
  have fr: "frame p" using assms(1) by (rule sync_frame)
  have get: "get_ut_obj (ut_switches p ! 0) i = Inr d" using Some by (simp add: get_ut_obj_def stored_def)
  let ?w = "enter (\<lambda>_. d) (armed fs (ndi_world p))"
  obtain st1 b w where cd: "commit_delete (ut_ops (\<lambda>_. leaves d) Old) False (base d, ?w) = (st1, (b, w))"
    by (metis surj_pair)
  have cfg: "ut_cfg ?w = (\<lambda>n. if n \<in> set (obj_npus (base d)) then Some (ut_vals (leaves d)) else None)"
    using s(3) by (simp add: live_def)
  have pre: "ut_wf ?w" "ndi_created (base d)" "oset (obj_npus (base d))"
    using s(3) by (simp_all add: live_def)
  have npus: "set (obj_npus (base d)) \<subseteq> {0, 1, 2}" "\<forall>n \<in> set (obj_npus (base d)). ids d n \<noteq> None"
    using s(3) by (simp_all add: live_def)
  have own: "\<forall>n \<in> set (obj_npus (base d)). ut_npu_ok n \<and> ut_cfg ?w n = Some (ut_vals (leaves d)) \<and> ut_owned Old ?w n"
    using cfg npus(2) npu_in_switch_ok [OF subsetD [OF npus(1)]] by (simp add: ut_owned_def)
  have "delete_unrestored (ut_ops (\<lambda>_. leaves d)) (base d) ?w = {}"
    using pre(1,3) own by (rule ut.commits_restore(3))
  note res = ut.commit_delete_result [OF pre own cd, unfolded this, simplified, folded fun_eq_iff]
  have keep: "frame (keep_ids 0 (d\<lparr>base := c\<rparr>) w p)" "ndi_world (keep_ids 0 (d\<lparr>base := c\<rparr>) w p) = w"
    "stored (keep_ids 0 (d\<lparr>base := c\<rparr>) w p) = [i \<mapsto> d\<lparr>base := c, ids := ndi_obj_ids w Old\<rparr>]" for c
    using keep_ids_frame [OF fr, of "d\<lparr>base := c\<rparr>" w] s by auto
  have restored: "obj_sync (keep_ids 0 (d\<lparr>base := b\<rparr>) w p)" if "b = base d" "ut_cfg w = ut_cfg ?w"
  proof -
    have "live (d\<lparr>ids := ndi_obj_ids w Old\<rparr>) w"
      using s(3) that(2) res ut_keptD [of ?w w Old] by (intro live_keep_ids [of d "ndi_world p"]) auto
    then show ?thesis using keep [of b] that(1) s(2) by (intro sync_liveI [of _ i]) auto
  qed
  have gone: "obj_sync (del_ut_obj 0 i (keep_ids 0 (d\<lparr>base := b\<rparr>) w p))" if "st1 = Done"
    using del_ut_obj_frame [OF keep(1) [of b], of i] keep(2,3) [of b] res that cfg
    by (intro sync_emptyI) (auto simp: fun_eq_iff)
  show ?thesis
    using assms(3) cd res restored gone get keep(2) [of "base d"]
    by (auto simp: ut_delete_def base_ut_get_switch_def split: status.splits)
qed

lemma obj_exec_sync:
  assumes "obj_sync p" "req_ok r p" "obj_exec fs r p = (st, p')"
  shows "good_end fs st p p'"
proof (cases r)
  case (Req_Create memory as)
  obtain st1 ns p1 where "ut_create memory (armed fs) as p = ((st1, ns), p1)" by (metis surj_pair)
  then show ?thesis using create_sync [OF assms(1) assms(2) [unfolded Req_Create]] assms(3) Req_Create by simp
next
  case (Req_Modify i as)
  obtain st1 ns p1 where "ut_modify i (armed fs) as p = ((st1, ns), p1)" by (metis surj_pair)
  then show ?thesis using modify_sync [OF assms(1) assms(2) [unfolded Req_Modify]] assms(3) Req_Modify by simp
next
  case (Req_Delete i)
  then show ?thesis using delete_sync [OF assms(1) assms(2) [unfolded Req_Delete]] assms(3) by simp
qed

lemma obj_reachable_sync: "obj_reachable p \<Longrightarrow> obj_sync p"
proof (induction rule: obj_reachable.induct)
  case (obj_step p r fs st p')
  then show ?case using obj_exec_sync [OF obj_step.IH] by (cases st) fastforce+
qed (rule main_sync)

text \<open>C5: Over every history of requests that create, modify and delete an object of the tests, one
  object at a time, with any attributes, any failures armed in the tests' NDI before each request and
  any outcomes of its allocations, up to a request that \<open>bad_alloc\<close> leaves, the NPUs hold exactly what
  the stored object says: nothing when there is none, otherwise its values on each of its NPUs and
  nothing on the others. Every request returns, or throws a base exception and leaves all NPUs as they
  were, or, only when one of its allocations fails, is left by \<open>bad_alloc\<close>. In that NDI the call that
  undoes a push looks at the same variable as the push, so a rollback does not fail, whatever is
  armed.\<close>

theorem npus_follow_object:
  assumes "obj_reachable p"
  shows "(stored p = Map.empty \<and> ut_cfg (ndi_world p) = Map.empty \<or>
     (\<exists>i d. stored p = [i \<mapsto> d] \<and> ndi_created (base d) \<and> obj_npus (base d) \<noteq> [] \<and>
        set (obj_npus (base d)) \<subseteq> set (switch_npus (base_switch (ut_switches p ! 0))) \<and>
        ut_cfg (ndi_world p) =
          (\<lambda>n. if n \<in> set (obj_npus (base d)) then Some (ut_vals (leaves d)) else None))) \<and>
    (req_ok r p \<longrightarrow> (case obj_exec fs r p of
        (Done, p') \<Rightarrow> True
      | (Exc e, p') \<Rightarrow> ut_cfg (ndi_world p') = ut_cfg (ndi_world p)
      | (Escape f, p') \<Rightarrow> \<not> memory_ok fs))"
proof -
  have s: "obj_sync p" using assms by (rule obj_reachable_sync)
  have "case obj_exec fs r p of (Done, p') \<Rightarrow> True
      | (Exc e, p') \<Rightarrow> ut_cfg (ndi_world p') = ut_cfg (ndi_world p) | (Escape f, p') \<Rightarrow> \<not> memory_ok fs"
    if "req_ok r p"
    using obj_exec_sync [OF s that, of fs] by (auto split: prod.split status.split)
  then show ?thesis using s by (auto simp: obj_sync_def live_def)
qed

text \<open>
  An object is created on the three NPUs; then, with all three failures armed for
  NPU 1, its move to NPUs 0 and 1 with a new value fails there and is rolled back.
\<close>

definition life_1 :: obj_process where
  "life_1 = snd (obj_exec (10, 10, 10, []) (Req_Create \<lparr>ut_attr1 = 0, ut_attr2 = 0\<rparr> [Attr1 4]) main_process)"

definition life_2 :: "status \<times> obj_process" where
  "life_2 = obj_exec (1, 1, 1, []) (Req_Modify 1 [Attr1 5, Npu_List [0, 1]]) life_1"

lemma life_ok:
  "req_ok (Req_Create \<lparr>ut_attr1 = 0, ut_attr2 = 0\<rparr> [Attr1 4]) main_process"
  "req_ok (Req_Modify 1 [Attr1 5, Npu_List [0, 1]]) life_1"
  by (simp_all add: req_ok_def stored_def main_process_def new_derived_switch_def Let_def)

lemma life_1_reachable: "obj_reachable life_1"
proof -
  let ?r = "obj_exec (10, 10, 10, []) (Req_Create \<lparr>ut_attr1 = 0, ut_attr2 = 0\<rparr> [Attr1 4]) main_process"
  have e: "?r = (fst ?r, life_1)" by (simp add: life_1_def)
  show ?thesis
    using obj_exec_sync [OF main_sync life_ok(1) e]
    by (intro obj_step [OF obj_init life_ok(1) e]) (auto simp: good_end_def memory_ok_def)
qed

lemma life_2_thrown: "\<exists>e. fst life_2 = Exc e"
proof -
  have "case fst life_2 of Exc e \<Rightarrow> True | _ \<Rightarrow> False" by code_simp
  then show ?thesis by (auto split: status.splits)
qed

lemma npus_follow_object_witness:
  "ut_cfg (ndi_world (snd life_2)) = ut_cfg (ndi_world life_1) \<and> (\<exists>e. fst life_2 = Exc e)"
proof -
  obtain e where e: "fst life_2 = Exc e" using life_2_thrown by blast
  then obtain p' where "life_2 = (Exc e, p')" by (metis prod.collapse)
  then show ?thesis
    using npus_follow_object [where p = life_1 and fs = "(1, 1, 1, [])" and r = "Req_Modify 1 [Attr1 5, Npu_List [0, 1]]"]
      life_1_reachable life_ok(2) by (simp add: life_2_def)
qed

end
