(* ===== verification/IfDump.thy ===== *)
theory IfDump
  imports IfProps BaseUtils
begin

text \<open>
  The dump of the interface table (\<open>print_record\<close>, \<open>dump_tree\<close>, \<open>dump_tree_ifname\<close> and
  \<open>dn_hal_dump_interface_mapping\<close> in \<open>src/src/hal_if_mapping.cpp\<close>): what is printed, as a string. The
  order in which a hash map's iterator visits its entries is a parameter.
\<close>

section \<open>A record\<close>

text \<open>\<open>%lx\<close>.\<close>

definition hex_digit :: "nat \<Rightarrow> char" where
  "hex_digit d = char_of (if d < 10 then 48 + d else 87 + d)"

fun hex_of_nat :: "nat \<Rightarrow> string" where
  "hex_of_nat n = (if n < 16 then [hex_digit n] else hex_of_nat (n div 16) @ [hex_digit (n mod 16)])"

declare hex_of_nat.simps [simp del]

text \<open>The value of the enumerator.\<close>

fun type_number :: "nas_int_type \<Rightarrow> nat" where
  "type_number nas_int_type_PORT = 0"
| "type_number nas_int_type_VLAN = 1"
| "type_number nas_int_type_LAG = 2"
| "type_number nas_int_type_CPU = 3"
| "type_number nas_int_type_LPBK = 4"
| "type_number nas_int_type_FC = 5"
| "type_number nas_int_type_MGMT = 6"
| "type_number nas_int_type_MACVLAN = 7"
| "type_number nas_int_type_VLANSUB_INTF = 8"
| "type_number nas_int_type_VXLAN = 9"
| "type_number nas_int_type_DOT1D_BRIDGE = 10"
| "type_number nas_int_type_INVALID = 256"

definition l3_text :: "string \<Rightarrow> interface_ctrl \<Rightarrow> string" where
  "l3_text what p =
     (if l3_if_index (l3_info p) \<noteq> 0
      then what @ '' Intf info, VRF:'' @ fmt_d (l3_vrf_id (l3_info p)) @
        '', IFIndex:'' @ fmt_d (l3_if_index (l3_info p))
      else []) @ newline"

definition vrf_text :: "interface_ctrl \<Rightarrow> string" where
  "vrf_text p = ''VRF:'' @ fmt_d (vrf_id p) @ '', IFIndex:'' @ fmt_d (if_index p) @ '', MAC:'' @ mac_addr p @ '', ''"

definition print_rec :: "interface_ctrl \<Rightarrow> string" where
  "print_rec p =
     (case int_type p of
        nas_int_type_PORT \<Rightarrow>
          ''PORT:'' @ if_name p @ '', NPU:'' @ fmt_d (npu_id p) @ '', Port:'' @ fmt_d (port_id p) @
          '', SubPort:'' @ fmt_d (sub_interface p) @ '', TapID:'' @ fmt_d (tap_id p) @ '', '' @ vrf_text p @
          ''Mapped:'' @ dec_of_nat (of_bool (port_mapped p)) @ '', '' @ l3_text ''Mapped VRF'' p
      | nas_int_type_VLAN \<Rightarrow>
          ''VLAN:'' @ if_name p @ '', vlan_id:'' @ dec_of_nat (unat (vlan_id p)) @ '', '' @ vrf_text p @
          l3_text ''Mapped VRF'' p
      | nas_int_type_LAG \<Rightarrow>
          ''LAG:'' @ if_name p @ '', lag_id:0x'' @ hex_of_nat (unat (lag_id p)) @ '', '' @ vrf_text p @
          l3_text ''Mapped VRF'' p
      | nas_int_type_MACVLAN \<Rightarrow> ''MAC-VLAN:'' @ if_name p @ '', '' @ vrf_text p @ l3_text ''Parent'' p
      | nas_int_type_DOT1D_BRIDGE \<Rightarrow>
          ''dot1D Bidge:'' @ if_name p @ '', bridge_id:0x'' @ hex_of_nat (unat (bridge_id p)) @ '', '' @
          vrf_text p @ l3_text ''Mapped VRF'' p
      | nas_int_type_LPBK \<Rightarrow> ''Loopback:'' @ if_name p @ '', '' @ vrf_text p @ l3_text ''Mapped VRF'' p
      | nas_int_type_MGMT \<Rightarrow>
          ''MGMT:'' @ if_name p @ '', IFIndex:'' @ fmt_d (if_index p) @ '', MAC '' @ mac_addr p @ newline
      | t \<Rightarrow>
          ''Name:'' @ if_name p @ '', IFIndex:'' @ fmt_d (if_index p) @ '', Type:'' @ dec_of_nat (type_number t) @
          '', MAC:'' @ mac_addr p @ '','' @ newline)"

section \<open>The table\<close>

text \<open>The loops, over the entries of a map; following the pointer of a deleted record is a fault.\<close>

fun dump_entries :: "('k \<Rightarrow> string) \<Rightarrow> if_db \<Rightarrow> ('k \<times> addr) list \<Rightarrow> fault + string" where
  "dump_entries head db [] = Inr []"
| "dump_entries head db ((k, a) # es) =
     (case rec_heap db a of None \<Rightarrow> Inl Use_After_Free
      | Some r \<Rightarrow>
        (case dump_entries head db es of Inl f \<Rightarrow> Inl f | Inr s \<Rightarrow> Inr (head k @ print_rec r @ s)))"

definition idx_head :: "u64 \<Rightarrow> string" where
  "idx_head k = ''idx '' @ dec_of_nat (unat k) @ '' ''"

definition name_head :: "string \<Rightarrow> string" where
  "name_head n = ''ifname:'' @ n @ '' ''"

record if_orders =
  key_order :: "(u64 \<rightharpoonup> addr) \<Rightarrow> (u64 \<times> addr) list"
  name_order :: "(string \<rightharpoonup> addr) \<Rightarrow> (string \<times> addr) list"

definition dump_tree :: "if_orders \<Rightarrow> intf_info \<Rightarrow> if_db \<Rightarrow> fault + string" where
  "dump_tree ord t db = dump_entries idx_head db (key_order ord (if_mappings db t))"

definition dump_tree_ifname :: "if_orders \<Rightarrow> if_db \<Rightarrow> fault + string" where
  "dump_tree_ifname ord db = dump_entries name_head db (name_order ord (if_name_map db))"

text \<open>The headings with their dumps, in order.\<close>

fun dump_sections :: "(string \<times> (fault + string)) list \<Rightarrow> fault + string" where
  "dump_sections [] = Inr []"
| "dump_sections ((h, d) # ds) =
     (case d of Inl f \<Rightarrow> Inl f
      | Inr s \<Rightarrow> (case dump_sections ds of Inl f \<Rightarrow> Inl f | Inr s' \<Rightarrow> Inr (h @ newline @ s @ s')))"

definition dn_hal_dump_interface_mapping :: "if_orders \<Rightarrow> if_db \<Rightarrow> fault + string" where
  "dn_hal_dump_interface_mapping ord db = dump_sections
     [(''Dumping NPU/Port mapping...'', dump_tree ord HAL_INTF_INFO_FROM_PORT db),
      (newline @ ''Dumping NPU/Port ifname mapping...'', dump_tree_ifname ord db),
      (newline @ ''Dumping interface index mapping...'', dump_tree ord HAL_INTF_INFO_FROM_IF db),
      (newline @ ''Dumping tap index mapping...'', dump_tree ord HAL_INTF_INFO_FROM_TAP db),
      (newline @ ''Dumping VLAN ID mapping...'', dump_tree ord HAL_INTF_INFO_FROM_VLAN db),
      (newline @ ''Dumping LAG ID mapping...'', dump_tree ord HAL_INTF_INFO_FROM_LAG db),
      (newline @ ''Dumping BRIDGE ID mapping...'', dump_tree ord HAL_INTF_INFO_FROM_BRIDGE_ID db)]"

section \<open>What a dump shows\<close>

text \<open>Every order visits each entry of a map once.\<close>

definition visits_once :: "('k \<rightharpoonup> addr) \<Rightarrow> ('k \<times> addr) list \<Rightarrow> bool" where
  "visits_once m es \<longleftrightarrow> distinct (map fst es) \<and> (\<forall>k a. (k, a) \<in> set es \<longleftrightarrow> m k = Some a)"

definition orders_spec :: "if_orders \<Rightarrow> if_db \<Rightarrow> bool" where
  "orders_spec ord db \<longleftrightarrow> (\<forall>t. visits_once (if_mappings db t) (key_order ord (if_mappings db t))) \<and>
     visits_once (if_name_map db) (name_order ord (if_name_map db))"

lemma dump_entries_live:
  assumes "\<forall>(k, a) \<in> set es. \<exists>r. rec_heap db a = Some r \<and> key r = Some k" "distinct (map fst es)"
  shows "\<exists>rs. dump_entries head db es = Inr (concat (map (\<lambda>r. head (the (key r)) @ print_rec r) rs)) \<and>
    distinct rs \<and> set rs = {r. \<exists>(k, a) \<in> set es. rec_heap db a = Some r} \<and> map key rs = map (Some \<circ> fst) es"
  using assms
proof (induction es)
  case (Cons e es)
  obtain k a where e: "e = (k, a)" by (cases e)
  obtain r where r: "rec_heap db a = Some r" "key r = Some k" using Cons.prems(1) e by auto
  obtain rs where rs: "dump_entries head db es = Inr (concat (map (\<lambda>r. head (the (key r)) @ print_rec r) rs))"
      "distinct rs" "set rs = {r. \<exists>(k, a) \<in> set es. rec_heap db a = Some r}" "map key rs = map (Some \<circ> fst) es"
    using Cons by auto
  have "r \<notin> set rs"
  proof
    assume "r \<in> set rs"
    then have "Some k \<in> set (map key rs)" using r(2) by force
    then have "k \<in> set (map fst es)" unfolding rs(4) by auto
    then show False using Cons.prems(2) e by simp
  qed
  then show ?case using rs r e by (intro exI [of _ "r # rs"]) auto
qed simp

lemma dump_index:
  assumes "table_inv db" "\<And>k. index_of db t (kk k) = m k" "\<And>k l. kk k = kk l \<longleftrightarrow> k = l"
    "visits_once m es" "\<And>r k. rec_key t r = Some k \<Longrightarrow> \<exists>l. k = kk l"
    "key = (\<lambda>r. map_option (inv kk) (rec_key t r))"
  shows "\<exists>rs. dump_entries head db es = Inr (concat (map (\<lambda>r. head (the (key r)) @ print_rec r) rs)) \<and>
    distinct rs \<and> set rs = {r \<in> abs_recs db. rec_key t r \<noteq> None}"
proof -
  have i: "inv kk (kk k) = k" for k using assms(3) by (metis f_inv_into_f rangeI)
  have m: "m k = Some a \<longleftrightarrow> (\<exists>r. rec_heap db a = Some r \<and> rec_key t r = Some (kk k))" for k a
    unfolding assms(2) [symmetric] by (rule table_inv_index [OF assms(1)])
  have "\<forall>(k, a) \<in> set es. \<exists>r. rec_heap db a = Some r \<and> key r = Some k"
    using assms(4) by (auto simp: visits_once_def m assms(6) i)
  moreover have "distinct (map fst es)" using assms(4) by (simp add: visits_once_def)
  moreover have "{r. \<exists>(k, a) \<in> set es. rec_heap db a = Some r} = {r \<in> abs_recs db. rec_key t r \<noteq> None}"
  proof (intro set_eqI iffI)
    fix r assume "r \<in> {r. \<exists>(k, a) \<in> set es. rec_heap db a = Some r}"
    then show "r \<in> {r \<in> abs_recs db. rec_key t r \<noteq> None}"
      using assms(4) by (fastforce simp: visits_once_def m abs_recs_iff)
  next
    fix r assume "r \<in> {r \<in> abs_recs db. rec_key t r \<noteq> None}"
    then obtain a y where y: "rec_heap db a = Some r" "rec_key t r = Some y" by (auto simp: abs_recs_iff)
    then obtain k where a: "rec_heap db a = Some r" "rec_key t r = Some (kk k)" using assms(5) by blast
    then have "(k, a) \<in> set es" using assms(4) by (auto simp: visits_once_def m)
    then show "r \<in> {r. \<exists>(k, a) \<in> set es. rec_heap db a = Some r}" using a(1) by blast
  qed
  ultimately show ?thesis using dump_entries_live [of es db key head] by auto
qed

lemma dump_tree_lists:
  assumes "if_reachable db" "orders_spec ord db" "t \<noteq> HAL_INTF_INFO_FROM_IF_NAME"
  shows "\<exists>rs. dump_tree ord t db = Inr (concat (map (\<lambda>r. idx_head (mk_key t r) @ print_rec r) rs)) \<and>
    distinct rs \<and> set rs = {r \<in> abs_recs db. rec_key t r \<noteq> None}"
proof -
  have t: "table_inv db" using if_reachable_db_inv [OF assms(1)] by (simp add: db_inv_def)
  have k: "rec_key t r = Some k \<Longrightarrow> k = Inr (mk_key t r)" for r k
    using assms(3) by (simp add: rec_key_def split: if_splits)
  have i: "inv Inr (Inr k :: string + u64) = k" for k by (metis f_inv_into_f rangeI sum.inject(2))
  have "\<exists>rs. dump_tree ord t db =
      Inr (concat (map (\<lambda>r. idx_head (the (map_option (inv Inr) (rec_key t r))) @ print_rec r) rs)) \<and>
      distinct rs \<and> set rs = {r \<in> abs_recs db. rec_key t r \<noteq> None}"
    unfolding dump_tree_def
  proof (rule dump_index [OF t _ _ _ _ refl])
    show "visits_once (if_mappings db t) (key_order ord (if_mappings db t))"
      using assms(2) by (simp add: orders_spec_def)
  qed (use assms(3) k in \<open>auto simp: index_of_def\<close>)
  then obtain rs where rs: "dump_tree ord t db =
      Inr (concat (map (\<lambda>r. idx_head (the (map_option (inv Inr) (rec_key t r))) @ print_rec r) rs))"
      "distinct rs" "set rs = {r \<in> abs_recs db. rec_key t r \<noteq> None}" by blast
  have "map (\<lambda>r. idx_head (the (map_option (inv Inr) (rec_key t r))) @ print_rec r) rs =
      map (\<lambda>r. idx_head (mk_key t r) @ print_rec r) rs"
    using rs(3) k i by (intro map_cong) (auto, fastforce)
  from rs(1) [unfolded this] rs(2,3) show ?thesis by blast
qed

lemma dump_tree_ifname_lists:
  assumes "if_reachable db" "orders_spec ord db"
  shows "\<exists>rs. dump_tree_ifname ord db = Inr (concat (map (\<lambda>r. name_head (if_name r) @ print_rec r) rs)) \<and>
    distinct rs \<and> set rs = {r \<in> abs_recs db. if_name r \<noteq> []}"
proof -
  let ?t = HAL_INTF_INFO_FROM_IF_NAME
  have t: "table_inv db" using if_reachable_db_inv [OF assms(1)] by (simp add: db_inv_def)
  have k: "rec_key ?t r = (if if_name r = [] then None else Some (Inl (if_name r)))" for r
    by (simp add: rec_key_def)
  have i: "inv Inl (Inl k :: string + u64) = k" for k by (metis f_inv_into_f rangeI sum.inject(1))
  have "\<exists>rs. dump_tree_ifname ord db =
      Inr (concat (map (\<lambda>r. name_head (the (map_option (inv Inl) (rec_key ?t r))) @ print_rec r) rs)) \<and>
      distinct rs \<and> set rs = {r \<in> abs_recs db. rec_key ?t r \<noteq> None}"
    unfolding dump_tree_ifname_def
  proof (rule dump_index [OF t _ _ _ _ refl])
    show "visits_once (if_name_map db) (name_order ord (if_name_map db))"
      using assms(2) by (simp add: orders_spec_def)
  qed (use k in \<open>auto simp: index_of_def split: if_splits\<close>)
  then obtain rs where rs: "dump_tree_ifname ord db =
      Inr (concat (map (\<lambda>r. name_head (the (map_option (inv Inl) (rec_key ?t r))) @ print_rec r) rs))"
      "distinct rs" "set rs = {r \<in> abs_recs db. rec_key ?t r \<noteq> None}" by blast
  have "map (\<lambda>r. name_head (the (map_option (inv Inl) (rec_key ?t r))) @ print_rec r) rs =
      map (\<lambda>r. name_head (if_name r) @ print_rec r) rs"
    using rs(3) i by (intro map_cong) (auto simp: k split: if_splits)
  note d = rs(1) [unfolded this]
  have "set rs = {r \<in> abs_recs db. if_name r \<noteq> []}" using rs(3) by (auto simp: k)
  with d rs(2) show ?thesis by blast
qed

lemma dump_sections_cases:
  "(\<And>h d. (h, d) \<in> set ds \<Longrightarrow> \<exists>s. d = Inr s) \<Longrightarrow> \<exists>s. dump_sections ds = Inr s"
  by (induction ds) (fastforce split: sum.split)+

lemma dump_no_fault:
  assumes "if_reachable db" "orders_spec ord db"
  shows "\<exists>s. dn_hal_dump_interface_mapping ord db = Inr s"
proof -
  have "\<exists>s. dump_tree ord t db = Inr s" if "t \<noteq> HAL_INTF_INFO_FROM_IF_NAME" for t
    using dump_tree_lists [OF assms that] by blast
  moreover have "\<exists>s. dump_tree_ifname ord db = Inr s" using dump_tree_ifname_lists [OF assms] by blast
  ultimately show ?thesis
    unfolding dn_hal_dump_interface_mapping_def by (intro dump_sections_cases) auto
qed

end
