(* ===== verification/SwAclWalk.thy ===== *)
theory SwAclWalk
  imports SwAclProps
begin

text \<open>
  The walk over the groups of the ACL profile: a client that asks
  \<open>nas_sw_acl_profile_db_get_next\<close> for the group after the one it got last, from \<open>NULL\<close> on. The answer
  is found by the name, so the walk ends exactly when no name occurs twice.
\<close>

text \<open>The fuel is the number of calls; a fault ends the client.\<close>

fun acl_walk ::
  "nat \<Rightarrow> strcopy \<Rightarrow> string option \<Rightarrow> nas_cmn_sw_init_info_t \<Rightarrow> fault + (string \<times> u32) list" where
  "acl_walk 0 cpy name s = Inr []"
| "acl_walk (Suc n) cpy name s =
     (case nas_sw_acl_profile_db_get_next cpy name True s of
        Inl f \<Rightarrow> Inl f
      | Inr (STD_ERR_OK, Some (g, pools)) \<Rightarrow>
          (case acl_walk n cpy (Some g) s of Inl f \<Rightarrow> Inl f | Inr xs \<Rightarrow> Inr ((g, pools) # xs))
      | Inr _ \<Rightarrow> Inr [])"

definition acl_names :: "nas_cmn_sw_init_info_t \<Rightarrow> string list" where
  "acl_names s = map app_group_name (take (acl_count s) (acl_groups s))"

definition acl_entry :: "nas_cmn_sw_init_info_t \<Rightarrow> nat \<Rightarrow> string \<times> u32" where
  "acl_entry s i = (app_group_name (acl_groups s ! i), ucast (current_pool_count (acl_groups s ! i)))"

text \<open>The array is as long as the bound of the loops says, and the copies lose nothing.\<close>

definition acl_walkable :: "strcopy \<Rightarrow> nas_cmn_sw_init_info_t \<Rightarrow> bool" where
  "acl_walkable cpy s \<longleftrightarrow> acl_count s \<le> length (acl_groups s) \<and>
     (\<forall>nm \<in> set (acl_names s). cpy nm NAS_CMN_PROFILE_NAME_SIZE = nm)"

lemma find_upt_first:
  "p < c \<Longrightarrow> Q p \<Longrightarrow> \<exists>i \<le> p. find Q [0..<c] = Some i \<and> Q i \<and> (\<forall>k < i. \<not> Q k)"
proof -
  assume p: "p < c" "Q p"
  then have "find Q [0..<c] \<noteq> None" by (auto simp: find_None_iff)
  then obtain i where i: "find Q [0..<c] = Some i" by blast
  then have "Q i" "\<forall>k < i. \<not> Q k" by (auto simp: find_Some_iff)
  then show ?thesis using i p(2) by (metis not_le)
qed

lemma acl_names_nth: "acl_walkable cpy s \<Longrightarrow> i < acl_count s \<Longrightarrow> acl_names s ! i = app_group_name (acl_groups s ! i)"
  by (simp add: acl_names_def acl_walkable_def)

lemma length_acl_names: "acl_walkable cpy s \<Longrightarrow> length (acl_names s) = acl_count s"
  by (simp add: acl_names_def acl_walkable_def)

text \<open>The position that the answer comes from: behind the first group of the name.\<close>

lemma get_next_from:
  assumes "acl_walkable cpy s" "p < acl_count s"
  shows "\<exists>i \<le> p. acl_names s ! i = acl_names s ! p \<and> (\<forall>k < i. acl_names s ! k \<noteq> acl_names s ! p) \<and>
    nas_sw_acl_profile_db_get_next cpy (Some (acl_names s ! p)) True s =
      (if Suc i < acl_count s then Inr (STD_ERR_OK, Some (acl_entry s (Suc i))) else Inr (PARAM_2, None))"
proof -
  let ?Q = "\<lambda>i. app_group_name (acl_groups s ! i) = acl_names s ! p"
  have len: "acl_count s \<le> length (acl_groups s)" using assms(1) by (simp add: acl_walkable_def)
  obtain i where i: "i \<le> p" "find ?Q [0..<acl_count s] = Some i" "?Q i" "\<forall>k < i. \<not> ?Q k"
    using find_upt_first [OF assms(2), of ?Q] acl_names_nth [OF assms] by auto
  have f: "acl_find (Some (acl_names s ! p)) s = Inr (Some i)"
  proof -
    have "(\<lambda>k. Some (acl_names s ! p) = None \<or> Some (acl_names s ! p) = Some (app_group_name (acl_groups s ! k))) = ?Q"
      by (auto simp: fun_eq_iff)
    then show ?thesis using i(2) len unfolding acl_find_def by (subst acl_search_find) simp_all
  qed
  have "cpy (app_group_name (acl_groups s ! k)) NAS_CMN_PROFILE_NAME_SIZE = app_group_name (acl_groups s ! k)"
    if "k < acl_count s" for k
    using assms(1) that acl_names_nth [OF assms(1) that] length_acl_names [OF assms(1)]
    unfolding acl_walkable_def by (metis nth_mem)
  then have "nas_sw_acl_profile_db_get_next cpy (Some (acl_names s ! p)) True s =
      (if Suc i < acl_count s then Inr (STD_ERR_OK, Some (acl_entry s (Suc i))) else Inr (PARAM_2, None))"
    using f len by (simp add: nas_sw_acl_profile_db_get_next_def acl_entry_def)
  moreover have "acl_names s ! k = app_group_name (acl_groups s ! k)" if "k \<le> i" for k
    using acl_names_nth [OF assms(1), of k] that i(1) assms(2) by simp
  ultimately show ?thesis using i(1,3,4) by (intro exI [of _ i]) simp
qed

lemma get_next_first:
  assumes "acl_walkable cpy s" "0 < acl_count s"
  shows "nas_sw_acl_profile_db_get_next cpy None True s = Inr (STD_ERR_OK, Some (acl_entry s 0))"
proof -
  have len: "acl_count s \<le> length (acl_groups s)" using assms(1) by (simp add: acl_walkable_def)
  have "find (\<lambda>i. True) [0..<acl_count s] = Some 0" using assms(2) by (simp add: upt_rec)
  then have "acl_find None s = Inr (Some 0)"
    unfolding acl_find_def using len by (subst acl_search_find) auto
  moreover have "cpy (acl_names s ! 0) NAS_CMN_PROFILE_NAME_SIZE = acl_names s ! 0"
    using assms length_acl_names [OF assms(1)] unfolding acl_walkable_def by (metis nth_mem)
  ultimately show ?thesis
    using len assms acl_names_nth [OF assms] by (auto simp: nas_sw_acl_profile_db_get_next_def acl_entry_def)
qed

lemma acl_entry_name: "acl_walkable cpy s \<Longrightarrow> i < acl_count s \<Longrightarrow> fst (acl_entry s i) = acl_names s ! i"
  by (simp add: acl_entry_def acl_names_nth)

text \<open>With distinct names the answer comes from the next position.\<close>

lemma walk_distinct:
  assumes "acl_walkable cpy s" "distinct (acl_names s)"
  shows "p < acl_count s \<Longrightarrow> acl_count s - p \<le> n \<Longrightarrow>
    acl_walk n cpy (Some (acl_names s ! p)) s = Inr (map (acl_entry s) [Suc p..<acl_count s])"
proof (induction n arbitrary: p)
  case (Suc n)
  obtain i where i: "i \<le> p" "acl_names s ! i = acl_names s ! p"
    "nas_sw_acl_profile_db_get_next cpy (Some (acl_names s ! p)) True s =
      (if Suc i < acl_count s then Inr (STD_ERR_OK, Some (acl_entry s (Suc i))) else Inr (PARAM_2, None))"
    using get_next_from [OF assms(1) Suc.prems(1)] by blast
  have "i = p"
    using i(1,2) assms(2) Suc.prems(1) length_acl_names [OF assms(1)] by (simp add: nth_eq_iff_index_eq)
  then show ?case
    using i(3) Suc.IH [of "Suc p"] Suc.prems acl_entry_name [OF assms(1), of "Suc p"]
    by (cases "acl_entry s (Suc p)") (auto simp: upt_conv_Cons)
qed simp

text \<open>Up to the first repeated name the walk never gets behind it.\<close>

lemma walk_repeated:
  assumes "acl_walkable cpy s" "j < acl_count s" "i < j" "acl_names s ! i = acl_names s ! j"
    "distinct (take j (acl_names s))"
  shows "p \<le> j \<Longrightarrow> \<exists>xs. acl_walk n cpy (Some (acl_names s ! p)) s = Inr xs \<and> length xs = n"
proof (induction n arbitrary: p)
  case (Suc n)
  have p: "p < acl_count s" using Suc.prems assms(2) by simp
  obtain k where k: "k \<le> p" "acl_names s ! k = acl_names s ! p" "\<forall>l < k. acl_names s ! l \<noteq> acl_names s ! p"
    "nas_sw_acl_profile_db_get_next cpy (Some (acl_names s ! p)) True s =
      (if Suc k < acl_count s then Inr (STD_ERR_OK, Some (acl_entry s (Suc k))) else Inr (PARAM_2, None))"
    using get_next_from [OF assms(1) p] by blast
  have "k < j" using k(1,3) Suc.prems assms(3,4) by (cases "p = j") (auto simp: not_less intro: le_neq_trans)
  then have "Suc k \<le> j" "Suc k < acl_count s" using assms(2) by simp_all
  then show ?case
    using k(4) Suc.IH [of "Suc k"] acl_entry_name [OF assms(1), of "Suc k"]
    by (cases "acl_entry s (Suc k)") auto
qed simp

lemma first_repetition:
  "\<not> distinct xs \<Longrightarrow> \<exists>i j. i < j \<and> j < length xs \<and> xs ! i = xs ! j \<and> distinct (take j xs)"
proof (induction xs rule: rev_induct)
  case (snoc x xs)
  show ?case
  proof (cases "distinct xs")
    case True
    then obtain i where "i < length xs" "xs ! i = x" using snoc.prems by (auto simp: in_set_conv_nth)
    then show ?thesis using True by (intro exI [of _ i] exI [of _ "length xs"]) (simp add: nth_append)
  next
    case False
    then obtain i j where "i < j" "j < length xs" "xs ! i = xs ! j" "distinct (take j xs)" using snoc.IH by blast
    then show ?thesis by (intro exI [of _ i] exI [of _ j]) (simp add: nth_append)
  qed
qed simp

text \<open>C25: The walk over the groups of the ACL profile visits every group once, in the order of the array,
  and ends after the last one, if the names of the groups are distinct; if a name occurs twice, as the
  empty name does when the file has two groups fewer than pools, it never ends.\<close>

theorem acl_walk_ends_iff:
  assumes "acl_walkable cpy s" "0 < acl_count s"
  shows "if distinct (acl_names s)
    then acl_walk (Suc (acl_count s)) cpy None s = Inr (map (acl_entry s) [0..<acl_count s])
    else \<exists>xs. acl_walk n cpy None s = Inr xs \<and> length xs = n"
proof -
  obtain g c where e: "acl_entry s 0 = (g, c)" by force
  then have g: "g = acl_names s ! 0" using acl_entry_name [OF assms] by simp
  have step: "acl_walk (Suc m) cpy None s =
      (case acl_walk m cpy (Some (acl_names s ! 0)) s of Inl f \<Rightarrow> Inl f | Inr xs \<Rightarrow> Inr (acl_entry s 0 # xs))" for m
    using get_next_first [OF assms] e g by (simp split: sum.split)
  show ?thesis
  proof (cases "distinct (acl_names s)")
    case True
    then show ?thesis
      using walk_distinct [OF assms(1) True assms(2), of "acl_count s"] assms(2)
      by (simp add: step upt_conv_Cons del: acl_walk.simps)
  next
    case False
    then obtain i j where "i < j" "j < acl_count s" "acl_names s ! i = acl_names s ! j"
      "distinct (take j (acl_names s))"
      using first_repetition length_acl_names [OF assms(1)] by metis
    then have rep: "\<exists>xs. acl_walk m cpy (Some (acl_names s ! 0)) s = Inr xs \<and> length xs = m" for m
      using walk_repeated [OF assms(1)] by blast
    have "\<exists>xs. acl_walk n cpy None s = Inr xs \<and> length xs = n"
    proof (cases n)
      case (Suc m)
      then show ?thesis using rep [of m] by (auto simp: step simp del: acl_walk.simps(2))
    qed simp
    then show ?thesis using False by simp
  qed
qed

lemma acl_walk_ends_iff_witness:
  "acl_walk 3 trunc_copy None sample_acl = Inr [(''system'', 0), (''user'', 0)] \<and>
   (\<exists>xs. acl_walk 1000 trunc_copy None (sample_acl\<lparr>acl_groups := [empty_group, empty_group]\<rparr>) = Inr xs \<and>
     length xs = 1000)"
proof -
  let ?t = "sample_acl\<lparr>acl_groups := [empty_group, empty_group]\<rparr>"
  have c: "acl_count sample_acl = 2" "acl_count ?t = 2"
    by (simp_all add: acl_count_def sample_acl_def nas_switch_info_init_def)
  have n: "acl_names sample_acl = [''system'', ''user'']" "acl_names ?t = ['''', '''']"
    unfolding acl_names_def c by (simp_all add: sample_acl_def sample_group_def empty_group_def)
  have w: "acl_walkable trunc_copy sample_acl" "acl_walkable trunc_copy ?t"
    unfolding acl_walkable_def c n
    by (simp_all add: sample_acl_def trunc_copy_def NAS_CMN_PROFILE_NAME_SIZE_def)
  have "acl_walk 3 trunc_copy None sample_acl = Inr (map (acl_entry sample_acl) [0..<2])"
    using acl_walk_ends_iff [OF w(1), of 0] unfolding c n by (simp add: numeral_3_eq_3 del: acl_walk.simps)
  moreover have "map (acl_entry sample_acl) [0..<2] = [(''system'', 0), (''user'', 0)]"
    by (simp add: acl_entry_def sample_acl_def sample_group_def empty_group_def upt_rec)
  ultimately show ?thesis
    using acl_walk_ends_iff [OF w(2), of 1000] unfolding c n by (simp del: acl_walk.simps)
qed

end
