(* ===== verification/SwShape.thy ===== *)
theory SwShape
  imports SwitchProps SwRequests SwAclProps
begin

text \<open>
  The type of the profile data: what the members of \<open>nas_cmn_sw_init_info_t\<close> promise to the loops
  over its two arrays and to the readers of its name buffers. The loops are given here as the
  code has them, index by index, with the fault of a read outside the array; in every state that
  keeps the promise they return what the getters of \<open>SwProfileOps\<close> say.
\<close>

section \<open>The promise\<close>

definition name_fits :: "string \<Rightarrow> bool" where
  "name_fits p \<longleftrightarrow> length p < PROFILE_NAME_SIZEOF"

definition uft_entry_ok :: "sw_consts \<Rightarrow> nas_cmn_uft_info_t \<Rightarrow> bool" where
  "uft_entry_ok K e \<longleftrightarrow>
     uft_mode e = 0 \<or> BASE_SWITCH_UFT_MODE_MIN K \<le> uft_mode e \<and> uft_mode e \<le> BASE_SWITCH_UFT_MODE_MAX K"

definition sw_shape :: "sw_consts \<Rightarrow> nas_cmn_sw_init_info_t \<Rightarrow> bool" where
  "sw_shape K s \<longleftrightarrow>
     unat (num_profiles s) \<le> length (profiles s) \<and> unat (num_uft_modes s) \<le> length (uft_info s) \<and>
     list_all name_fits (profiles s) \<and> list_all (uft_entry_ok K) (uft_info s) \<and>
     name_fits (def_profile s) \<and> name_fits (current_profile s) \<and> name_fits (next_boot_profile s)"

section \<open>The loops of the getters\<close>

definition elem_at :: "'a list \<Rightarrow> nat \<Rightarrow> fault + 'a" where
  "elem_at xs i =
     (if i < length xs then Inr (xs ! i) else Inl (if xs = [] then Null_Deref else Out_Of_Bounds))"

text \<open>The first profile that compares equal ends the loop.\<close>

fun supported_loop :: "string \<Rightarrow> string list \<Rightarrow> nat list \<Rightarrow> fault + bool" where
  "supported_loop p ps [] = Inr False"
| "supported_loop p ps (i # is) =
     (case elem_at ps i of
        Inl f \<Rightarrow> Inl f
      | Inr q \<Rightarrow> if p = q then Inr True else supported_loop p ps is)"

fun names_loop :: "string list \<Rightarrow> nat list \<Rightarrow> fault + sw_attr list" where
  "names_loop ps [] = Inr []"
| "names_loop ps (i # is) =
     (case elem_at ps i of
        Inl f \<Rightarrow> Inl f
      | Inr q \<Rightarrow> (case names_loop ps is of Inl f \<Rightarrow> Inl f | Inr as \<Rightarrow> Inr (SUPPORTED_PROFILES q # as)))"

fun uft_loop :: "u32 \<Rightarrow> nas_cmn_uft_info_t list \<Rightarrow> nat list \<Rightarrow> fault + bool" where
  "uft_loop m es [] = Inr False"
| "uft_loop m es (i # is) =
     (case elem_at es i of
        Inl f \<Rightarrow> Inl f
      | Inr e \<Rightarrow> if uft_mode e = m then Inr True else uft_loop m es is)"

text \<open>This one runs to the end and keeps the last entry.\<close>

fun fill_loop ::
  "u32 \<Rightarrow> nas_cmn_uft_info_t list \<Rightarrow> nat list \<Rightarrow> (u32 \<times> u32 \<times> u32) option \<Rightarrow>
   fault + (u32 \<times> u32 \<times> u32) option" where
  "fill_loop m es [] acc = Inr acc"
| "fill_loop m es (i # is) acc =
     (case elem_at es i of
        Inl f \<Rightarrow> Inl f
      | Inr e \<Rightarrow> fill_loop m es is
          (if uft_mode e = m then Some (l2_table_size e, l3_route_table_size e, l3_host_table_size e)
           else acc))"

text \<open>The getters around them.\<close>

definition supported_c :: "string option \<Rightarrow> nas_cmn_sw_init_info_t \<Rightarrow> fault + bool" where
  "supported_c conf_profile s =
     (case conf_profile of
        None \<Rightarrow> Inr False
      | Some p \<Rightarrow>
          (if num_profiles s = 0 then Inr False
           else supported_loop p (profiles s) [0..<unat (num_profiles s)]))"

definition supported_profiles_c :: "nas_cmn_sw_init_info_t \<Rightarrow> fault + (t_std_error \<times> sw_attr list)" where
  "supported_profiles_c s =
     (if num_profiles s = 0 then Inr (PARAM_2, [])
      else (case names_loop (profiles s) [0..<unat (num_profiles s)] of
              Inl f \<Rightarrow> Inl f | Inr as \<Rightarrow> Inr (STD_ERR_OK, as)))"

definition uft_supported_c :: "sw_consts \<Rightarrow> u32 \<Rightarrow> nas_cmn_sw_init_info_t \<Rightarrow> fault + bool" where
  "uft_supported_c K mode s =
     (if num_uft_modes s = 0 then Inr False
      else if mode < BASE_SWITCH_UFT_MODE_MIN K \<or> mode > BASE_SWITCH_UFT_MODE_MAX K then Inr False
      else uft_loop mode (uft_info s) [0..<unat (num_uft_modes s)])"

definition fill_uft_c :: "u32 \<Rightarrow> nas_cmn_sw_init_info_t \<Rightarrow> fault + (u32 \<times> u32 \<times> u32) option" where
  "fill_uft_c mode s = fill_loop mode (uft_info s) [0..<unat (num_uft_modes s)] None"

lemma map_nth_upt: "n \<le> length xs \<Longrightarrow> map ((!) xs) [0..<n] = take n xs"
  by (rule nth_equalityI) simp_all

lemma supported_loop_in:
  "\<forall>i \<in> set is. i < length ps \<Longrightarrow> supported_loop p ps is = Inr (p \<in> set (map ((!) ps) is))"
  by (induction "is") (auto simp: elem_at_def)

lemma names_loop_in:
  "\<forall>i \<in> set is. i < length ps \<Longrightarrow> names_loop ps is = Inr (map SUPPORTED_PROFILES (map ((!) ps) is))"
  by (induction "is") (auto simp: elem_at_def)

lemma uft_loop_in:
  "\<forall>i \<in> set is. i < length es \<Longrightarrow> uft_loop m es is = Inr (\<exists>e \<in> set (map ((!) es) is). uft_mode e = m)"
  by (induction "is") (auto simp: elem_at_def)

lemma fill_loop_in:
  "\<forall>i \<in> set is. i < length es \<Longrightarrow> fill_loop m es is acc =
     Inr (fold (\<lambda>e acc. if uft_mode e = m
            then Some (l2_table_size e, l3_route_table_size e, l3_host_table_size e) else acc)
          (map ((!) es) is) acc)"
  by (induction "is" arbitrary: acc) (auto simp: elem_at_def)

section \<open>What keeps the promise\<close>

text \<open>The members it is about; an operation that leaves them alone keeps it.\<close>

definition shape_part ::
  "nas_cmn_sw_init_info_t \<Rightarrow>
   u8 \<times> string list \<times> u8 \<times> nas_cmn_uft_info_t list \<times> string \<times> string \<times> string" where
  "shape_part s = (num_profiles s, profiles s, num_uft_modes s, uft_info s,
     def_profile s, current_profile s, next_boot_profile s)"

lemma shape_part_shape: "shape_part t = shape_part s \<Longrightarrow> sw_shape K t = sw_shape K s"
  by (simp add: shape_part_def sw_shape_def)

lemma unat_of_nat_u8_le: "unat (of_nat n :: u8) \<le> n"
  by (simp add: unat_of_nat)

lemma name_fits_nil [simp]: "name_fits []"
  by (simp add: name_fits_def PROFILE_NAME_SIZEOF_def)

lemma name_fits_copy: "safestrncpy_spec cpy \<Longrightarrow> name_fits (cpy p PROFILE_NAME_SIZEOF)"
  by (simp add: name_fits_def PROFILE_NAME_SIZEOF_def safestrncpy_length)

lemma name_fits_attr:
  assumes "safestrncpy_spec cpy" "name_fits p"
  shows "name_fits (nas_std_cfg_str_attr_update api cpy node attr p)"
proof -
  have "length (cpy v NAS_CMN_PROFILE_NAME_SIZE) < NAS_CMN_PROFILE_NAME_SIZE" for v
    by (rule safestrncpy_length [OF assms(1)]) (simp add: NAS_CMN_PROFILE_NAME_SIZE_def)
  then show ?thesis
    using assms(2) by (auto simp: nas_std_cfg_str_attr_update_def name_fits_def PROFILE_NAME_SIZEOF_def
        less_SucI split: option.split)
qed

lemma uft_entry_shape: "uft_entry_ok K (uft_entry api K c)"
  by (auto simp: uft_entry_ok_def uft_entry_def Let_def)

lemma shape_init: "sw_shape K nas_switch_info_init"
  by (simp add: sw_shape_def nas_switch_info_init_def)

lemma shape_profile_info:
  assumes "safestrncpy_spec cpy" "sw_shape K s"
  shows "sw_shape K (snd (nas_switch_update_profile_info api cpy True node s))"
  using assms name_fits_attr [OF assms(1), of _ api]
  by (simp add: nas_switch_update_profile_info_def sw_shape_def Let_def list_all_iff name_fits_copy
      unat_of_nat_u8_le)

lemma shape_uft_info:
  "sw_shape K s \<Longrightarrow> sw_shape K (snd (nas_switch_update_uft_info api K True node s))"
  by (simp add: nas_switch_update_uft_info_def sw_shape_def Let_def list_all_iff uft_entry_shape
      unat_of_nat_u8_le)

named_theorems shape_frame "operations that leave the members of the shape alone"

lemma shape_readers [shape_frame]:
  "shape_part (snd (nas_switch_update_npu_profile_info api node s)) = shape_part s"
  "shape_part (snd (nas_switch_update_ecmp_info api node s)) = shape_part s"
  "shape_part (snd (nas_switch_update_ipv6_extended_prefix_info api node s)) = shape_part s"
  "shape_part (snd (nas_switch_update_vxlan_riot_info api node s)) = shape_part s"
  "shape_part (snd (nas_switch_update_l3_table_size_info api node s)) = shape_part s"
  by (simp_all add: shape_part_def nas_switch_update_npu_profile_info_def nas_switch_update_ecmp_info_def
      nas_switch_update_ipv6_extended_prefix_info_def nas_switch_update_vxlan_riot_info_def
      nas_switch_update_l3_table_size_info_def Let_def)

lemma shape_deep_buffer [shape_frame]:
  "nas_switch_update_deep_buffer_mode_info api node s = Inr (rc, t) \<Longrightarrow> shape_part t = shape_part s"
  by (auto simp: nas_switch_update_deep_buffer_mode_info_def shape_part_def Let_def
      split: option.splits if_splits)

lemma shape_put_groups [shape_frame]: "shape_part (s\<lparr>acl_groups := gs\<rparr>) = shape_part s"
  by (simp add: shape_part_def)


subsection \<open>The reader of the ACL profile and its operations\<close>

lemma shape_acl_pool: "shape_part (snd (snd (snd (acl_pool_step api cpy c p)))) = shape_part (snd (snd (snd p)))"
  by (cases p) (simp add: acl_pool_step_def shape_part_def Let_def)

lemma shape_acl_pools:
  "shape_part (snd (snd (snd (fold (acl_pool_step api cpy) cs p)))) = shape_part (snd (snd (snd p)))"
  by (induction cs arbitrary: p) (simp_all add: shape_acl_pool)

lemma shape_acl_group:
  "acl_group_step api cpy mem stg g (d, p, i, s) = Inr (rc, d', p', i', t) \<Longrightarrow> shape_part t = shape_part s"
  by (auto simp: acl_group_step_def Let_def shape_frame split: if_splits)

lemma shape_acl_groups:
  "acl_groups_loop api cpy mem stg gs (d, p, i, s) = Inr (rc, d', p', i', t) \<Longrightarrow> shape_part t = shape_part s"
proof (induction gs arbitrary: d p i s)
  case (Cons g gs)
  then obtain rc1 d1 p1 i1 s1 where
    step: "acl_group_step api cpy mem stg g (d, p, i, s) = Inr (rc1, d1, p1, i1, s1)"
    by (auto split: sum.splits prod.splits)
  then show ?case
    using Cons.prems Cons.IH [of d1 p1 i1 s1] shape_acl_group [OF step] by (auto split: if_splits)
qed simp

lemma shape_acl_stages:
  "acl_stages_loop api cpy mem K cs stage stg (d, p, i, s) = Inr (rc, d', p', i', t) \<Longrightarrow>
     shape_part t = shape_part s"
proof (induction cs arbitrary: stage stg d p i s)
  case (Cons c cs)
  show ?case
    using Cons.prems Cons.IH
    by (fastforce simp: Let_def dest: shape_acl_groups split: sum.splits prod.splits if_splits)
qed simp

lemma shape_acl_reader [shape_frame]:
  assumes "nas_switch_update_acl_profile_info api cpy K ok mem node s = Inr (rc, t)"
  shows "shape_part t = shape_part s"
proof -
  let ?cs = "config_children api node"
  obtain stage mx n s1 where pools: "fold (acl_pool_step api cpy) ?cs ([], 0, 0, s) = (stage, mx, n, s1)"
    using prod_cases4 by blast
  have s1: "shape_part s1 = shape_part s"
    using shape_acl_pools [of api cpy ?cs "([], 0, 0, s)"] pools by simp
  have valid: "shape_part (u\<lparr>acl_profile_valid := b\<rparr>) = shape_part u"
    "shape_part (u\<lparr>acl_groups := gs, acl_profile_max_ingress_pool_count := x,
       acl_profile_max_egress_pool_count := y\<rparr>) = shape_part u" for u b gs x y
    by (simp_all add: shape_part_def)
  show ?thesis
    using assms s1
    by (auto simp: nas_switch_update_acl_profile_info_def Let_def pools valid shape_frame
        dest!: shape_acl_stages split: if_splits sum.splits prod.splits)
qed

lemma shape_acl_cache:
  "nas_switch_acl_profile_update_cache name c b s = Inr (rc, t) \<Longrightarrow> shape_part t = shape_part s"
  by (auto simp: nas_switch_acl_profile_update_cache_def Let_def shape_frame
      split: if_splits sum.splits option.splits)

lemma shape_acl_set [shape_frame]:
  "nas_sw_acl_profile_app_group_info_set K name c opr s = Inr (rc, t) \<Longrightarrow> shape_part t = shape_part s"
  by (auto simp: nas_sw_acl_profile_app_group_info_set_def shape_frame
      nas_switch_acl_profile_reset_cache_to_default_def Let_def dest: shape_acl_cache
      split: if_splits sum.splits option.splits bool.splits)

lemma shape_acl_db_obj: "acl_db_obj ob s = Inr t \<Longrightarrow> shape_part t = shape_part s"
  by (auto simp: acl_db_obj_def acl_db_unterminated_def dest: shape_acl_cache
      split: if_splits sum.splits option.splits prod.splits)

lemma shape_acl_db_objs: "acl_db_objs obs s = Inr t \<Longrightarrow> shape_part t = shape_part s"
  by (induction obs arbitrary: s) (auto dest: shape_acl_db_obj split: sum.splits)

lemma shape_acl_start [shape_frame]:
  "nas_sw_acl_profile_parse_db_and_update cm db sw s = Inr (rc, t, obs) \<Longrightarrow> shape_part t = shape_part s"
  by (auto simp: nas_sw_acl_profile_parse_db_and_update_def dest: shape_acl_db_objs
      split: if_splits sum.splits prod.splits)

subsection \<open>Start and requests\<close>

lemma shape_db_attr:
  "safestrncpy_spec cpy \<Longrightarrow> sw_shape K (snd p) \<Longrightarrow> sw_shape K (snd (db_attr cpy a p))"
  by (cases a; cases p) (simp_all add: sw_shape_def name_fits_copy)

lemma shape_db_attrs:
  "safestrncpy_spec cpy \<Longrightarrow> sw_shape K (snd p) \<Longrightarrow> sw_shape K (snd (fold (db_attr cpy) as p))"
  by (induction as arbitrary: p) (simp_all add: shape_db_attr)

lemma shape_db_update:
  assumes "safestrncpy_spec cpy" "sw_shape K s"
  shows "sw_shape K (sw_db_update cpy db s)"
proof -
  let ?s0 = "s\<lparr>current_profile := [], next_boot_profile := []\<rparr>"
  let ?objs = "case db of None \<Rightarrow> [] | Some os \<Rightarrow> os"
  obtain f u where u: "db_parse cpy ?objs ?s0 = (f, u)" by fastforce
  have "sw_shape K ?s0" using assms(2) by (simp add: sw_shape_def)
  then have "sw_shape K u"
    using shape_db_attrs [OF assms(1), of K "(none_found, ?s0)" "concat ?objs"] u
    by (simp add: db_parse_def fold_fold_concat)
  then have "sw_shape K (db_defaults cpy (f, u))"
    using assms(1) by (simp add: db_defaults_def Let_def sw_shape_def name_fits_copy)
  then show ?thesis
    using assms(1) u by (simp add: sw_db_update_def Let_def db_current_def sw_shape_def name_fits_copy)
qed

lemma shape_start:
  assumes "safestrncpy_spec cpy" "sw_shape K s"
    and "nas_sw_parse_db_and_update cpy ob_ok cm acm db acl_db sw s = Inr (rc, t, obs, acl_obs)"
  shows "sw_shape K t"
proof -
  have "shape_part t = shape_part (sw_db_update cpy db s)"
    using assms(3) by (auto simp: nas_sw_parse_db_and_update_def Let_def dest: shape_acl_start
        split: if_splits sum.splits prod.splits)
  then show ?thesis using shape_db_update [OF assms(1,2)] shape_part_shape by blast
qed

lemma shape_request:
  assumes "safestrncpy_spec cpy" "sw_shape K s" "conf_step K cpy r s = Inr t"
  shows "sw_shape K t"
proof (cases r)
  case (Set_profile p opr)
  then show ?thesis using assms
    by (auto simp: conf_step_def nas_sw_profile_conf_profile_set_def sw_shape_def name_fits_copy)
next
  case (Set_ipv6 v opr)
  then show ?thesis
    using assms(2,3) conf_step_ipv6 [of K cpy v opr s t] by (simp add: ipv6_set_eq sw_shape_def)
qed (use assms in \<open>auto simp: conf_step_def setter_defs sw_shape_def\<close>)


section \<open>The node handler\<close>

text \<open>The profiles and the UFT entries of every node can be allocated.\<close>

definition arrays_allocated :: "('n, 'x) sw_env_scheme \<Rightarrow> bool" where
  "arrays_allocated E \<longleftrightarrow> (\<forall>n. alloc E n 1 \<and> alloc E n 2)"

lemma shape_upd_info:
  "sw_shape K (snd (f (sw_info s))) \<Longrightarrow> sw_shape K (sw_info (upd_info f s))"
  by (simp add: upd_info_def)

lemma shape_upd_frame:
  "shape_part (snd (f (sw_info s))) = shape_part (sw_info s) \<Longrightarrow>
     sw_shape K (sw_info (upd_info f s)) = sw_shape K (sw_info s)"
  by (rule shape_part_shape) (simp add: upd_info_def)

lemma shape_upd_fault:
  assumes "upd_info_fault f s = Inr t" "\<And>rc i. f (sw_info s) = Inr (rc, i) \<Longrightarrow> shape_part i = shape_part (sw_info s)"
  shows "sw_shape K (sw_info t) = sw_shape K (sw_info s)"
  by (rule shape_part_shape) (use assms in \<open>auto simp: upd_info_fault_def split: sum.splits\<close>)

lemma hash_info: "sw_info (snd (nas_switch_resilient_hash_handler l u v s)) = sw_info s"
  by (simp add: nas_switch_resilient_hash_handler_def Let_def)

lemma topology_info: "topology_part E name node s = (r, t) \<Longrightarrow> sw_info t = sw_info s"
  by (auto simp: topology_part_def Let_def split: if_splits option.splits prod.splits)

lemma switch_part_info: "switch_part E name node s = Inr (r, t) \<Longrightarrow> sw_info t = sw_info s"
  by (auto simp: switch_part_def Let_def split: if_splits option.splits prod.splits)

lemma feature_info: "feature_part E name node s = (r, t) \<Longrightarrow> sw_info t = sw_info s"
  by (auto simp: feature_part_def split: if_splits option.splits)

text \<open>The parts in a row: each keeps the shape, so the row does.\<close>

lemma shape_let:
  "sw_shape K (sw_info v) \<Longrightarrow>
     (\<And>x. sw_shape K (sw_info x) \<Longrightarrow> sw_shape K (sw_info (f x))) \<Longrightarrow> sw_shape K (sw_info (Let v f))"
  by (simp add: Let_def)

lemma shape_if:
  "(b \<Longrightarrow> sw_shape K (sw_info x)) \<Longrightarrow> (\<not> b \<Longrightarrow> sw_shape K (sw_info y)) \<Longrightarrow>
     sw_shape K (sw_info (if b then x else y))"
  by simp

lemma shape_simple_parts:
  assumes "safestrncpy_spec (scpy E)" "arrays_allocated E" "sw_shape (hdr E) (sw_info s)"
  shows "sw_shape (hdr E) (sw_info (simple_parts E name node s))"
proof -
  have ok: "alloc E node 1 = True" "alloc E node 2 = True" using assms(2) by (simp_all add: arrays_allocated_def)
  have p: "sw_shape (hdr E) (sw_info s) \<Longrightarrow> sw_shape (hdr E)
      (sw_info (upd_info (nas_switch_update_profile_info (cfg E) (scpy E) True node) s))" for s
    by (intro shape_upd_info shape_profile_info assms(1))
  have u: "sw_shape (hdr E) (sw_info s) \<Longrightarrow> sw_shape (hdr E)
      (sw_info (upd_info (nas_switch_update_uft_info (cfg E) (hdr E) True node) s))" for s
    by (intro shape_upd_info shape_uft_info)
  show ?thesis
    unfolding simple_parts_def ok Let_def [of "cfg E"]
    by (intro shape_let shape_if p u)
      (simp_all add: assms(3) hash_info shape_upd_frame shape_frame split: option.split)
qed

lemma shape_last_parts:
  "sw_shape K (sw_info (last_parts E name node s)) = sw_shape K (sw_info s)"
  by (simp add: last_parts_def Let_def shape_upd_frame shape_frame)

lemma shape_acl_part:
  assumes "(if b then upd_info_fault (nas_switch_update_acl_profile_info api cpy H ok mem node) s else Inr s) = Inr t"
  shows "sw_shape K (sw_info t) = sw_shape K (sw_info s)"
proof (cases b)
  case True
  with assms have "upd_info_fault (nas_switch_update_acl_profile_info api cpy H ok mem node) s = Inr t" by simp
  then show ?thesis by (rule shape_upd_fault) (rule shape_acl_reader)
qed (use assms in simp)

lemma shape_dbm_part:
  assumes "(if b then upd_info_fault (nas_switch_update_deep_buffer_mode_info api node) s else Inr s) = Inr t"
  shows "sw_shape K (sw_info t) = sw_shape K (sw_info s)"
proof (cases b)
  case True
  with assms have "upd_info_fault (nas_switch_update_deep_buffer_mode_info api node) s = Inr t" by simp
  then show ?thesis by (rule shape_upd_fault) (rule shape_deep_buffer)
qed (use assms in simp)

lemma shape_handler:
  assumes "safestrncpy_spec (scpy E)" "arrays_allocated E" "sw_shape (hdr E) (sw_info s)"
    and "fn_switch_parser E node s = Inr t"
  shows "sw_shape (hdr E) (sw_info t)"
proof -
  let ?name = "config_name (cfg E) node"
  obtain r1 s1 where 1: "topology_part E ?name node s = (r1, s1)" by fastforce
  show ?thesis
  proof (cases "failed s \<or> r1")
    case True
    then show ?thesis using assms(3,4) 1 topology_info [OF 1]
      by (auto simp: fn_switch_parser_def Let_def split: if_splits)
  next
    case False
    then obtain r2 s2 where 2: "switch_part E ?name node s1 = Inr (r2, s2)"
      using assms(4) 1 by (auto simp: fn_switch_parser_def Let_def split: sum.splits)
    obtain r3 s3 where 3: "feature_part E ?name node s2 = (r3, s3)" by fastforce
    have info: "sw_info s3 = sw_info s" "sw_info s2 = sw_info s"
      using topology_info [OF 1] switch_part_info [OF 2] feature_info [OF 3] by simp_all
    show ?thesis
    proof (cases "r2 \<or> r3")
      case True
      then show ?thesis using assms(3,4) False 1 2 3 info
        by (cases r2; cases r3) (auto simp: fn_switch_parser_def)
    next
      case no: False
      let ?s4 = "simple_parts E ?name node s3"
      have s4: "sw_shape (hdr E) (sw_info ?s4)" using assms(1-3) info by (simp add: shape_simple_parts)
      obtain s5 where 5: "(if name_is ?name ''switch_acl_profile''
            then upd_info_fault (nas_switch_update_acl_profile_info (cfg E) (scpy E) (hdr E)
              (alloc E node 3) (\<lambda>i. alloc E node (i + 4)) node) ?s4 else Inr ?s4) = Inr s5"
          and 6: "(if name_is ?name ''deep_buffer_mode''
            then upd_info_fault (nas_switch_update_deep_buffer_mode_info (cfg E) node) (last_parts E ?name node s5)
            else Inr (last_parts E ?name node s5)) = Inr t"
        using assms(4) False no 1 2 3
        by (simp add: fn_switch_parser_def Let_def split: sum.split_asm)
      show ?thesis
        using s4 shape_acl_part [OF 5] shape_dbm_part [OF 6] by (simp add: shape_last_parts)
    qed
  qed
qed


section \<open>The process\<close>

lemma shape_parse_nodes:
  "safestrncpy_spec (scpy E) \<Longrightarrow> arrays_allocated E \<Longrightarrow> sw_shape (hdr E) (sw_info s) \<Longrightarrow>
     parse_nodes E cs s = Inr t \<Longrightarrow> sw_shape (hdr E) (sw_info t)"
  by (induction cs arbitrary: s) (auto dest: shape_handler split: sum.splits)

lemma shape_switch_init:
  assumes "safestrncpy_spec (scpy E)" "arrays_allocated E" "sw_shape (hdr E) (sw_info s)"
    and "nas_switch_init E s = Inr (rc, t)"
  shows "sw_shape (hdr E) (sw_info t)"
proof -
  let ?path = "case cfg_path_var E of None \<Rightarrow> NAS_SWITCH_CFG_DEFAULT_PATH | Some p \<Rightarrow> p"
  show ?thesis
  proof (cases "std_config_load E ?path")
    case None
    then show ?thesis using assms(3,4) by (simp add: nas_switch_init_def)
  next
    case (Some root)
    then obtain s1 where 1: "(case root of None \<Rightarrow> Inr s | Some nodes \<Rightarrow> parse_nodes E nodes s) = Inr s1"
      using assms(4) by (simp add: nas_switch_init_def Let_def split: sum.split_asm)
    then have s1: "sw_shape (hdr E) (sw_info s1)"
      using assms(3) shape_parse_nodes [OF assms(1-3)] by (simp split: option.split_asm)
    obtain rc2 i obs acl_obs where 2: "nas_sw_parse_db_and_update (scpy E) (obj_ok E) (commit E) (acl_commit E)
        (startup_db E) (acl_startup_db E) 0 (sw_info s1) = Inr (rc2, i, obs, acl_obs)"
      using assms(4) Some 1 by (auto simp: nas_switch_init_def Let_def split: sum.splits)
    have "sw_info t = i" using assms(4) Some 1 2 by (auto simp: nas_switch_init_def Let_def split: if_splits)
    then show ?thesis using shape_start [OF assms(1) s1 2] by simp
  qed
qed

text \<open>
  What happens to the data: initialisations, the requests of the clients, and starts from the
  data base by themselves.
\<close>

inductive sw_running :: "sw_consts \<Rightarrow> strcopy \<Rightarrow> switch_state \<Rightarrow> bool"
  for K :: sw_consts and cpy :: strcopy where
  start: "sw_running K cpy switch_state_init"
| init: "sw_running K cpy s \<Longrightarrow> hdr E = K \<Longrightarrow> scpy E = cpy \<Longrightarrow> arrays_allocated E \<Longrightarrow>
    nas_switch_init (E :: int init_env) s = Inr (rc, t) \<Longrightarrow> sw_running K cpy t"
| request: "sw_running K cpy s \<Longrightarrow> conf_step K cpy r (sw_info s) = Inr i \<Longrightarrow>
    sw_running K cpy (s\<lparr>sw_info := i\<rparr>)"
| acl_request: "sw_running K cpy s \<Longrightarrow>
    nas_sw_acl_profile_app_group_info_set K name c opr (sw_info s) = Inr (rc, i) \<Longrightarrow>
    sw_running K cpy (s\<lparr>sw_info := i\<rparr>)"
| reload: "sw_running K cpy s \<Longrightarrow>
    nas_sw_parse_db_and_update cpy ok cm acm db acl_db sw (sw_info s) = Inr (rc, i, obs, acl_obs) \<Longrightarrow>
    sw_running K cpy (s\<lparr>sw_info := i\<rparr>)"

lemma sw_running_shape:
  assumes "safestrncpy_spec cpy" "sw_running K cpy s"
  shows "sw_shape K (sw_info s)"
  using assms(2)
proof (induction rule: sw_running.induct)
  case start
  then show ?case by (simp add: switch_state_init_def shape_init)
next
  case (init s E rc t)
  then show ?case using shape_switch_init [of E s rc t] assms(1) by simp
next
  case (request s r i)
  then show ?case using shape_request [OF assms(1)] by simp
next
  case (acl_request s name c opr rc i)
  then show ?case using shape_part_shape [OF shape_acl_set] by simp
next
  case (reload s ok cm acm db acl_db sw rc i obs acl_obs)
  then show ?case using shape_start [OF assms(1)] by simp
qed

lemma shape_loops:
  assumes "sw_shape K s"
  shows "supported_c p s = Inr (nas_sw_profile_supported p s)"
    "supported_profiles_c s = Inr (nas_sw_profile_supported_profiles_get s)"
    "uft_supported_c K m s = Inr (nas_sw_uft_mode_supported K m s)"
    "fill_uft_c m s = Inr (nas_sw_fill_uft_info m s)"
proof -
  have n: "unat (num_profiles s) \<le> length (profiles s)" "unat (num_uft_modes s) \<le> length (uft_info s)"
    using assms by (simp_all add: sw_shape_def)
  then have i: "\<forall>i \<in> set [0..<unat (num_profiles s)]. i < length (profiles s)"
    "\<forall>i \<in> set [0..<unat (num_uft_modes s)]. i < length (uft_info s)" by auto
  show "supported_c p s = Inr (nas_sw_profile_supported p s)"
    by (simp add: supported_c_def nas_sw_profile_supported_def supported_loop_in [OF i(1)]
        map_nth_upt [OF n(1)] del: set_map split: option.split)
  show "supported_profiles_c s = Inr (nas_sw_profile_supported_profiles_get s)"
    by (simp add: supported_profiles_c_def nas_sw_profile_supported_profiles_get_def names_loop_in [OF i(1)]
        map_nth_upt [OF n(1)] del: map_map)
  show "uft_supported_c K m s = Inr (nas_sw_uft_mode_supported K m s)"
    by (simp only: uft_supported_c_def nas_sw_uft_mode_supported_def uft_loop_in [OF i(2)]
        map_nth_upt [OF n(2)] if_distrib [of Inr])
  show "fill_uft_c m s = Inr (nas_sw_fill_uft_info m s)"
    by (simp only: fill_uft_c_def nas_sw_fill_uft_info_def fill_loop_in [OF i(2)] map_nth_upt [OF n(2)])
qed

text \<open>C9: As long as the arrays of \<open>switch.xml\<close> can be allocated, the profile data keep their type
  through initialisations, requests and starts from the data base: the two counts do not exceed
  their arrays, every name fits its buffer, and every UFT entry has the mode 0 or one of the
  range. So the loops over the arrays never read outside them and return what the getters say.\<close>

theorem profile_data_well_formed:
  assumes "safestrncpy_spec cpy" "sw_running K cpy s"
  shows "sw_shape K (sw_info s) \<and>
    supported_c p (sw_info s) = Inr (nas_sw_profile_supported p (sw_info s)) \<and>
    supported_profiles_c (sw_info s) = Inr (nas_sw_profile_supported_profiles_get (sw_info s)) \<and>
    uft_supported_c K m (sw_info s) = Inr (nas_sw_uft_mode_supported K m (sw_info s)) \<and>
    fill_uft_c m (sw_info s) = Inr (nas_sw_fill_uft_info m (sw_info s))"
  using sw_running_shape [OF assms] shape_loops [OF sw_running_shape [OF assms]] by blast

section \<open>A file with two profile nodes\<close>

text \<open>Nodes 0 and 3 are profile nodes; 1, 2 and 4 are their children.\<close>

definition two_profiles_api :: "int config_api" where
  "two_profiles_api = \<lparr>config_name = (\<lambda>_. ''switch_profile''),
     config_attr = (\<lambda>n a.
       if a = ''default_profile'' then (if n = 0 \<or> n = 3 then Some ''unified'' else None)
       else if a = ''supported_profile''
       then (if n = 1 \<or> n = 4 then Some ''unified'' else if n = 2 then Some ''unified-50G'' else None)
       else if a = ''fc_enabled'' then Some ''1'' else None),
     config_children = (\<lambda>n. if n = 0 then [1, 2] else if n = 3 then [4] else [])\<rparr>"

definition two_profiles_env :: "(int \<Rightarrow> nat \<Rightarrow> bool) \<Rightarrow> int init_env" where
  "two_profiles_env mem = (sample_env mem [0, 3])\<lparr>cfg := two_profiles_api\<rparr>"

definition two_profiles :: "(int \<Rightarrow> nat \<Rightarrow> bool) \<Rightarrow> switch_state" where
  "two_profiles mem = snd (projr (nas_switch_init (two_profiles_env mem) switch_state_init))"

lemma two_profiles_init:
  "nas_switch_init (two_profiles_env (\<lambda>n k. True)) switch_state_init =
     Inr (STD_ERR_OK, two_profiles (\<lambda>n k. True))"
  unfolding two_profiles_def by code_simp

lemma two_profiles_running:
  "sw_running (hdr (two_profiles_env (\<lambda>n k. True))) trunc_copy (two_profiles (\<lambda>n k. True))"
  by (rule sw_running.init [OF sw_running.start _ _ _ two_profiles_init])
    (simp_all add: two_profiles_env_def sample_env_def arrays_allocated_def)

theorem profile_data_well_formed_witness:
  "sw_shape (hdr (two_profiles_env (\<lambda>n k. True))) (sw_info (two_profiles (\<lambda>n k. True))) \<and>
   num_profiles (sw_info (two_profiles (\<lambda>n k. True))) = 1 \<and>
   supported_c (Some ''unified'') (sw_info (two_profiles (\<lambda>n k. True))) = Inr True"
proof -
  have "num_profiles (sw_info (two_profiles (\<lambda>n k. True))) = 1"
    "nas_sw_profile_supported (Some ''unified'') (sw_info (two_profiles (\<lambda>n k. True))) = True"
    by code_simp+
  then show ?thesis
    using profile_data_well_formed [OF trunc_copy_spec two_profiles_running, of "Some ''unified''"] by simp
qed

text \<open>
  When the array of the second node cannot be allocated the reader returns with the pointer
  \<open>NULL\<close> and the count of the first node: the next lookup of a profile follows the pointer. The
  reader of the ACL profile clears its counts in the same case.
\<close>

lemma profiles_lost_on_failed_allocation:
  "num_profiles (sw_info (two_profiles (\<lambda>n k. n \<noteq> 3 \<or> k \<noteq> 1))) = 2"
  "supported_c (Some ''unified'') (sw_info (two_profiles (\<lambda>n k. n \<noteq> 3 \<or> k \<noteq> 1))) = Inl Null_Deref"
  by code_simp+

end
