(* ===== verification/SwitchTest.thy ===== *)
theory SwitchTest
  imports SwShape SwBootProps
begin

text \<open>
  The test program of the switch profile (\<open>src/src/unit_test/nas_switch_unittest.cpp\<close>): the calls of
  its \<open>main\<close> in their order, with the text it prints. It asserts nothing; what can go wrong is a
  fault of the library or the \<open>exit (1)\<close> of the first loop.
\<close>

section \<open>The inventory\<close>

definition crlf :: string where
  "crlf = [CHR 0x0D, CHR 0x0A]"

text \<open>The NPUs of a detail, read one by one.\<close>

fun print_npus :: "nas_switch_detail_t \<Rightarrow> nat list \<Rightarrow> fault + string" where
  "print_npus d [] = Inr []"
| "print_npus d (k # ks) =
     (case npus d of
        None \<Rightarrow> Inl Null_Deref
      | Some l \<Rightarrow>
          (case elem_at l k of
             Inl f \<Rightarrow> Inl f
           | Inr n \<Rightarrow>
               (case print_npus d ks of
                  Inl f \<Rightarrow> Inl f
                | Inr t \<Rightarrow> Inr (''NPU '' @ fmt_d n @ newline @ t))))"

text \<open>The switches; the flag says that the program has called \<open>exit (1)\<close>.\<close>

fun print_switches :: "switch_state \<Rightarrow> nat list \<Rightarrow> fault + (bool \<times> string)" where
  "print_switches s [] = Inr (False, [])"
| "print_switches s (ix # ixs) =
     (case switch_list s of
        None \<Rightarrow> Inl Null_Deref
      | Some l \<Rightarrow>
          (case elem_at l ix of
             Inl f \<Rightarrow> Inl f
           | Inr swid \<Rightarrow>
               (let line = ''Switch id '' @ fmt_d swid @ newline in
                case nas_switch (of_nat ix) s of
                  None \<Rightarrow> Inr (True, line)
                | Some i \<Rightarrow>
                    (case detail_at s i of
                       Inl f \<Rightarrow> Inl f
                     | Inr d \<Rightarrow>
                         (case print_npus d [0..<number_of_npus d] of
                            Inl f \<Rightarrow> Inl f
                          | Inr t \<Rightarrow>
                              (case print_switches s ixs of
                                 Inl f \<Rightarrow> Inl f
                               | Inr (ex, u) \<Rightarrow> Inr (ex, line @ t @ u)))))))"

fun print_found :: "switch_state \<Rightarrow> nat list \<Rightarrow> fault + string" where
  "print_found s [] = Inr []"
| "print_found s (k # ks) =
     (case nas_find_switch_id_by_npu (of_nat k) s of
        Inl f \<Rightarrow> Inl f
      | Inr r \<Rightarrow>
          (case print_found s ks of
             Inl f \<Rightarrow> Inl f
           | Inr t \<Rightarrow>
               Inr (''NPU_id '' @ fmt_d (of_nat k) @
                    (case r of
                       Some i \<Rightarrow> '' is found on switch '' @ fmt_d (of_nat i)
                     | None \<Rightarrow> '' is not found on any switch'') @ newline @ t)))"

section \<open>The profile\<close>

text \<open>A line that is printed when a getter or a setter has returned success.\<close>

definition print_text :: "string \<Rightarrow> t_std_error \<times> string option \<Rightarrow> string" where
  "print_text label r = (case r of (STD_ERR_OK, Some p) \<Rightarrow> label @ p @ newline | _ \<Rightarrow> [])"

definition print_u32 :: "string \<Rightarrow> t_std_error \<times> u32 option \<Rightarrow> string" where
  "print_u32 label r = (case r of (STD_ERR_OK, Some v) \<Rightarrow> label @ fmt_d v @ newline | _ \<Rightarrow> [])"

definition print_profiles_now ::
  "strcopy \<Rightarrow> sw_obj list option \<Rightarrow> nas_cmn_sw_init_info_t \<Rightarrow> string" where
  "print_profiles_now cpy db i =
     print_text ''Get Current active switch profile: '' (nas_sw_profile_current_profile_get cpy True 64 i) @
     print_text ''Get Current configured switch profile: '' (nas_sw_profile_conf_profile_get cpy True 64 db i)"

definition print_supported :: "strcopy \<Rightarrow> string \<Rightarrow> nas_cmn_sw_init_info_t \<Rightarrow> string" where
  "print_supported cpy p i =
     (let current_profile = cpy p 65
      in ''switch profile '' @ current_profile @
         (if nas_sw_profile_supported (Some current_profile) i then '' supported '' else '' not supported '') @
         newline)"

definition test_profile ::
  "strcopy \<Rightarrow> sw_obj list option \<Rightarrow> nas_cmn_sw_init_info_t \<Rightarrow> string \<times> nas_cmn_sw_init_info_t" where
  "test_profile cpy db i =
     (let before = print_profiles_now cpy db i @ print_supported cpy ''unified'' i @
            print_supported cpy ''unified-50G'' i;
          p = cpy ''unified-50G'' 65;
          (rc, i2) = nas_sw_profile_conf_profile_set cpy (Some p) cps_api_oper_SET i
      in (before @ print_text ''Set switch profile: '' (rc, Some p) @ print_profiles_now cpy db i2 @
          print_u32 ''Get Current number of switch profiles supported : '' (nas_sw_profile_num_profiles_get True i2),
          i2))"

section \<open>UFT modes\<close>

definition print_mode_supported :: "string \<Rightarrow> u32 \<Rightarrow> bool \<Rightarrow> string" where
  "print_mode_supported label v b =
     label @ fmt_d v @ (if b then '' supported '' else '' not supported '') @ crlf"

definition print_uft_now ::
  "string \<Rightarrow> sw_obj list option \<Rightarrow> nas_cmn_sw_init_info_t \<Rightarrow> string" where
  "print_uft_now when_text db i =
     print_u32 (''Get Current active UFT mode '' @ when_text) (nas_sw_profile_current_uft_get True i) @
     print_u32 (''Get Current configured UFT mode '' @ when_text) (nas_sw_profile_conf_uft_get True db i)"

definition print_sizes :: "string \<Rightarrow> u32 \<Rightarrow> u32 \<times> u32 \<times> u32 \<Rightarrow> string" where
  "print_sizes head m sizes =
     (case sizes of (l2, l3, host) \<Rightarrow>
        head @ crlf @ ''      UFT mode: '' @ fmt_d m @ crlf @ ''      l2 size: '' @ fmt_d l2 @ crlf @
        ''      l3 size: '' @ fmt_d l3 @ crlf @ ''      host size: '' @ fmt_d host @ crlf)"

text \<open>The three size variables afterwards: a getter that fills nothing leaves them.\<close>

definition sizes_after :: "u32 \<times> u32 \<times> u32 \<Rightarrow> (u32 \<times> u32 \<times> u32) option \<Rightarrow> u32 \<times> u32 \<times> u32" where
  "sizes_after old new = (case new of None \<Rightarrow> old | Some v \<Rightarrow> v)"

fun print_modes ::
  "sw_consts \<Rightarrow> nas_cmn_sw_init_info_t \<Rightarrow> u32 list \<Rightarrow> u32 \<times> u32 \<times> u32 \<Rightarrow> string \<times> (u32 \<times> u32 \<times> u32)" where
  "print_modes K i [] sizes = ([], sizes)"
| "print_modes K i (m # ms) sizes =
     (case nas_sw_profile_uft_info_get K m True i of (rc, new) \<Rightarrow>
        (let sizes1 = sizes_after (0, 0, 0) new;
             line = (if rc = STD_ERR_OK then print_sizes ''Get UFT info  : '' m sizes1 else []);
             (t, sizes2) = print_modes K i ms sizes1
         in (line @ t, sizes2)))"

text \<open>The modes of the loop, whose end needs a maximum below the largest \<open>uint32_t\<close>.\<close>

definition uft_range :: "sw_consts \<Rightarrow> u32 list" where
  "uft_range K =
     map of_nat [unat (BASE_SWITCH_UFT_MODE_MIN K)..<Suc (unat (BASE_SWITCH_UFT_MODE_MAX K))]"

definition test_uft ::
  "sw_consts \<Rightarrow> sw_obj list option \<Rightarrow> nas_cmn_sw_init_info_t \<Rightarrow> string \<times> nas_cmn_sw_init_info_t" where
  "test_uft K db i =
     (let checks = concat (map (\<lambda>m. print_mode_supported '' UFT mode '' m (nas_sw_uft_mode_supported K m i))
            [0, 5, 3]);
          (rc, i2) = nas_sw_profile_conf_uft_set K 3 cps_api_oper_SET i;
          (modes, sizes) = print_modes K i2 (uft_range K) (0, 0, 0)
      in (checks @ print_uft_now '': '' db i @ print_u32 ''set UFT mode : '' (rc, Some 3) @
          print_uft_now ''after set : '' db i2 @
          print_u32 ''Get supported UFT mode count : '' (nas_sw_profile_uft_num_modes_get True i2) @ modes @
          (case nas_sw_profile_uft_default_mode_info_get True i2 of
             (STD_ERR_OK, Some m, new) \<Rightarrow> print_sizes ''Get default UFT mode info : '' m (sizes_after sizes new)
           | _ \<Rightarrow> []),
          i2))"

section \<open>ECMP entries\<close>

definition print_ecmp_now ::
  "string \<Rightarrow> sw_obj list option \<Rightarrow> nas_cmn_sw_init_info_t \<Rightarrow> string" where
  "print_ecmp_now when_text db i =
     print_u32 (''Get Current active max_ecmp_per_grp '' @ when_text)
       (nas_sw_profile_cur_max_ecmp_per_grp_get True i) @
     print_u32 (''Get Current configured max_ecmp_per_grp '' @ when_text)
       (nas_sw_profile_conf_max_ecmp_per_grp_get True db i)"

definition test_ecmp ::
  "sw_obj list option \<Rightarrow> nas_cmn_sw_init_info_t \<Rightarrow> string \<times> nas_cmn_sw_init_info_t" where
  "test_ecmp db i =
     (let check = (\<lambda>v. print_mode_supported ''max_ecmp_per_grp '' v (nas_sw_max_ecmp_per_grp_supported v));
          (rc, i2) = nas_sw_profile_conf_max_ecmp_per_grp_set 128 cps_api_oper_SET i
      in ((if nas_sw_max_ecmp_per_grp_supported 0 then [] else crlf) @ check 0 @
          check (NAS_CMN_MAX_ECMP_ENTRIES_PER_GRP_MAX + 2) @ check 256 @ print_ecmp_now '': '' db i @
          print_u32 ''max_ecmp_per_grp mode : '' (rc, Some 128) @ print_ecmp_now ''after set : '' db i2,
          i2))"

section \<open>The program\<close>

text \<open>
  The result is the exit status, the text and the state. \<open>bare_nexist\<close> says which return codes
  equal the bare \<open>e_std_err_code_NEXIST\<close>, a number of the platform library.
\<close>

definition test_profiles ::
  "'n init_env \<Rightarrow> nas_cmn_sw_init_info_t \<Rightarrow> string \<times> nas_cmn_sw_init_info_t" where
  "test_profiles E i =
     (let (t1, i1) = test_profile (scpy E) (startup_db E) i;
          (t2, i2) = test_uft (hdr E) (startup_db E) i1;
          (t3, i3) = test_ecmp (startup_db E) i2
      in (t1 @ t2 @ t3, i3))"

definition switch_test_main ::
  "'n init_env \<Rightarrow> (t_std_error \<Rightarrow> bool) \<Rightarrow> switch_state \<Rightarrow> fault + (nat \<times> string \<times> switch_state)" where
  "switch_test_main E bare_nexist s =
     (case nas_switch_init E s of
        Inl f \<Rightarrow> Inl f
      | Inr (_, s1) \<Rightarrow>
        (case nas_switch_inventory s1 of (count, _) \<Rightarrow>
        (let head = ''Switch count is '' @ fmt_d (of_nat count) @ newline in
         case print_switches s1 [0..<count] of
           Inl f \<Rightarrow> Inl f
         | Inr (True, t) \<Rightarrow> Inr (1, head @ t, s1)
         | Inr (False, t) \<Rightarrow>
           (case print_found s1 [0..<8] of
              Inl f \<Rightarrow> Inl f
            | Inr u \<Rightarrow>
              (let (v, i) = test_profiles E (sw_info s1) in
               case nas_sw_parse_db_and_update (scpy E) (obj_ok E) (commit E) (acl_commit E)
                      (startup_db E) (acl_startup_db E) 0 i of
                 Inl f \<Rightarrow> Inl f
               | Inr (rc, i2, _, _) \<Rightarrow>
                   Inr (0, head @ t @ u @ v @
                        (if \<not> bare_nexist rc \<and> rc \<noteq> STD_ERR_OK
                         then crlf @ ''reading sw elementsfrom DB failed'' @ crlf else []),
                        s1\<lparr>sw_info := i2\<rparr>))))))"


section \<open>The program ends with success\<close>

lemma elem_at_in: "i < length xs \<Longrightarrow> elem_at xs i = Inr (xs ! i)"
  by (simp add: elem_at_def)

lemma print_npus_ok:
  "detail_ok d \<Longrightarrow> \<forall>k \<in> set ks. k < number_of_npus d \<Longrightarrow> \<exists>t. print_npus d ks = Inr t"
  by (induction ks) (auto simp: detail_ok_def npus_of_def elem_at_in split: option.splits)

lemma nas_switch_index: "ix < number_of_switches s \<Longrightarrow> switch_cfg s \<noteq> [] \<Longrightarrow>
    \<exists>i. nas_switch (of_nat ix) s = Some i \<and> i < number_of_switches s"
  using unat_of_nat [of ix, where 'a = 32] by (simp add: nas_switch_def order_le_less_trans)

lemma print_switches_ok:
  assumes "switches_ok s" "\<not> failed s"
  shows "\<forall>ix \<in> set ixs. ix < number_of_switches s \<Longrightarrow> \<exists>t. print_switches s ixs = Inr (False, t)"
proof (induction ixs)
  case (Cons ix ixs)
  then obtain u where u: "print_switches s ixs = Inr (False, u)" by auto
  have ix: "ix < number_of_switches s" using Cons.prems by simp
  obtain l where l: "switch_list s = Some l" "length l = number_of_switches s"
    using assms ix by (cases "switch_list s") (auto simp: switches_ok_def switch_ids_def)
  obtain i where i: "nas_switch (of_nat ix) s = Some i" "i < number_of_switches s"
    using nas_switch_index [OF ix] assms ix unfolding switches_ok_def by fastforce
  have d: "detail_at s i = Inr (switch_cfg s ! i)" using detail_at_ok [OF assms(2,1) i(2)] .
  have "detail_ok (switch_cfg s ! i)" using assms i(2) by (simp add: switches_ok_def)
  then obtain t where t: "print_npus (switch_cfg s ! i) [0..<number_of_npus (switch_cfg s ! i)] = Inr t"
    using print_npus_ok by fastforce
  show ?case using l ix i(1) d t u by (simp add: elem_at_in Let_def)
qed simp

lemma find_switch_ok:
  "switches_ok s \<Longrightarrow> \<not> failed s \<Longrightarrow> \<exists>r. nas_find_switch_id_by_npu npu s = Inr r"
  unfolding nas_find_switch_id_by_npu_def
  by (subst find_switch_exact) (auto simp: switches_ok_def)

lemma print_found_ok: "switches_ok s \<Longrightarrow> \<not> failed s \<Longrightarrow> \<exists>t. print_found s ks = Inr t"
proof (induction ks)
  case (Cons k ks)
  then show ?case using find_switch_ok [of s "of_nat k"] by auto
qed simp

subsection \<open>The requests of the program\<close>

text \<open>The three setters as requests, and what they leave alone.\<close>

lemma test_profiles_requests:
  "snd (test_profiles E i) =
     snd (nas_sw_profile_conf_max_ecmp_per_grp_set 128 cps_api_oper_SET
       (snd (nas_sw_profile_conf_uft_set (hdr E) 3 cps_api_oper_SET
         (snd (nas_sw_profile_conf_profile_set (scpy E) (Some (scpy E ''unified-50G'' 65)) cps_api_oper_SET i)))))"
  by (simp add: test_profiles_def test_profile_def test_uft_def test_ecmp_def Let_def case_prod_beta)

lemma test_profiles_booted: "booted (snd (test_profiles E i)) = booted i"
  by (simp add: test_profiles_requests setter_defs booted_absorb)

lemma booted_file_data: "booted s = booted t \<Longrightarrow> file_data s = file_data t"
proof -
  assume "booted s = booted t"
  moreover have "file_data u = file_data (booted u)" for u by (simp add: file_data_def booted_def)
  ultimately show "file_data s = file_data t" by metis
qed

lemma test_profiles_start:
  "sw_db_update cpy db (snd (test_profiles E i)) = sw_db_update cpy db i"
  by (rule sw_db_update_forgets [OF booted_file_data [OF test_profiles_booted]])
    (simp_all add: test_profiles_requests setter_defs)

lemma acl_ok_db_update: "acl_ok i \<Longrightarrow> acl_ok (sw_db_update cpy db i)"
proof -
  have "file_data (sw_db_update cpy db i) = file_data i" by (rule sw_db_update_file)
  then have "acl_groups (sw_db_update cpy db i) = acl_groups i"
    "acl_count (sw_db_update cpy db i) = acl_count i"
    by (cases "sw_db_update cpy db i", cases i, simp add: file_data_def acl_count_def)+
  then show "acl_ok i \<Longrightarrow> acl_ok (sw_db_update cpy db i)" by (simp add: acl_ok_def)
qed

lemma reload_ok:
  assumes "acl_ok i" "list_all acl_obj_ok (case acl_db of None \<Rightarrow> [] | Some obs \<Rightarrow> obs)"
  shows "\<exists>r. nas_sw_parse_db_and_update cpy ok cm acm db acl_db sw i = Inr r"
  using acl_parse_ok [OF acl_ok_db_update [OF assms(1), of cpy db] assms(2), of acm sw]
  by (auto simp: nas_sw_parse_db_and_update_def Let_def)

text \<open>What is printed after a set is what was printed before it.\<close>

lemma prints_after_sets:
  "print_uft_now w db (snd (test_uft K db i)) = print_uft_now w db i"
  "print_ecmp_now w db (snd (test_ecmp db i)) = print_ecmp_now w db i"
  "print_profiles_now cpy db (snd (test_profile cpy db i)) = print_profiles_now cpy db i"
  by (simp_all add: test_uft_def test_ecmp_def test_profile_def Let_def case_prod_beta setter_defs
      print_uft_now_def print_ecmp_now_def print_profiles_now_def nas_sw_profile_current_uft_get_def
      nas_sw_profile_conf_uft_get_def nas_sw_profile_cur_max_ecmp_per_grp_get_def
      nas_sw_profile_conf_max_ecmp_per_grp_get_def nas_sw_profile_current_profile_get_def
      nas_sw_profile_conf_profile_get_def cong: option.case_cong)

text \<open>C34: After an initialisation that parses its file, the test program prints the switches and
  never ends through \<open>exit (1)\<close>. It sets the profile, the UFT mode and the number of ECMP entries, and
  what it prints of each after the set is what it printed before. The sets leave no trace: the
  program ends the way its last call, which reads the startup data base again, ends without them, with
  its fault, or with status 0 and the profile data that this call gives. There is no
  fault when the array of ACL groups is as long as the loops assume (\<open>acl_ok\<close>) and the identifiers in
  the data base are terminated (\<open>acl_obj_ok\<close>).\<close>

theorem switch_test_leaves_no_trace:
  assumes "switch_reachable s" "nas_switch_init E s = Inr (rc, t)" "\<not> failed t"
    and "res = nas_sw_parse_db_and_update (scpy E) (obj_ok E) (commit E) (acl_commit E) (startup_db E)
      (acl_startup_db E) 0 (sw_info t)"
  shows "(\<exists>text. switch_test_main E bare_nexist s =
      (case res of Inl f \<Rightarrow> Inl f | Inr (rc', i, obs, acl_obs) \<Rightarrow> Inr (0, text, t\<lparr>sw_info := i\<rparr>))) \<and>
    (acl_ok (sw_info t) \<and>
     list_all acl_obj_ok (case acl_startup_db E of None \<Rightarrow> [] | Some obs \<Rightarrow> obs) \<longrightarrow> (\<exists>r. res = Inr r)) \<and>
    print_uft_now w db (snd (test_uft (hdr E) db i)) = print_uft_now w db i \<and>
    print_ecmp_now w db (snd (test_ecmp db i)) = print_ecmp_now w db i \<and>
    print_profiles_now (scpy E) db (snd (test_profile (scpy E) db i)) = print_profiles_now (scpy E) db i"
proof -
  have ok: "switches_ok t" using nas_switch_init_ok [OF switch_reachable_ok [OF assms(1)] assms(2)] .
  obtain a where a: "print_switches t [0..<number_of_switches t] = Inr (False, a)"
    using print_switches_ok [OF ok assms(3), of "[0..<number_of_switches t]"] by auto
  obtain u where u: "print_found t [0..<8] = Inr u" using print_found_ok [OF ok assms(3)] by blast
  obtain v i where v: "test_profiles E (sw_info t) = (v, i)" by fastforce
  have "sw_db_update (scpy E) (startup_db E) i = sw_db_update (scpy E) (startup_db E) (sw_info t)"
    using test_profiles_start [of "scpy E" "startup_db E" E "sw_info t"] v by simp
  then have e: "nas_sw_parse_db_and_update (scpy E) (obj_ok E) (commit E) (acl_commit E)
      (startup_db E) (acl_startup_db E) 0 i = res"
    by (simp add: assms(4) nas_sw_parse_db_and_update_def)
  have "\<exists>text. switch_test_main E bare_nexist s =
      (case res of Inl f \<Rightarrow> Inl f | Inr (rc', i, obs, acl_obs) \<Rightarrow> Inr (0, text, t\<lparr>sw_info := i\<rparr>))"
    using assms(2) a u v e
    by (cases res) (auto simp: switch_test_main_def nas_switch_inventory_def Let_def)
  then show ?thesis
    using reload_ok [of "sw_info t" "acl_startup_db E"]
    by (simp add: prints_after_sets assms(4))
qed

text \<open>The two switches of the sample file.\<close>

lemma sample_text:
  "print_switches sample_switches [0, 1] =
     Inr (False, concat (map (\<lambda>l. l @ newline)
       [''Switch id 0'', ''NPU 0'', ''Switch id 1'', ''NPU 2'', ''NPU 3'']))"
  by code_simp

theorem switch_test_leaves_no_trace_witness:
  "\<exists>text i. switch_test_main (sample_env (\<lambda>n k. True) [0, 1, 2]) (\<lambda>rc. False) switch_state_init =
     Inr (0, text, sample_switches\<lparr>sw_info := i\<rparr>)"
proof -
  let ?E = "sample_env (\<lambda>n k. True) [0, 1, 2]"
  let ?res = "nas_sw_parse_db_and_update (scpy ?E) (obj_ok ?E) (commit ?E) (acl_commit ?E) (startup_db ?E)
      (acl_startup_db ?E) 0 (sw_info sample_switches)"
  note run = switch_test_leaves_no_trace [OF switch_reachable.start sample_init sample_ok refl,
      of "\<lambda>rc. False"]
  have "acl_ok (sw_info sample_switches)" unfolding acl_ok_def by code_simp
  moreover have "list_all acl_obj_ok (case acl_startup_db ?E of None \<Rightarrow> [] | Some obs \<Rightarrow> obs)"
    by (simp add: sample_env_def)
  ultimately obtain r where "?res = Inr r" using run by blast
  then obtain rc i obs acl_obs where "?res = Inr (rc, i, obs, acl_obs)" by (cases r) auto
  then show ?thesis using run [THEN conjunct1] by auto
qed

end
