(* ===== verification/ShellClient.thy ===== *)
theory ShellClient
  imports CLib "HOL-Library.Sublist"
begin

text \<open>
  The command line client of the NPU shell (\<open>src/src/hal_shell_client.c\<close>). What the platform and
  the system answer is a parameter: the options that \<open>getopt\<close> returns one after the other, whether
  the connection and each write succeed, and what each call of \<open>select\<close> in the main loop reports,
  with the results of the copies that the loop then makes. The state is what has been sent to the
  service, message by message, and what has been printed.
\<close>

section \<open>Options\<close>

datatype client_opt = Opt_unit string | Opt_cmd string | Opt_other

record client_args =
  unit_str :: string
  cmd_str :: string

definition UNIT_STR_SIZE :: nat where
  "UNIT_STR_SIZE = 30"

definition CMD_STR_SIZE :: nat where
  "CMD_STR_SIZE = 1024"

text \<open>The text that \<open>snprintf\<close> leaves in a buffer when it is told the size.\<close>

definition snprintf_text :: "nat \<Rightarrow> string \<Rightarrow> string" where
  "snprintf_text n txt = take (n - 1) txt"

text \<open>\<open>None\<close> is the exit with the usage text.\<close>

fun parse_opts :: "client_opt list \<Rightarrow> client_args \<Rightarrow> client_args option" where
  "parse_opts [] a = Some a"
| "parse_opts (Opt_unit u # os) a =
     parse_opts os (a\<lparr>unit_str := snprintf_text (UNIT_STR_SIZE - 1) (''::'' @ u @ newline)\<rparr>)"
| "parse_opts (Opt_cmd c # os) a =
     parse_opts os (a\<lparr>cmd_str := snprintf_text (CMD_STR_SIZE - 1) (newline @ newline @ c @ newline)\<rparr>)"
| "parse_opts (Opt_other # os) a = None"

definition no_args :: client_args where
  "no_args = \<lparr>unit_str = [], cmd_str = []\<rparr>"

definition usage_text :: string where
  "usage_text = ''Valid args are [ -u unit -c '' @ [CHR 0x22] @ ''cmd'' @ [CHR 0x22] @ '' ]'' @ newline"

section \<open>Messages\<close>

definition exit_cmd :: string where
  "exit_cmd = newline @ ''::exit'' @ newline"

definition prompt_off :: string where
  "prompt_off = newline @ ''::prompt:off'' @ newline"

definition prompt_on :: string where
  "prompt_on = newline @ ''::prompt:on'' @ newline"

definition welcome_text :: string where
  "welcome_text = ''Welcome to the NPU Shell'' @ newline @
     ''type ::exit to exit the shell and ::[npu] to change the default npu'' @ newline"

text \<open>A string is written with its terminator.\<close>

definition wire :: "string \<Rightarrow> string" where
  "wire s = s @ [CHR 0x00]"

record client =
  sent :: "string list"
  shown :: string

text \<open>\<open>std_write\<close> of all bytes; \<open>wr k\<close> is whether write \<open>k\<close> to the socket succeeds.\<close>

definition client_write :: "(nat \<Rightarrow> bool) \<Rightarrow> string \<Rightarrow> client \<Rightarrow> bool \<times> client" where
  "client_write wr s c =
     (if wr (length (sent c)) then (True, c\<lparr>sent := sent c @ [wire s]\<rparr>) else (False, c))"

definition client_show :: "string \<Rightarrow> client \<Rightarrow> client" where
  "client_show t c = c\<lparr>shown := shown c @ t\<rparr>"

text \<open>What is written before the loop; the flag is whether all writes succeeded.\<close>

definition write_prompt :: "(nat \<Rightarrow> bool) \<Rightarrow> client_args \<Rightarrow> client \<Rightarrow> bool \<times> client" where
  "write_prompt wr a c =
     (if cmd_str a \<noteq> [] then client_write wr prompt_off c
      else (case client_write wr prompt_on c of
              (False, c1) \<Rightarrow> (False, c1)
            | (True, c1) \<Rightarrow> (True, client_show welcome_text c1)))"

definition write_if :: "(nat \<Rightarrow> bool) \<Rightarrow> string \<Rightarrow> client \<Rightarrow> bool \<times> client" where
  "write_if wr s c = (if s \<noteq> [] then client_write wr s c else (True, c))"

definition client_greet :: "(nat \<Rightarrow> bool) \<Rightarrow> client_args \<Rightarrow> client \<Rightarrow> bool \<times> client" where
  "client_greet wr a c =
     (case write_prompt wr a c of
        (False, c1) \<Rightarrow> (False, c1)
      | (True, c1) \<Rightarrow>
          (case write_if wr (unit_str a) c1 of
             (False, c2) \<Rightarrow> (False, c2)
           | (True, c2) \<Rightarrow> write_if wr (cmd_str a) c2))"

section \<open>The loop\<close>

text \<open>
  What \<open>select\<close> reports: nothing for a second, an error, or which of the two descriptors are
  readable, each with what \<open>std_fd_copy\<close> makes of it: an error, the end of the input, or the
  bytes that it has copied.
\<close>

datatype copy_result = Copy_error | Copy_end | Copied string

datatype sel_event =
    Sel_timeout
  | Sel_error
  | Sel_ready "copy_result option" "copy_result option"

datatype client_end = Waiting | Returned int | Exited int

definition copy_ends :: "copy_result \<Rightarrow> bool" where
  "copy_ends r \<longleftrightarrow> (case r of Copied t \<Rightarrow> t = [] | _ \<Rightarrow> True)"

definition copied_text :: "copy_result \<Rightarrow> string" where
  "copied_text r = (case r of Copied t \<Rightarrow> t | _ \<Rightarrow> [])"

text \<open>One pass through the body: \<open>None\<close> when the loop goes on.\<close>

definition copy_stdin :: "copy_result option \<Rightarrow> client \<Rightarrow> client" where
  "copy_stdin r c =
     (case r of
        Some (Copied t) \<Rightarrow> if t = [] then c else c\<lparr>sent := sent c @ [t]\<rparr>
      | _ \<Rightarrow> c)"

definition copy_socket :: "copy_result option \<Rightarrow> client \<Rightarrow> client" where
  "copy_socket r c = (case r of Some q \<Rightarrow> client_show (copied_text q) c | None \<Rightarrow> c)"

definition opt_ends :: "copy_result option \<Rightarrow> bool" where
  "opt_ends r \<longleftrightarrow> (case r of Some q \<Rightarrow> copy_ends q | None \<Rightarrow> False)"

fun client_step ::
  "(nat \<Rightarrow> bool) \<Rightarrow> client_args \<Rightarrow> sel_event \<Rightarrow> client \<Rightarrow> client_end option \<times> client" where
  "client_step wr a Sel_timeout c =
     (if cmd_str a \<noteq> [] then
        (case client_write wr exit_cmd c of
           (False, c1) \<Rightarrow> (Some (Returned (-1)), c1)
         | (True, c1) \<Rightarrow> (None, c1))
      else (None, c))"
| "client_step wr a Sel_error c = (Some (Returned 0), c)"
| "client_step wr a (Sel_ready inp sock) c =
     (let c1 = copy_stdin inp c in
      if opt_ends inp then (Some (Returned 0), c1)
      else (let c2 = copy_socket sock c1 in
            if opt_ends sock then (Some (Returned 0), c2) else (None, c2)))"

text \<open>The loop over the reports so far; without an end it waits in \<open>select\<close>.\<close>

fun client_loop ::
  "(nat \<Rightarrow> bool) \<Rightarrow> client_args \<Rightarrow> sel_event list \<Rightarrow> client \<Rightarrow> client_end \<times> client" where
  "client_loop wr a [] c = (Waiting, c)"
| "client_loop wr a (e # es) c =
     (case client_step wr a e c of
        (Some r, c1) \<Rightarrow> (r, c1)
      | (None, c1) \<Rightarrow> client_loop wr a es c1)"

definition client_start :: client where
  "client_start = \<lparr>sent = [], shown = []\<rparr>"

definition client_main ::
  "client_opt list \<Rightarrow> bool \<Rightarrow> (nat \<Rightarrow> bool) \<Rightarrow> sel_event list \<Rightarrow> client_end \<times> client" where
  "client_main opts connected wr es =
     (case parse_opts opts no_args of
        None \<Rightarrow> (Exited 1, client_show usage_text client_start)
      | Some a \<Rightarrow>
          (if \<not> connected then (Returned (-1), client_start)
           else (case client_greet wr a client_start of
                   (False, c) \<Rightarrow> (Returned (-1), c)
                 | (True, c) \<Rightarrow> client_loop wr a es c)))"


section \<open>The session\<close>

text \<open>The messages before the loop, and what one report of \<open>select\<close> adds.\<close>

definition nonempty :: "string \<Rightarrow> string list" where
  "nonempty s = (if s = [] then [] else [s])"

definition greeting :: "client_args \<Rightarrow> string list" where
  "greeting a =
     [wire (if cmd_str a = [] then prompt_on else prompt_off)] @
     map wire (nonempty (unit_str a) @ nonempty (cmd_str a))"

definition opt_text :: "copy_result option \<Rightarrow> string" where
  "opt_text r = (case r of Some q \<Rightarrow> copied_text q | None \<Rightarrow> [])"

fun event_ends :: "sel_event \<Rightarrow> bool" where
  "event_ends Sel_timeout \<longleftrightarrow> False"
| "event_ends Sel_error \<longleftrightarrow> True"
| "event_ends (Sel_ready inp sock) \<longleftrightarrow> opt_ends inp \<or> opt_ends sock"

fun event_sends :: "client_args \<Rightarrow> sel_event \<Rightarrow> string list" where
  "event_sends a Sel_timeout = (if cmd_str a = [] then [] else [wire exit_cmd])"
| "event_sends a Sel_error = []"
| "event_sends a (Sel_ready inp sock) = nonempty (opt_text inp)"

fun event_shows :: "sel_event \<Rightarrow> string" where
  "event_shows (Sel_ready inp sock) = (if opt_ends inp then [] else opt_text sock)"
| "event_shows e = []"

text \<open>The reports up to the first one that ends the loop.\<close>

fun played :: "sel_event list \<Rightarrow> sel_event list" where
  "played [] = []"
| "played (e # es) = (if event_ends e then [e] else e # played es)"

lemma copy_stdin_eq: "copy_stdin r c = c\<lparr>sent := sent c @ nonempty (opt_text r)\<rparr>"
  by (simp add: copy_stdin_def nonempty_def opt_text_def copied_text_def
      split: option.split copy_result.split)

lemma copy_socket_eq: "copy_socket r c = c\<lparr>shown := shown c @ opt_text r\<rparr>"
  by (simp add: copy_socket_def opt_text_def client_show_def split: option.split)

lemma client_step_ok:
  "client_step (\<lambda>_. True) a e c =
     (if event_ends e then Some (Returned 0) else None,
      \<lparr>sent = sent c @ event_sends a e, shown = shown c @ event_shows e\<rparr>)"
  by (cases e) (simp_all add: client_write_def copy_stdin_eq copy_socket_eq Let_def)

lemma client_loop_ok:
  "client_loop (\<lambda>_. True) a es c =
     (if list_ex event_ends es then Returned 0 else Waiting,
      \<lparr>sent = sent c @ concat (map (event_sends a) (played es)),
       shown = shown c @ concat (map event_shows (played es))\<rparr>)"
  by (induction es arbitrary: c) (auto simp: client_step_ok)

lemma client_greet_ok:
  "client_greet (\<lambda>_. True) a client_start =
     (True, \<lparr>sent = greeting a, shown = (if cmd_str a = [] then welcome_text else [])\<rparr>)"
  by (simp add: client_greet_def write_prompt_def write_if_def client_write_def client_show_def
      client_start_def greeting_def nonempty_def)

section \<open>Failures\<close>

text \<open>A client that a failed write has stopped is at a point of the session without failures.\<close>

definition cut_of :: "client \<Rightarrow> client \<Rightarrow> bool" where
  "cut_of c d \<longleftrightarrow> prefix (sent c) (sent d) \<and> prefix (shown c) (shown d)"

lemma cut_of_refl [simp]: "cut_of c c"
  by (simp add: cut_of_def)

lemma cut_of_trans: "cut_of c d \<Longrightarrow> cut_of d e \<Longrightarrow> cut_of c e"
  by (auto simp: cut_of_def intro: prefix_order.trans)

lemma client_write_cases:
  "client_write wr s c = client_write (\<lambda>_. True) s c \<or> client_write wr s c = (False, c)"
  by (simp add: client_write_def)

lemma client_write_grows: "cut_of c (snd (client_write wr s c))" "fst (client_write (\<lambda>_. True) s c)"
  by (simp_all add: client_write_def cut_of_def)

lemma client_loop_grows: "cut_of c (snd (client_loop (\<lambda>_. True) a es c))"
  by (simp add: client_loop_ok cut_of_def)

lemma client_step_cases:
  "client_step wr a e c = client_step (\<lambda>_. True) a e c \<or> client_step wr a e c = (Some (Returned (-1)), c)"
proof (cases e)
  case Sel_timeout
  then show ?thesis using client_write_cases [of wr exit_cmd c] by auto
qed simp_all

lemma client_loop_cases:
  "client_loop wr a es c = client_loop (\<lambda>_. True) a es c \<or>
   fst (client_loop wr a es c) = Returned (-1) \<and>
     cut_of (snd (client_loop wr a es c)) (snd (client_loop (\<lambda>_. True) a es c))"
proof (induction es arbitrary: c)
  case (Cons e es)
  from client_step_cases [of wr a e c] show ?case
  proof
    assume same: "client_step wr a e c = client_step (\<lambda>_. True) a e c"
    obtain r c1 where 1: "client_step (\<lambda>_. True) a e c = (r, c1)" by fastforce
    show ?thesis using same 1 Cons.IH [of c1] by (cases r) simp_all
  next
    assume "client_step wr a e c = (Some (Returned (-1)), c)"
    then show ?thesis using client_loop_grows [of c a "e # es"] by simp
  qed
qed simp

lemma write_cases:
  "write_prompt wr a c = write_prompt (\<lambda>_. True) a c \<or> write_prompt wr a c = (False, c)"
  "write_if wr s c = write_if (\<lambda>_. True) s c \<or> write_if wr s c = (False, c)"
  by (auto simp: write_prompt_def write_if_def client_write_def)

lemma write_grows:
  "fst (write_prompt (\<lambda>_. True) a c)" "cut_of c (snd (write_prompt (\<lambda>_. True) a c))"
  "fst (write_if (\<lambda>_. True) s c)" "cut_of c (snd (write_if (\<lambda>_. True) s c))"
  by (simp_all add: write_prompt_def write_if_def client_write_def client_show_def cut_of_def)

lemma client_greet_cases:
  "client_greet wr a c = client_greet (\<lambda>_. True) a c \<or>
   \<not> fst (client_greet wr a c) \<and> cut_of (snd (client_greet wr a c)) (snd (client_greet (\<lambda>_. True) a c))"
proof -
  obtain c1 where 1: "write_prompt (\<lambda>_. True) a c = (True, c1)" "cut_of c c1"
    using write_grows(1) [of a c] write_grows(2) [of c a] by (cases "write_prompt (\<lambda>_. True) a c") auto
  obtain c2 where 2: "write_if (\<lambda>_. True) (unit_str a) c1 = (True, c2)" "cut_of c1 c2"
    using write_grows(3) [of "unit_str a" c1] write_grows(4) [of c1 "unit_str a"] by (cases "write_if (\<lambda>_. True) (unit_str a) c1") auto
  obtain c3 where 3: "write_if (\<lambda>_. True) (cmd_str a) c2 = (True, c3)" "cut_of c2 c3"
    using write_grows(3) [of "cmd_str a" c2] write_grows(4) [of c2 "cmd_str a"] by (cases "write_if (\<lambda>_. True) (cmd_str a) c2") auto
  have all: "client_greet (\<lambda>_. True) a c = (True, c3)" by (simp add: client_greet_def 1 2 3)
  have "cut_of c1 c3" "cut_of c c3" using 1(2) 2(2) 3(2) cut_of_trans by blast+
  then show ?thesis
    using write_cases(1) [of wr a c] write_cases(2) [of wr "unit_str a" c1]
      write_cases(2) [of wr "cmd_str a" c2] 1(1) 2(1) 3 unfolding all
    by (elim disjE) (simp_all add: client_greet_def)
qed


section \<open>The program\<close>

text \<open>C27: The session of the client, for every option list that \<open>getopt\<close> accepts and every history
  of what \<open>select\<close> reports. Without failures it sends the prompt command, the unit and the command
  if they are given, then what it reads from its input and, only when a command is given, one
  exit command for each second without traffic; it returns 0 exactly when a report is an error or
  the end of one of the two inputs, and then nothing after that report counts. With failures it
  either does the same or returns -1 at a point of that session.\<close>

theorem client_session:
  assumes "parse_opts opts no_args = Some a"
  shows "client_main opts True (\<lambda>_. True) es =
      (if list_ex event_ends es then Returned 0 else Waiting,
       \<lparr>sent = greeting a @ concat (map (event_sends a) (played es)),
        shown = (if cmd_str a = [] then welcome_text else []) @ concat (map event_shows (played es))\<rparr>) \<and>
    (client_main opts conn wr es = client_main opts True (\<lambda>_. True) es \<or>
     fst (client_main opts conn wr es) = Returned (-1) \<and>
       cut_of (snd (client_main opts conn wr es)) (snd (client_main opts True (\<lambda>_. True) es)))"
proof -
  let ?c = "\<lparr>sent = greeting a, shown = (if cmd_str a = [] then welcome_text else [])\<rparr>"
  have main: "client_main opts True (\<lambda>_. True) es = client_loop (\<lambda>_. True) a es ?c"
    using assms by (simp add: client_main_def client_greet_ok)
  have after: "cut_of c (snd (client_main opts True (\<lambda>_. True) es))" if "cut_of c ?c" for c
    using cut_of_trans [OF that client_loop_grows [of ?c a es]] main by simp
  have "client_main opts conn wr es = client_main opts True (\<lambda>_. True) es \<or>
      fst (client_main opts conn wr es) = Returned (-1) \<and>
        cut_of (snd (client_main opts conn wr es)) (snd (client_main opts True (\<lambda>_. True) es))"
  proof (cases "conn \<and> fst (client_greet wr a client_start)")
    case True
    then have "client_greet wr a client_start = (True, ?c)"
      using client_greet_cases [of wr a client_start] client_greet_ok [of a] by auto
    then have "client_main opts conn wr es = client_loop wr a es ?c"
      using True assms by (simp add: client_main_def)
    then show ?thesis using client_loop_cases [of wr a es ?c] main by simp
  next
    case False
    have start: "cut_of client_start ?c" by (simp add: cut_of_def client_start_def)
    obtain b d where d: "client_greet wr a client_start = (b, d)" by fastforce
    have "\<not> b \<Longrightarrow> cut_of d ?c"
      using client_greet_cases [of wr a client_start] client_greet_ok [of a] d by auto
    then show ?thesis using False assms start d after by (cases conn; cases b) (simp_all add: client_main_def)
  qed
  then show ?thesis using main by (simp add: client_loop_ok)
qed

text \<open>A command with an answer of one line, an exit command after a quiet second, and the end.\<close>

theorem client_session_witness:
  "client_main [Opt_unit ''1'', Opt_cmd ''ps''] True (\<lambda>_. True)
     [Sel_ready None (Some (Copied ''ok'')), Sel_timeout, Sel_ready None (Some Copy_end)] =
   (Returned 0, \<lparr>sent = map wire [prompt_off, ''::1'' @ newline, newline @ newline @ ''ps'' @ newline, exit_cmd],
     shown = ''ok''\<rparr>)"
proof -
  let ?a = "\<lparr>unit_str = ''::1'' @ newline, cmd_str = newline @ newline @ ''ps'' @ newline\<rparr>"
  have "parse_opts [Opt_unit ''1'', Opt_cmd ''ps''] no_args = Some ?a" by code_simp
  from client_session [OF this, of "[Sel_ready None (Some (Copied ''ok'')), Sel_timeout, Sel_ready None (Some Copy_end)]"]
  show ?thesis
    by (simp add: greeting_def nonempty_def opt_ends_def copy_ends_def opt_text_def copied_text_def newline_def)
qed

section \<open>The buffers\<close>

text \<open>
  The two texts fit their buffers with one byte to spare. A longer command is cut without a
  message, and with its end goes the newline that tells the service to run it.
\<close>

lemma parse_opts_fit:
  "parse_opts opts a = Some b \<Longrightarrow> length (unit_str a) < 29 \<Longrightarrow> length (cmd_str a) < 1023 \<Longrightarrow>
     length (unit_str b) < 29 \<and> length (cmd_str b) < 1023"
  by (induction opts a rule: parse_opts.induct)
    (auto simp: snprintf_text_def UNIT_STR_SIZE_def CMD_STR_SIZE_def newline_def)

lemma command_complete_iff:
  assumes "parse_opts [Opt_cmd c] no_args = Some a"
  shows "cmd_str a = newline @ newline @ c @ newline \<longleftrightarrow> length c \<le> 1019"
proof -
  have "cmd_str a = take 1022 (newline @ newline @ c @ newline)"
    using assms by (auto simp: no_args_def snprintf_text_def CMD_STR_SIZE_def)
  moreover have "take 1022 xs = xs \<longleftrightarrow> length xs \<le> 1022" for xs :: string by auto
  ultimately show ?thesis by (simp add: newline_def del: take_append)
qed

end
