(* ===== verification/VrfStore.thy ===== *)
theory VrfStore
  imports VrfUtils CLib
begin

text \<open>
  The hash table behind the VRF table (\<open>src/src/nas_vrf_utils.cpp\<close>), which \<open>VrfUtils\<close> has as a map from
  names: the keys are pointers to names on the heap, hashed and compared by the two functors of the
  file. A node remembers the hash of its key; \<open>bucket\<close> is where the container puts a hash, which
  depends on its size at the time. Whether \<open>erase\<close> hashes the key of the node again is left to the
  container, and the deletion has freed that key before.
\<close>

section \<open>The functors\<close>

text \<open>A \<open>char\<close> is signed; the shift is in \<open>int\<close>, the exclusive or in \<open>size_t\<close>.\<close>

definition char_value :: "char \<Rightarrow> int" where
  "char_value c = (let n = of_char c :: int in if n \<ge> 128 then n - 256 else n)"

definition vrf_key_hash :: "string \<Rightarrow> u64" where
  "vrf_key_hash key = fold (\<lambda>c h. Bit_Operations.xor h (word_of_int (2 * char_value c))) key 0"

definition vrf_key_equal :: "string \<Rightarrow> string \<Rightarrow> bool" where
  "vrf_key_equal a b \<longleftrightarrow> a = b"

section \<open>The container\<close>

record vrf_node =
  node_key :: nat
  node_hash :: u64
  node_rec :: nas_vrf_ctrl_t

text \<open>The live keys by address, the nodes, and how many records live.\<close>

record vrf_store =
  key_heap :: "nat \<rightharpoonup> string"
  next_key :: nat
  nodes :: "vrf_node list"
  live_recs :: nat

definition vrf_store_init :: vrf_store where
  "vrf_store_init = \<lparr>key_heap = Map.empty, next_key = 0, nodes = [], live_recs = 0\<rparr>"

text \<open>\<open>find\<close> compares the keys of one bucket.\<close>

fun bucket_find ::
  "(u64 \<Rightarrow> nat) \<Rightarrow> string \<Rightarrow> (nat \<rightharpoonup> string) \<Rightarrow> vrf_node list \<Rightarrow> fault + vrf_node option" where
  "bucket_find bucket n heap [] = Inr None"
| "bucket_find bucket n heap (x # xs) =
     (if bucket (node_hash x) \<noteq> bucket (vrf_key_hash n) then bucket_find bucket n heap xs
      else case heap (node_key x) of
             None \<Rightarrow> Inl Use_After_Free
           | Some k \<Rightarrow> if vrf_key_equal k n then Inr (Some x) else bucket_find bucket n heap xs)"

definition store_locate :: "(u64 \<Rightarrow> nat) \<Rightarrow> string \<Rightarrow> vrf_store \<Rightarrow> fault + nas_vrf_ctrl_t option" where
  "store_locate bucket n s =
     (case bucket_find bucket n (key_heap s) (nodes s) of
        Inl f \<Rightarrow> Inl f | Inr r \<Rightarrow> Inr (map_option node_rec r))"

text \<open>Addition with the memory for key and record; an entry that is there stays.\<close>

definition store_add ::
  "(u64 \<Rightarrow> nat) \<Rightarrow> strcopy \<Rightarrow> nas_vrf_ctrl_t \<Rightarrow> vrf_store \<Rightarrow> fault + vrf_store" where
  "store_add bucket cpy r s =
     (let key = cpy (vrf_ctrl_name r) (NAS_VRF_NAME_SZ + 1);
          a = next_key s;
          s1 = s\<lparr>key_heap := (key_heap s)(a \<mapsto> key), next_key := Suc a, live_recs := Suc (live_recs s)\<rparr>
      in case bucket_find bucket key (key_heap s1) (nodes s1) of
           Inl f \<Rightarrow> Inl f
         | Inr (Some x) \<Rightarrow> Inr s1
         | Inr None \<Rightarrow>
             Inr (s1\<lparr>nodes := \<lparr>node_key = a, node_hash = vrf_key_hash key, node_rec = r\<rparr> # nodes s1\<rparr>))"

text \<open>The key is freed, then the node is erased, then the record is deleted.\<close>

definition store_erase :: "bool \<Rightarrow> vrf_node \<Rightarrow> vrf_store \<Rightarrow> fault + vrf_store" where
  "store_erase rehash x s =
     (if rehash \<and> key_heap s (node_key x) = None then Inl Use_After_Free
      else Inr (s\<lparr>nodes := filter (\<lambda>y. node_key y \<noteq> node_key x) (nodes s)\<rparr>))"

definition store_cleanup ::
  "bool \<Rightarrow> (u64 \<Rightarrow> nat) \<Rightarrow> nas_vrf_ctrl_t \<Rightarrow> vrf_store \<Rightarrow> fault + vrf_store" where
  "store_cleanup rehash bucket r s =
     (case bucket_find bucket (vrf_ctrl_name r) (key_heap s) (nodes s) of
        Inl f \<Rightarrow> Inl f
      | Inr None \<Rightarrow> Inr s
      | Inr (Some x) \<Rightarrow>
          (case store_erase rehash x (s\<lparr>key_heap := (key_heap s)(node_key x := None)\<rparr>) of
             Inl f \<Rightarrow> Inl f
           | Inr s1 \<Rightarrow> Inr (s1\<lparr>live_recs := live_recs s1 - 1\<rparr>)))"

text \<open>The update goes through the pointer to the record.\<close>

definition store_update ::
  "(u64 \<Rightarrow> nat) \<Rightarrow> nas_vrf_ctrl_t \<Rightarrow> vrf_store \<Rightarrow> fault + (bool \<times> vrf_store)" where
  "store_update bucket r s =
     (case bucket_find bucket (vrf_ctrl_name r) (key_heap s) (nodes s) of
        Inl f \<Rightarrow> Inl f
      | Inr None \<Rightarrow> Inr (False, s)
      | Inr (Some x) \<Rightarrow>
          Inr (True,
            if vrf_int_id r \<noteq> 0
            then s\<lparr>nodes := map (\<lambda>y. if node_key y = node_key x
                   then y\<lparr>node_rec := (node_rec y)\<lparr>vrf_int_id := vrf_int_id r\<rparr>\<rparr> else y) (nodes s)\<rparr>
            else s))"

section \<open>The map behind it\<close>

definition node_name :: "vrf_store \<Rightarrow> vrf_node \<Rightarrow> string option" where
  "node_name s x = key_heap s (node_key x)"

definition named_node :: "string \<Rightarrow> vrf_store \<Rightarrow> vrf_node option" where
  "named_node n s = find (\<lambda>x. node_name s x = Some n) (nodes s)"

definition store_abs :: "vrf_store \<Rightarrow> vrf_db" where
  "store_abs s = \<lparr>vrf_map = (\<lambda>n. map_option node_rec (named_node n s)),
     vrf_blocks = card (dom (key_heap s)) + live_recs s\<rparr>"

text \<open>The keys of the nodes are live, hashed, and different as pointers and as names.\<close>

definition store_inv :: "vrf_store \<Rightarrow> bool" where
  "store_inv s \<longleftrightarrow>
     (\<forall>x \<in> set (nodes s). \<exists>k. node_name s x = Some k \<and> node_hash x = vrf_key_hash k) \<and>
     distinct (map node_key (nodes s)) \<and> distinct (map (node_name s) (nodes s)) \<and>
     (\<forall>a. next_key s \<le> a \<longrightarrow> key_heap s a = None) \<and> live_recs s = card (dom (key_heap s))"

lemma bucket_find_live:
  assumes "\<forall>x \<in> set xs. \<exists>k. heap (node_key x) = Some k \<and> node_hash x = vrf_key_hash k"
  shows "bucket_find bucket n heap xs = Inr (find (\<lambda>x. heap (node_key x) = Some n) xs)"
  using assms by (induction xs) (auto simp: vrf_key_equal_def)

lemma store_find:
  "store_inv s \<Longrightarrow> bucket_find bucket n (key_heap s) (nodes s) = Inr (named_node n s)"
  unfolding named_node_def node_name_def
  by (rule bucket_find_live) (simp add: store_inv_def node_name_def)

lemma store_locate_abs: "store_inv s \<Longrightarrow> store_locate bucket n s = Inr (vrf_locate n (store_abs s))"
  by (simp add: store_locate_def store_find vrf_locate_def store_abs_def)

lemma finite_keys: "store_inv s \<Longrightarrow> finite (dom (key_heap s))"
  by (rule finite_subset [of _ "{..<next_key s}"]) (auto simp: store_inv_def dom_def not_less [symmetric])

lemma store_blocks: "store_inv s \<Longrightarrow> vrf_blocks (store_abs s) = 2 * live_recs s"
  by (simp add: store_inv_def store_abs_def)

lemma init_store: "store_inv vrf_store_init" "store_abs vrf_store_init = init_vrf_db"
  by (simp_all add: store_inv_def vrf_store_init_def store_abs_def init_vrf_db_def named_node_def fun_eq_iff)


section \<open>Every operation refines the map\<close>

lemma find_cong_set: "(\<And>x. x \<in> set xs \<Longrightarrow> P x = Q x) \<Longrightarrow> find P xs = find Q xs"
  by (induction xs) auto

lemma find_filter: "find P (filter Q xs) = find (\<lambda>x. P x \<and> Q x) xs"
  by (induction xs) auto

lemma map_cong_set: "(\<And>x. x \<in> set xs \<Longrightarrow> f x = g x) \<Longrightarrow> distinct (map f xs) = distinct (map g xs)"
  by (metis map_eq_conv)

lemma named_node_Some:
  "named_node n s = Some x \<Longrightarrow> x \<in> set (nodes s) \<and> node_name s x = Some n"
  unfolding named_node_def by (auto simp: find_Some_iff)

lemma named_node_None: "named_node n s = None \<longleftrightarrow> (\<forall>x \<in> set (nodes s). node_name s x \<noteq> Some n)"
  by (auto simp: named_node_def find_None_iff)

text \<open>The state with one more key.\<close>

definition with_key :: "string \<Rightarrow> vrf_store \<Rightarrow> vrf_store" where
  "with_key k s = s\<lparr>key_heap := (key_heap s)(next_key s \<mapsto> k), next_key := Suc (next_key s),
     live_recs := Suc (live_recs s)\<rparr>"

lemma with_key_name:
  assumes "store_inv s" "x \<in> set (nodes s)"
  shows "node_name (with_key k s) x = node_name s x" "node_key x \<noteq> next_key s"
proof -
  show "node_key x \<noteq> next_key s" using assms by (fastforce simp: store_inv_def node_name_def)
  then show "node_name (with_key k s) x = node_name s x" by (simp add: node_name_def with_key_def)
qed

lemma with_key_inv:
  assumes "store_inv s"
  shows "store_inv (with_key k s)"
proof -
  have nodes: "nodes (with_key k s) = nodes s" by (simp add: with_key_def)
  have "key_heap s (next_key s) = None" using assms by (simp add: store_inv_def)
  then have "card (dom (key_heap (with_key k s))) = Suc (card (dom (key_heap s)))"
    using finite_keys [OF assms] by (simp add: with_key_def card_insert_if domIff)
  moreover have "distinct (map (node_name (with_key k s)) (nodes s))"
    using assms map_cong_set [of "nodes s" "node_name (with_key k s)" "node_name s"]
      with_key_name(1) [OF assms] by (simp add: store_inv_def)
  ultimately show ?thesis
    using assms with_key_name(1) [OF assms] unfolding store_inv_def nodes
    by (auto simp: with_key_def)
qed

lemma with_key_abs:
  assumes "store_inv s"
  shows "vrf_map (store_abs (with_key k s)) = vrf_map (store_abs s)"
    "vrf_blocks (store_abs (with_key k s)) = vrf_blocks (store_abs s) + 2"
proof -
  have "named_node n (with_key k s) = named_node n s" for n
    unfolding named_node_def
    using find_cong_set [of "nodes s" "\<lambda>x. node_name (with_key k s) x = Some n" "\<lambda>x. node_name s x = Some n"]
      with_key_name(1) [OF assms] by (simp add: with_key_def)
  then show "vrf_map (store_abs (with_key k s)) = vrf_map (store_abs s)" by (simp add: store_abs_def)
  show "vrf_blocks (store_abs (with_key k s)) = vrf_blocks (store_abs s) + 2"
    using store_blocks [OF assms] store_blocks [OF with_key_inv [OF assms, of k]] by (simp add: with_key_def)
qed

lemma store_add_eq:
  fixes cpy :: strcopy and r :: nas_vrf_ctrl_t
  assumes "store_inv s" "k = cpy (vrf_ctrl_name r) (NAS_VRF_NAME_SZ + 1)"
  shows "store_add bucket cpy r s = Inr
    (case named_node k (with_key k s) of
       Some x \<Rightarrow> with_key k s
     | None \<Rightarrow> (with_key k s)\<lparr>nodes := \<lparr>node_key = next_key s, node_hash = vrf_key_hash k, node_rec = r\<rparr>
         # nodes (with_key k s)\<rparr>)"
  using store_find [OF with_key_inv [OF assms(1)], of bucket k k] assms(2)
  by (simp add: store_add_def Let_def with_key_def split: option.split)

lemma new_node:
  fixes r :: nas_vrf_ctrl_t and k :: string
  assumes "store_inv s" "named_node k (with_key k s) = None"
  defines "t \<equiv> (with_key k s)\<lparr>nodes := \<lparr>node_key = next_key s, node_hash = vrf_key_hash k, node_rec = r\<rparr>
      # nodes (with_key k s)\<rparr>"
  shows "store_inv t \<and> vrf_map (store_abs t) = (vrf_map (store_abs s))(k \<mapsto> r) \<and>
    vrf_blocks (store_abs t) = vrf_blocks (store_abs s) + 2"
proof -
  let ?w = "with_key k s" and ?x = "\<lparr>node_key = next_key s, node_hash = vrf_key_hash k, node_rec = r\<rparr>"
  have t: "nodes t = ?x # nodes s" "key_heap t = key_heap ?w" "next_key t = next_key ?w"
    "live_recs t = live_recs ?w" "nodes ?w = nodes s" by (simp_all add: t_def with_key_def)
  have name: "node_name t y = node_name ?w y" for y by (simp add: node_name_def t(2))
  have new: "node_name ?w ?x = Some k" by (simp add: node_name_def with_key_def)
  have w: "store_inv ?w" by (rule with_key_inv [OF assms(1)])
  have other: "\<forall>y \<in> set (nodes s). node_name ?w y \<noteq> Some k"
    using assms(2) by (simp add: named_node_None t(5))
  have keys: "\<forall>y \<in> set (nodes s). node_key y \<noteq> next_key s" using with_key_name(2) [OF assms(1)] by blast
  have inv: "store_inv t"
    using w other keys new unfolding store_inv_def t name by (auto simp: rev_image_eqI)
  have "named_node n t = (if n = k then Some ?x else named_node n ?w)" for n
    using new by (simp add: named_node_def t name)
  then have "vrf_map (store_abs t) = (vrf_map (store_abs ?w))(k \<mapsto> r)"
    by (simp add: store_abs_def fun_eq_iff)
  moreover have "vrf_blocks (store_abs t) = vrf_blocks (store_abs ?w)" by (simp add: store_abs_def t)
  ultimately show ?thesis using inv with_key_abs [OF assms(1), of k] by simp
qed

lemma store_add_refines:
  assumes "store_inv s"
  shows "\<exists>t. store_add bucket cpy r s = Inr t \<and> store_inv t \<and>
    vrf_add cpy True True r (store_abs s) = Inr (True, store_abs t)"
proof -
  let ?k = "cpy (vrf_ctrl_name r) (NAS_VRF_NAME_SZ + 1)" let ?w = "with_key ?k s"
  have here: "vrf_map (store_abs s) ?k = map_option node_rec (named_node ?k ?w)"
    using with_key_abs(1) [OF assms, of ?k] by (simp add: store_abs_def fun_eq_iff)
  show ?thesis
  proof (cases "named_node ?k ?w")
    case None
    from new_node [OF assms None, of r] show ?thesis
      using here None by (auto simp: store_add_eq [OF assms refl] vrf_add_def Let_def intro!: vrf_db.equality)
  next
    case (Some x)
    then show ?thesis
      using here with_key_inv [OF assms, of ?k] with_key_abs [OF assms, of ?k]
      by (auto simp: store_add_eq [OF assms refl] vrf_add_def Let_def intro!: vrf_db.equality)
  qed
qed


text \<open>The state without a node and its key.\<close>

definition without_node :: "vrf_node \<Rightarrow> vrf_store \<Rightarrow> vrf_store" where
  "without_node x s = s\<lparr>key_heap := (key_heap s)(node_key x := None),
     nodes := filter (\<lambda>y. node_key y \<noteq> node_key x) (nodes s), live_recs := live_recs s - 1\<rparr>"

lemma store_cleanup_eq:
  assumes "store_inv s"
  shows "store_cleanup rehash bucket r s =
    (case named_node (vrf_ctrl_name r) s of
       None \<Rightarrow> Inr s
     | Some x \<Rightarrow> if rehash then Inl Use_After_Free else Inr (without_node x s))"
  using store_find [OF assms]
  by (simp add: store_cleanup_def store_erase_def without_node_def split: option.split)

lemma without_node_inv:
  assumes "store_inv s" "x \<in> set (nodes s)"
  shows "store_inv (without_node x s)"
proof -
  have name: "node_name (without_node x s) y = node_name s y" if "node_key y \<noteq> node_key x" for y
    using that by (simp add: node_name_def without_node_def)
  obtain k where k: "key_heap s (node_key x) = Some k"
    using assms by (auto simp: store_inv_def node_name_def)
  then have "card (dom (key_heap (without_node x s))) = card (dom (key_heap s)) - 1"
    by (simp add: without_node_def card_Diff_singleton domIff)
  moreover have "distinct (map (node_name (without_node x s)) (nodes (without_node x s)))"
    using assms(1) map_cong_set [of "nodes (without_node x s)" "node_name (without_node x s)" "node_name s"] name
    by (simp add: store_inv_def without_node_def distinct_map_filter)
  ultimately show ?thesis
    using assms(1) name unfolding store_inv_def
    by (auto simp: without_node_def distinct_map_filter)
qed

lemma without_node_abs:
  assumes "store_inv s" "named_node n s = Some x"
  shows "vrf_map (store_abs (without_node x s)) = (vrf_map (store_abs s))(n := None)"
    "vrf_blocks (store_abs (without_node x s)) = vrf_blocks (store_abs s) - 2"
proof -
  have x: "x \<in> set (nodes s)" "node_name s x = Some n" using named_node_Some [OF assms(2)] by simp_all
  have same: "y = x" if "y \<in> set (nodes s)" "node_name s y = Some n" for y
    using assms(1) that x by (auto simp: store_inv_def distinct_map inj_on_def)
  have keys: "y = x" if "y \<in> set (nodes s)" "node_key y = node_key x" for y
    using assms(1) that x by (auto simp: store_inv_def distinct_map inj_on_def)
  have name: "node_name (without_node x s) y = node_name s y" if "node_key y \<noteq> node_key x" for y
    using that by (simp add: node_name_def without_node_def)
  have "named_node m (without_node x s) = (if m = n then None else named_node m s)" for m
  proof -
    have "named_node m (without_node x s) =
        find (\<lambda>y. node_name (without_node x s) y = Some m \<and> node_key y \<noteq> node_key x) (nodes s)"
      by (simp add: named_node_def without_node_def find_filter)
    also have "\<dots> = find (\<lambda>y. node_name s y = Some m \<and> m \<noteq> n) (nodes s)"
    proof (rule find_cong_set)
      fix y assume y: "y \<in> set (nodes s)"
      show "(node_name (without_node x s) y = Some m \<and> node_key y \<noteq> node_key x) =
          (node_name s y = Some m \<and> m \<noteq> n)"
      proof (cases "y = x")
        case True
        then show ?thesis using x by simp
      next
        case False
        then have "node_key y \<noteq> node_key x" "node_name s y \<noteq> Some n" using keys [OF y] same [OF y] by blast+
        then show ?thesis using name [of y] by auto
      qed
    qed
    also have "\<dots> = (if m = n then None else named_node m s)"
      by (simp add: named_node_def find_None_iff)
    finally show ?thesis .
  qed
  then show "vrf_map (store_abs (without_node x s)) = (vrf_map (store_abs s))(n := None)"
    by (simp add: store_abs_def fun_eq_iff)
  show "vrf_blocks (store_abs (without_node x s)) = vrf_blocks (store_abs s) - 2"
    using store_blocks [OF assms(1)] store_blocks [OF without_node_inv [OF assms(1) x(1)]]
    by (simp add: without_node_def)
qed

lemma store_cleanup_refines:
  assumes "store_inv s"
  shows "\<exists>t. store_cleanup False bucket r s = Inr t \<and> store_inv t \<and>
    store_abs t = vrf_cleanup r (store_abs s)"
proof (cases "named_node (vrf_ctrl_name r) s")
  case None
  then show ?thesis using assms
    by (simp add: store_cleanup_eq vrf_cleanup_def) (simp add: store_abs_def)
next
  case (Some x)
  have "vrf_map (store_abs s) (vrf_ctrl_name r) = Some (node_rec x)" using Some by (simp add: store_abs_def)
  then have "store_abs (without_node x s) = vrf_cleanup r (store_abs s)"
    using without_node_abs [OF assms Some] by (intro vrf_db.equality) (simp_all add: vrf_cleanup_def)
  then show ?thesis
    using Some without_node_inv [OF assms] named_node_Some [OF Some] by (simp add: store_cleanup_eq [OF assms])
qed

text \<open>A change of records that leaves the keys of the nodes alone.\<close>

definition change_nodes :: "(vrf_node \<Rightarrow> vrf_node) \<Rightarrow> vrf_store \<Rightarrow> vrf_store" where
  "change_nodes f s = s\<lparr>nodes := map f (nodes s)\<rparr>"

lemma find_map_eq: "find P (map f xs) = map_option f (find (\<lambda>x. P (f x)) xs)"
  by (induction xs) auto

lemma change_nodes_facts:
  assumes "store_inv s" "\<And>y. node_key (f y) = node_key y" "\<And>y. node_hash (f y) = node_hash y"
  shows "store_inv (change_nodes f s)" "named_node n (change_nodes f s) = map_option f (named_node n s)"
    "vrf_blocks (store_abs (change_nodes f s)) = vrf_blocks (store_abs s)"
proof -
  have name: "node_name (change_nodes f s) (f y) = node_name s y" for y
    by (simp add: node_name_def change_nodes_def assms(2))
  have maps: "map (node_name (change_nodes f s)) (nodes (change_nodes f s)) = map (node_name s) (nodes s)"
    "map node_key (nodes (change_nodes f s)) = map node_key (nodes s)"
    using name by (simp_all add: change_nodes_def assms(2))
  have "\<forall>x \<in> set (nodes (change_nodes f s)).
      \<exists>k. node_name (change_nodes f s) x = Some k \<and> node_hash x = vrf_key_hash k"
    using assms(1) name by (auto simp: store_inv_def change_nodes_def assms(3))
  moreover have "key_heap (change_nodes f s) = key_heap s" "next_key (change_nodes f s) = next_key s"
    "live_recs (change_nodes f s) = live_recs s" by (simp_all add: change_nodes_def)
  ultimately show "store_inv (change_nodes f s)"
    using assms(1) unfolding store_inv_def maps by simp
  show "named_node n (change_nodes f s) = map_option f (named_node n s)"
    using name by (simp add: named_node_def change_nodes_def find_map_eq)
  show "vrf_blocks (store_abs (change_nodes f s)) = vrf_blocks (store_abs s)"
    by (simp add: store_abs_def change_nodes_def)
qed

lemma store_update_refines:
  assumes "store_inv s"
  shows "\<exists>b t. store_update bucket r s = Inr (b, t) \<and> store_inv t \<and> vrf_update r (store_abs s) = (b, store_abs t)"
proof (cases "named_node (vrf_ctrl_name r) s")
  case None
  then show ?thesis using assms
    by (auto simp: store_update_def store_find vrf_update_def vrf_locate_def store_abs_def)
next
  case (Some x)
  let ?n = "vrf_ctrl_name r"
  define f :: "vrf_node \<Rightarrow> vrf_node" where "f y = (if node_key y = node_key x
    then y\<lparr>node_rec := (node_rec y)\<lparr>vrf_int_id := vrf_int_id r\<rparr>\<rparr> else y)" for y
  have run: "store_update bucket r s = Inr (True, if vrf_int_id r \<noteq> 0 then change_nodes f s else s)"
    using Some by (simp add: store_update_def store_find [OF assms] change_nodes_def f_def)
  have "f y = y" if "named_node m s = Some y" "m \<noteq> ?n" for m y
    using named_node_Some [OF that(1)] named_node_Some [OF Some] that(2) by (auto simp: f_def node_name_def)
  then have "map_option f (named_node m s) =
      (if m = ?n then Some (x\<lparr>node_rec := (node_rec x)\<lparr>vrf_int_id := vrf_int_id r\<rparr>\<rparr>) else named_node m s)" for m
    using Some by (cases "named_node m s") (auto simp: f_def)
  moreover have facts: "store_inv (change_nodes f s)"
    "\<And>m. named_node m (change_nodes f s) = map_option f (named_node m s)"
    "vrf_blocks (store_abs (change_nodes f s)) = vrf_blocks (store_abs s)"
    by (rule change_nodes_facts [OF assms]; simp add: f_def)+
  ultimately have abs: "store_abs (change_nodes f s) = (store_abs s)\<lparr>vrf_map :=
      (vrf_map (store_abs s))(?n \<mapsto> (node_rec x)\<lparr>vrf_int_id := vrf_int_id r\<rparr>)\<rparr>"
    by (intro vrf_db.equality) (auto simp: store_abs_def fun_eq_iff)
  have "vrf_map (store_abs s) ?n = Some (node_rec x)" using Some by (simp add: store_abs_def)
  then have "vrf_update r (store_abs s) =
      (True, store_abs (if vrf_int_id r \<noteq> 0 then change_nodes f s else s))"
    by (simp add: vrf_update_def vrf_locate_def abs)
  moreover have "store_inv (if vrf_int_id r \<noteq> 0 then change_nodes f s else s)" using facts(1) assms by simp
  ultimately show ?thesis using run by blast
qed

section \<open>Histories\<close>

text \<open>A sequence of additions and deletions; the container has buckets of its own at every call.\<close>

fun store_run ::
  "bool \<Rightarrow> (nat \<Rightarrow> u64 \<Rightarrow> nat) \<Rightarrow> strcopy \<Rightarrow> (string, u32 \<times> u64) kt_op list \<Rightarrow> vrf_store \<Rightarrow> fault + vrf_store" where
  "store_run rehash bs cpy [] s = Inr s"
| "store_run rehash bs cpy (x # xs) s =
     (case (case x of
              Put n v \<Rightarrow> store_add (bs (length xs)) cpy (vrf_ctrl n v) s
            | Del n \<Rightarrow> store_cleanup rehash (bs (length xs)) (vrf_ctrl n (0, 0)) s) of
        Inl f \<Rightarrow> Inl f
      | Inr t \<Rightarrow> store_run rehash bs cpy xs t)"

lemma store_run_refines:
  "store_inv s \<Longrightarrow> \<exists>t. store_run False bs cpy xs s = Inr t \<and> store_inv t \<and>
     vrf_run cpy xs (store_abs s) = Inr (store_abs t)"
proof (induction xs arbitrary: s)
  case (Cons x xs)
  show ?case
  proof (cases x)
    case (Put n v)
    obtain t where t: "store_add (bs (length xs)) cpy (vrf_ctrl n v) s = Inr t" "store_inv t"
      "vrf_add cpy True True (vrf_ctrl n v) (store_abs s) = Inr (True, store_abs t)"
      using store_add_refines [OF Cons.prems] by blast
    then show ?thesis using Cons.IH [OF t(2)] by (simp add: Put nas_update_vrf_info_def)
  next
    case (Del n)
    obtain t where t: "store_cleanup False (bs (length xs)) (vrf_ctrl n (0, 0)) s = Inr t" "store_inv t"
      "store_abs t = vrf_cleanup (vrf_ctrl n (0, 0)) (store_abs s)"
      using store_cleanup_refines [OF Cons.prems] by blast
    then show ?thesis using Cons.IH [OF t(2)] by (simp add: Del nas_update_vrf_info_def)
  qed
qed simp


text \<open>A sequence that deletes a name which is in the table at that point.\<close>

fun frees_entry :: "strcopy \<Rightarrow> (string, u32 \<times> u64) kt_op list \<Rightarrow> vrf_db \<Rightarrow> bool" where
  "frees_entry cpy [] s \<longleftrightarrow> False"
| "frees_entry cpy (x # xs) s \<longleftrightarrow>
     (case x of
        Put n v \<Rightarrow> frees_entry cpy xs (snd (projr (vrf_add cpy True True (vrf_ctrl n v) s)))
      | Del n \<Rightarrow> vrf_locate n s \<noteq> None \<or> frees_entry cpy xs s)"

lemma located_node: "vrf_locate n (store_abs s) = map_option node_rec (named_node n s)"
  by (simp add: vrf_locate_def store_abs_def)

lemma store_run_rehash:
  "store_inv s \<Longrightarrow> store_run True bs cpy xs s =
     (if frees_entry cpy xs (store_abs s) then Inl Use_After_Free else store_run False bs cpy xs s)"
proof (induction xs arbitrary: s)
  case (Cons x xs)
  show ?case
  proof (cases x)
    case (Put n v)
    obtain t where t: "store_add (bs (length xs)) cpy (vrf_ctrl n v) s = Inr t" "store_inv t"
      "vrf_add cpy True True (vrf_ctrl n v) (store_abs s) = Inr (True, store_abs t)"
      using store_add_refines [OF Cons.prems] by blast
    then show ?thesis using Cons.IH [OF t(2)] by (simp add: Put)
  next
    case (Del n)
    have name: "vrf_ctrl_name (vrf_ctrl n (0, 0)) = n" by (simp add: vrf_ctrl_def)
    show ?thesis
      using Cons.IH [OF Cons.prems] Cons.prems
      by (cases "named_node n s") (simp_all add: Del store_cleanup_eq name located_node)
  qed
qed simp

text \<open>C35: The table of pointers to keys, with the hash and the comparison of the file and buckets of
  any kind at any time, refines the map from names: after every sequence of additions and
  deletions with memory available it answers every lookup as the map does and has as many live blocks, as long as the
  container erases a node without its key. A container that hashes the key of the node again reads
  freed memory at the first deletion of a name that is in the table, because the deletion frees
  the key before it erases the node.\<close>

theorem vrf_store_refines:
  "(\<exists>t. store_run False bs cpy xs vrf_store_init = Inr t \<and>
      vrf_run cpy xs init_vrf_db = Inr (store_abs t) \<and>
      (\<forall>bucket n. store_locate bucket n t = Inr (vrf_locate n (store_abs t)))) \<and>
   store_run True bs cpy xs vrf_store_init =
     (if frees_entry cpy xs init_vrf_db then Inl Use_After_Free else store_run False bs cpy xs vrf_store_init)"
  using store_run_refines [OF init_store(1), of bs cpy xs] store_run_rehash [OF init_store(1), of bs cpy xs]
    store_locate_abs by (auto simp: init_store(2))

end
