(* ===== verification/RwLock.thy ===== *)
theory RwLock
  imports Prelude
begin

text \<open>
  Threads that call an interface whose functions hold a read or a write guard while they work on
  shared variables, as the interface table, the VRF table and the bridge table do
  (\<open>std_rw_lock_write_guard\<close>, \<open>std_rw_lock_read_guard\<close>, \<open>std_mutex_simple_lock_guard\<close>).
  A call is a program of single accesses, a thread makes its calls one after the other, and the
  threads interleave access by access. The lock belongs to the platform library: it is the
  parameter \<open>grants\<close>, of which the documented behaviour is assumed. \<open>GuardedApi\<close> has what an
  interface gains from its guards.
\<close>

section \<open>Programs\<close>

text \<open>
  \<open>Rd l f\<close> reads at the location \<open>l\<close> and goes on with what it has read, \<open>Wr l g p\<close> updates the
  location \<open>l\<close>, \<open>Ret r\<close> leaves the function with the result \<open>r\<close>.
\<close>

datatype ('l, 's, 'r) prog =
    Ret 'r
  | Rd 'l "'s \<Rightarrow> ('l, 's, 'r) prog"
  | Wr 'l "'s \<Rightarrow> 's" "('l, 's, 'r) prog"

text \<open>A program that nobody interrupts.\<close>

primrec run_prog :: "('l, 's, 'r) prog \<Rightarrow> 's \<Rightarrow> 'r \<times> 's" where
  "run_prog (Ret r) = (\<lambda>s. (r, s))"
| "run_prog (Rd l f) = (\<lambda>s. run_prog (f s) s)"
| "run_prog (Wr l g p) = (\<lambda>s. run_prog p (g s))"

primrec bind_prog :: "('l, 's, 'a) prog \<Rightarrow> ('a \<Rightarrow> ('l, 's, 'r) prog) \<Rightarrow> ('l, 's, 'r) prog" where
  "bind_prog (Ret r) k = k r"
| "bind_prog (Rd l f) k = Rd l (\<lambda>s. bind_prog (f s) k)"
| "bind_prog (Wr l g p) k = Wr l g (bind_prog p k)"

abbreviation look :: "'l \<Rightarrow> ('s \<Rightarrow> 'a) \<Rightarrow> ('l, 's, 'a) prog" where
  "look l f \<equiv> Rd l (\<lambda>s. Ret (f s))"

lemma run_bind [simp]:
  "run_prog (bind_prog p k) s = run_prog (k (fst (run_prog p s))) (snd (run_prog p s))"
  by (induction p arbitrary: s) auto

lemma bind_assoc: "bind_prog (bind_prog p f) g = bind_prog p (\<lambda>r. bind_prog (f r) g)"
  by (induction p) auto

text \<open>The program does not write as long as it reads states of \<open>Q\<close>; its writes keep \<open>Q\<close>.\<close>

primrec reads_only :: "('s \<Rightarrow> bool) \<Rightarrow> ('l, 's, 'r) prog \<Rightarrow> bool" where
  "reads_only Q (Ret r) = True"
| "reads_only Q (Rd l f) = (\<forall>s. Q s \<longrightarrow> reads_only Q (f s))"
| "reads_only Q (Wr l g p) = False"

primrec keeps :: "('s \<Rightarrow> bool) \<Rightarrow> ('l, 's, 'r) prog \<Rightarrow> bool" where
  "keeps Q (Ret r) = True"
| "keeps Q (Rd l f) = (\<forall>s. keeps Q (f s))"
| "keeps Q (Wr l g p) = ((\<forall>s. Q s \<longrightarrow> Q (g s)) \<and> keeps Q p)"

lemma reads_only_run: "reads_only Q p \<Longrightarrow> Q s \<Longrightarrow> snd (run_prog p s) = s"
  by (induction p) auto

lemma reads_only_bind:
  "reads_only Q p \<Longrightarrow> (\<And>r. reads_only Q (k r)) \<Longrightarrow> reads_only Q (bind_prog p k)"
  by (induction p) auto

lemma keeps_bind: "keeps Q p \<Longrightarrow> (\<And>r. keeps Q (k r)) \<Longrightarrow> keeps Q (bind_prog p k)"
  by (induction p) auto

section \<open>Threads\<close>

text \<open>\<open>Unguarded\<close> is a call that leaves before it asks for the lock, or that never asks.\<close>

datatype lock_mode = Unguarded | Shared | Exclusive

datatype ('o, 'l, 's, 'r) activity =
    Idle
  | In_call 'o lock_mode "('l, 's, 'r) prog"

record ('o, 'l, 's, 'r) thread =
  todo :: "'o list"
  now :: "('o, 'l, 's, 'r) activity"

record ('o, 'l, 's, 'r) system =
  threads :: "('o, 'l, 's, 'r) thread list"
  mem :: 's
  history :: "(nat \<times> 'o \<times> 'r) list"

definition guard_of :: "('o, 'l, 's, 'r) thread \<Rightarrow> lock_mode option" where
  "guard_of th = (case now th of Idle \<Rightarrow> None
     | In_call x m p \<Rightarrow> if m = Unguarded then None else Some m)"

definition guards_held :: "('o, 'l, 's, 'r) system \<Rightarrow> lock_mode list" where
  "guards_held c = List.map_filter guard_of (threads c)"

text \<open>
  What the documentation of read-write locks says: a free lock is granted, a write guard only
  when nobody holds a guard, a read guard only when nobody holds a write guard. Whether a waiting
  writer goes before new readers is left open. A mutex behaves like this too.
\<close>

definition rw_lock_contract :: "(lock_mode \<Rightarrow> lock_mode list \<Rightarrow> bool) \<Rightarrow> bool" where
  "rw_lock_contract grants \<longleftrightarrow> (\<forall>m. grants m []) \<and>
     (\<forall>H. grants Exclusive H \<longrightarrow> H = []) \<and> (\<forall>H. grants Shared H \<longrightarrow> Exclusive \<notin> set H)"

text \<open>A read-write lock that lets readers in together.\<close>

definition rw_grants :: "lock_mode \<Rightarrow> lock_mode list \<Rightarrow> bool" where
  "rw_grants m H = (if m = Exclusive then H = [] else Exclusive \<notin> set H)"

lemma rw_grants_contract: "rw_lock_contract rw_grants"
  by (simp add: rw_lock_contract_def rw_grants_def)

text \<open>
  One step of the thread \<open>i\<close>: it enters its next call when the guard is granted, makes the next
  access of its call, or leaves the call, which releases the guard.
\<close>

definition thread_step ::
  "(lock_mode \<Rightarrow> lock_mode list \<Rightarrow> bool) \<Rightarrow> ('o \<Rightarrow> lock_mode \<times> ('l, 's, 'r) prog) \<Rightarrow> nat
     \<Rightarrow> ('o, 'l, 's, 'r) system \<Rightarrow> ('o, 'l, 's, 'r) system option" where
  "thread_step grants enter i c =
     (if i < length (threads c) then
        (let th = threads c ! i in
         case now th of
           Idle \<Rightarrow>
             (case todo th of [] \<Rightarrow> None
              | x # xs \<Rightarrow> (case enter x of (m, p) \<Rightarrow>
                  if m = Unguarded \<or> grants m (guards_held c)
                  then Some (c\<lparr>threads := (threads c)[i := \<lparr>todo = xs, now = In_call x m p\<rparr>]\<rparr>)
                  else None))
         | In_call x m p \<Rightarrow>
             (case p of
                Ret r \<Rightarrow> Some (c\<lparr>threads := (threads c)[i := th\<lparr>now := Idle\<rparr>],
                                  history := history c @ [(i, x, r)]\<rparr>)
              | Rd l f \<Rightarrow>
                  Some (c\<lparr>threads := (threads c)[i := th\<lparr>now := In_call x m (f (mem c))\<rparr>]\<rparr>)
              | Wr l g p' \<Rightarrow>
                  Some (c\<lparr>threads := (threads c)[i := th\<lparr>now := In_call x m p'\<rparr>],
                          mem := g (mem c)\<rparr>)))
      else None)"

definition start_system :: "'o list list \<Rightarrow> 's \<Rightarrow> ('o, 'l, 's, 'r) system" where
  "start_system tds s = \<lparr>threads = map (\<lambda>xs. \<lparr>todo = xs, now = Idle\<rparr>) tds, mem = s, history = []\<rparr>"

inductive par_reach ::
  "(lock_mode \<Rightarrow> lock_mode list \<Rightarrow> bool) \<Rightarrow> ('o \<Rightarrow> lock_mode \<times> ('l, 's, 'r) prog)
     \<Rightarrow> ('o, 'l, 's, 'r) system \<Rightarrow> ('o, 'l, 's, 'r) system \<Rightarrow> bool"
  for grants enter c0 where
  start: "par_reach grants enter c0 c0"
| step: "par_reach grants enter c0 c \<Longrightarrow> thread_step grants enter i c = Some c' \<Longrightarrow>
    par_reach grants enter c0 c'"

text \<open>A schedule: the threads that step, in order.\<close>

fun run_schedule ::
  "(lock_mode \<Rightarrow> lock_mode list \<Rightarrow> bool) \<Rightarrow> ('o \<Rightarrow> lock_mode \<times> ('l, 's, 'r) prog) \<Rightarrow> nat list
     \<Rightarrow> ('o, 'l, 's, 'r) system \<Rightarrow> ('o, 'l, 's, 'r) system option" where
  "run_schedule grants enter [] c = Some c"
| "run_schedule grants enter (i # is) c =
     (case thread_step grants enter i c of None \<Rightarrow> None | Some c' \<Rightarrow> run_schedule grants enter is c')"

lemma par_reach_trans:
  "par_reach grants enter c1 c2 \<Longrightarrow> par_reach grants enter c0 c1 \<Longrightarrow> par_reach grants enter c0 c2"
  by (induction rule: par_reach.induct) (auto intro: par_reach.step)

lemma run_schedule_reach:
  "run_schedule grants enter is c = Some c' \<Longrightarrow> par_reach grants enter c c'"
proof (induction "is" arbitrary: c)
  case Nil
  then show ?case by (simp add: par_reach.start)
next
  case (Cons i "is")
  then obtain c1 where 1: "thread_step grants enter i c = Some c1"
    "run_schedule grants enter is c1 = Some c'"
    by (auto split: option.splits)
  show ?case
    using par_reach_trans [OF Cons.IH [OF 1(2)] par_reach.step [OF par_reach.start 1(1)]] .
qed

text \<open>
  A data race: two threads are about to access the same location and one of them writes.
\<close>

definition next_access :: "('o, 'l, 's, 'r) thread \<Rightarrow> ('l \<times> bool) option" where
  "next_access th = (case now th of Idle \<Rightarrow> None
     | In_call x m p \<Rightarrow> (case p of Ret r \<Rightarrow> None | Rd l f \<Rightarrow> Some (l, False) | Wr l g p' \<Rightarrow> Some (l, True)))"

definition conflict :: "('l \<times> bool) option \<Rightarrow> ('l \<times> bool) option \<Rightarrow> bool" where
  "conflict a b = (case (a, b) of (Some (l, w), Some (l', w')) \<Rightarrow> l = l' \<and> (w \<or> w') | _ \<Rightarrow> False)"

definition race :: "('o, 'l, 's, 'r) system \<Rightarrow> bool" where
  "race c \<longleftrightarrow> (\<exists>i < length (threads c). \<exists>j < length (threads c). i \<noteq> j \<and>
     conflict (next_access (threads c ! i)) (next_access (threads c ! j)))"

lemma conflict_sym: "conflict a b = conflict b a"
  by (auto simp: conflict_def split: option.split)

lemma raceI:
  "i < length (threads c) \<Longrightarrow> j < length (threads c) \<Longrightarrow> i \<noteq> j \<Longrightarrow>
    conflict (next_access (threads c ! i)) (next_access (threads c ! j)) \<Longrightarrow> race c"
  by (auto simp: race_def)

text \<open>Two readers, of which one finds that it has to write where the other one reads.\<close>

lemma upgrade_race:
  assumes "enter x = (Shared, Rd l (\<lambda>s. if P s then k else Wr l u k))" "enter y = (Shared, Rd l f)"
    "\<not> P s0" "grants Shared []" "grants Shared [Shared]"
  shows "\<exists>c. par_reach grants enter (start_system [[x], [y]] s0) c \<and> race c"
proof -
  define d where "d = \<lparr>threads = [\<lparr>todo = [], now = In_call x Shared (Wr l u k)\<rparr>,
      \<lparr>todo = [], now = In_call y Shared (Rd l f)\<rparr>], mem = s0, history = []\<rparr>"
  have "run_schedule grants enter [0, 0, 1] (start_system [[x], [y]] s0) = Some d"
    using assms by (simp add: start_system_def thread_step_def d_def guards_held_def guard_of_def map_filter_def)
  moreover have "race d"
    by (rule raceI [of 0 _ 1]) (simp_all add: d_def next_access_def conflict_def)
  ultimately show ?thesis using run_schedule_reach by blast
qed

section \<open>Steps\<close>

lemma thread_step_cases:
  assumes "thread_step grants enter i c = Some c'"
  obtains
    (enters) x xs m p where "i < length (threads c)" "now (threads c ! i) = Idle"
      "todo (threads c ! i) = x # xs" "enter x = (m, p)"
      "m = Unguarded \<or> grants m (guards_held c)"
      "c' = c\<lparr>threads := (threads c)[i := \<lparr>todo = xs, now = In_call x m p\<rparr>]\<rparr>"
  | (leaves) x m r where "i < length (threads c)" "now (threads c ! i) = In_call x m (Ret r)"
      "c' = c\<lparr>threads := (threads c)[i := (threads c ! i)\<lparr>now := Idle\<rparr>],
              history := history c @ [(i, x, r)]\<rparr>"
  | (reads) x m l f where "i < length (threads c)" "now (threads c ! i) = In_call x m (Rd l f)"
      "c' = c\<lparr>threads := (threads c)[i := (threads c ! i)\<lparr>now := In_call x m (f (mem c))\<rparr>]\<rparr>"
  | (writes) x m l g p where "i < length (threads c)" "now (threads c ! i) = In_call x m (Wr l g p)"
      "c' = c\<lparr>threads := (threads c)[i := (threads c ! i)\<lparr>now := In_call x m p\<rparr>],
              mem := g (mem c)\<rparr>"
  using assms
  by (auto simp: thread_step_def Let_def
      split: if_splits activity.splits list.splits prog.splits prod.splits)

lemma guards_held_none:
  "guards_held c = [] \<Longrightarrow> i < length (threads c) \<Longrightarrow> guard_of (threads c ! i) = None"
  by (auto simp: guards_held_def map_filter_def filter_empty_conv)

lemma guards_held_in:
  "m \<notin> set (guards_held c) \<Longrightarrow> i < length (threads c) \<Longrightarrow> guard_of (threads c ! i) \<noteq> Some m"
  by (auto simp: guards_held_def map_filter_def image_iff) (metis nth_mem option.distinct(1) option.sel)

text \<open>Mutual exclusion: a write guard is alone.\<close>

definition exclusive_alone :: "('o, 'l, 's, 'r) system \<Rightarrow> bool" where
  "exclusive_alone c \<longleftrightarrow> (\<forall>i < length (threads c). \<forall>j < length (threads c).
     i \<noteq> j \<longrightarrow> guard_of (threads c ! i) = Some Exclusive \<longrightarrow> guard_of (threads c ! j) = None)"

lemma exclusive_alone_less:
  assumes "exclusive_alone c" "length (threads c') = length (threads c)"
    "\<And>j. j < length (threads c) \<Longrightarrow> guard_of (threads c' ! j) \<in> {None, guard_of (threads c ! j)}"
  shows "exclusive_alone c'"
  using assms unfolding exclusive_alone_def by (metis insert_iff option.distinct(1) singletonD)

lemma guard_of_simps [simp]:
  "guard_of \<lparr>todo = xs, now = In_call x m p\<rparr> = (if m = Unguarded then None else Some m)"
  "guard_of (th\<lparr>now := In_call x m p\<rparr>) = (if m = Unguarded then None else Some m)"
  "guard_of (th\<lparr>now := Idle\<rparr>) = None"
  "now th = In_call x m p \<Longrightarrow> guard_of th = (if m = Unguarded then None else Some m)"
  "now th = Idle \<Longrightarrow> guard_of th = None"
  by (simp_all add: guard_of_def)

lemma exclusive_alone_enters:
  assumes lock: "rw_lock_contract grants" and inv: "exclusive_alone c"
    and g: "m = Unguarded \<or> grants m (guards_held c)" and i: "i < length (threads c)"
  shows "exclusive_alone (c\<lparr>threads := (threads c)[i := \<lparr>todo = xs, now = In_call x m p\<rparr>]\<rparr>)"
proof (cases m)
  case Unguarded
  then show ?thesis
    by (intro exclusive_alone_less [OF inv]) (use i in \<open>auto simp: nth_list_update split: if_splits\<close>)
next
  case Shared
  then have "guard_of (threads c ! j) \<noteq> Some Exclusive" if "j < length (threads c)" for j
    using g that lock guards_held_in [of Exclusive c j] by (auto simp: rw_lock_contract_def)
  then show ?thesis
    using Shared i by (auto simp: exclusive_alone_def nth_list_update)
next
  case Exclusive
  then have "guard_of (threads c ! j) = None" if "j < length (threads c)" for j
    using g that lock guards_held_none [of c j] by (auto simp: rw_lock_contract_def)
  then show ?thesis
    using i by (auto simp: exclusive_alone_def nth_list_update)
qed

lemma exclusive_alone_step:
  assumes lock: "rw_lock_contract grants" and step: "thread_step grants enter i c = Some c'"
    and inv: "exclusive_alone c"
  shows "exclusive_alone c'"
  using step
proof (cases rule: thread_step_cases)
  case (enters x xs m p)
  show ?thesis
    unfolding enters(6) using lock inv enters(5,1) by (rule exclusive_alone_enters)
qed (auto intro!: exclusive_alone_less [OF inv] simp: nth_list_update split: if_splits)

lemma exclusive_alone_reach:
  "par_reach grants enter (start_system tds s) c \<Longrightarrow> rw_lock_contract grants \<Longrightarrow> exclusive_alone c"
proof (induction rule: par_reach.induct)
  case start
  show ?case by (auto simp: exclusive_alone_def start_system_def)
next
  case (step c i c')
  then show ?case by (blast intro: exclusive_alone_step)
qed

end
