(* ===== verification/GuardedApi.thy ===== *)
theory GuardedApi
  imports RwLock
begin

text \<open>
  What an interface gains whose functions under a read guard do not write: every interleaving is
  a sequence of whole calls in the order in which they leave, and no two accesses collide. For
  functions without a guard the last section bounds what they can touch.
\<close>

section \<open>Calls that nobody interrupts\<close>

definition call_alone :: "('o \<Rightarrow> lock_mode \<times> ('l, 's, 'r) prog) \<Rightarrow> 'o \<Rightarrow> 's \<Rightarrow> 'r \<times> 's" where
  "call_alone enter x = run_prog (snd (enter x))"

fun run_serial :: "('o \<Rightarrow> lock_mode \<times> ('l, 's, 'r) prog) \<Rightarrow> 'o list \<Rightarrow> 's \<Rightarrow> 'r list \<times> 's" where
  "run_serial enter [] s = ([], s)"
| "run_serial enter (x # xs) s =
     (case call_alone enter x s of (r, s1) \<Rightarrow> (case run_serial enter xs s1 of (rs, s2) \<Rightarrow> (r # rs, s2)))"

lemma run_serial_snoc:
  "run_serial enter (xs @ [x]) s =
     (case run_serial enter xs s of (rs, s1) \<Rightarrow> (case call_alone enter x s1 of (r, s2) \<Rightarrow> (rs @ [r], s2)))"
  by (induction xs arbitrary: s) (auto split: prod.split)

text \<open>The calls of the history, in the order in which they left, and their results.\<close>

definition past_calls :: "('o, 'l, 's, 'r) system \<Rightarrow> 'o list" where
  "past_calls c = map (fst \<circ> snd) (history c)"

definition answers :: "('o, 'l, 's, 'r) system \<Rightarrow> 'r list" where
  "answers c = map (snd \<circ> snd) (history c)"

definition calls_of :: "nat \<Rightarrow> ('o, 'l, 's, 'r) system \<Rightarrow> 'o list" where
  "calls_of i c = map (fst \<circ> snd) (filter (\<lambda>e. fst e = i) (history c))"

definition no_writer :: "('o, 'l, 's, 'r) system \<Rightarrow> bool" where
  "no_writer c \<longleftrightarrow> (\<forall>th \<in> set (threads c). guard_of th \<noteq> Some Exclusive)"

lemma no_writer_nth:
  "no_writer c \<longleftrightarrow> (\<forall>i < length (threads c). guard_of (threads c ! i) \<noteq> Some Exclusive)"
  by (auto simp: no_writer_def set_conv_nth)

definition pending_of :: "('o, 'l, 's, 'r) thread \<Rightarrow> 'o list" where
  "pending_of th = (case now th of Idle \<Rightarrow> todo th | In_call x m p \<Rightarrow> x # todo th)"

text \<open>Each thread's calls leave in the order in which it makes them.\<close>

lemma program_order:
  assumes "par_reach grants enter (start_system tds s) c"
  shows "length (threads c) = length tds \<and>
    (\<forall>i < length tds. calls_of i c @ pending_of (threads c ! i) = tds ! i)"
  using assms
proof (induction rule: par_reach.induct)
  case start
  show ?case by (simp add: start_system_def calls_of_def pending_of_def)
next
  case (step c i c')
  have "calls_of j c' @ pending_of (threads c' ! j) = calls_of j c @ pending_of (threads c ! j)"
    if "j < length (threads c)" for j
    using step.hyps(2) that
    by (cases rule: thread_step_cases)
      (auto simp: calls_of_def pending_of_def nth_list_update split: activity.split)
  moreover have "length (threads c') = length (threads c)"
    using step.hyps(2) by (cases rule: thread_step_cases) auto
  ultimately show ?case using step.IH by simp
qed

section \<open>What the guards give\<close>

text \<open>
  \<open>allowed\<close> are the calls considered and \<open>quiet\<close> a property of the shared variables that all of
  them keep and under which a call with a read guard does not write.
\<close>

locale guarded_api =
  fixes enter :: "'o \<Rightarrow> lock_mode \<times> ('l, 's, 'r) prog"
    and allowed :: "'o \<Rightarrow> bool"
    and quiet :: "'s \<Rightarrow> bool"
  assumes unguarded_local: "allowed x \<Longrightarrow> enter x = (Unguarded, p) \<Longrightarrow> \<exists>r. p = Ret r"
    and shared_reads: "allowed x \<Longrightarrow> enter x = (Shared, p) \<Longrightarrow> reads_only quiet p"
    and quiet_kept: "allowed x \<Longrightarrow> enter x = (m, p) \<Longrightarrow> keeps quiet p"
begin

text \<open>What holds of a thread: \<open>s0\<close> is the state that the calls of the history lead to.\<close>

definition call_ok :: "'s \<Rightarrow> 's \<Rightarrow> ('o, 'l, 's, 'r) thread \<Rightarrow> bool" where
  "call_ok s0 s1 th \<longleftrightarrow> list_all allowed (todo th) \<and>
     (case now th of Idle \<Rightarrow> True
      | In_call x m p \<Rightarrow> allowed x \<and> keeps quiet p \<and>
        (case m of
           Unguarded \<Rightarrow> \<exists>r. p = Ret r \<and> (\<forall>s. call_alone enter x s = (r, s))
         | Shared \<Rightarrow> reads_only quiet p \<and> run_prog p s1 = call_alone enter x s1
         | Exclusive \<Rightarrow> run_prog p s1 = call_alone enter x s0))"

definition serial_inv :: "'s \<Rightarrow> ('o, 'l, 's, 'r) system \<Rightarrow> bool" where
  "serial_inv s0 c \<longleftrightarrow> quiet (mem c) \<and> exclusive_alone c \<and>
     fst (run_serial enter (past_calls c) s0) = answers c \<and>
     (no_writer c \<longrightarrow> mem c = snd (run_serial enter (past_calls c) s0)) \<and>
     (\<forall>i < length (threads c). call_ok (snd (run_serial enter (past_calls c) s0)) (mem c) (threads c ! i))"

lemma call_ok_now:
  "call_ok s0 s1 th \<Longrightarrow> now th = In_call x m p \<Longrightarrow> keeps quiet p"
  "call_ok s0 s1 th \<Longrightarrow> now th = In_call x Unguarded p \<Longrightarrow> \<exists>r. p = Ret r \<and> (\<forall>s. call_alone enter x s = (r, s))"
  "call_ok s0 s1 th \<Longrightarrow> now th = In_call x Shared p \<Longrightarrow> reads_only quiet p \<and> run_prog p s1 = call_alone enter x s1"
  "call_ok s0 s1 th \<Longrightarrow> now th = In_call x Exclusive p \<Longrightarrow> run_prog p s1 = call_alone enter x s0"
  by (simp_all add: call_ok_def)

text \<open>A thread without a guard does not depend on the shared variables.\<close>

lemma call_ok_unguarded: "call_ok s0 s1 th \<Longrightarrow> guard_of th = None \<Longrightarrow> call_ok s0' s1' th"
  by (auto simp: call_ok_def guard_of_def split: activity.splits if_splits)

lemma call_ok_enter:
  assumes "enter x = (m, p)" "call_ok s0 s1 th" "now th = Idle" "todo th = x # xs"
    "m = Exclusive \<Longrightarrow> s1 = s0"
  shows "call_ok s0 s1 \<lparr>todo = xs, now = In_call x m p\<rparr>"
proof -
  have a: "allowed x" "list_all allowed xs"
    using assms(2,4) by (auto simp: call_ok_def)
  have "call_alone enter x = run_prog p" using assms(1) by (simp add: call_alone_def)
  then show ?thesis
    using a assms(1,5) unguarded_local [OF a(1)] shared_reads [OF a(1)] quiet_kept [OF a(1)]
    by (cases m) (auto simp: call_ok_def)
qed

lemma enter_inv:
  assumes inv: "serial_inv s0 c" and lock: "rw_lock_contract grants"
    and i: "i < length (threads c)" "now (threads c ! i) = Idle" "todo (threads c ! i) = x # xs"
    and e: "enter x = (m, p)" and g: "m = Unguarded \<or> grants m (guards_held c)"
  shows "serial_inv s0 (c\<lparr>threads := (threads c)[i := \<lparr>todo = xs, now = In_call x m p\<rparr>]\<rparr>)"
    (is "serial_inv s0 ?c")
proof -
  let ?s = "snd (run_serial enter (past_calls c) s0)"
  have h: "past_calls ?c = past_calls c" "answers ?c = answers c"
    by (simp_all add: past_calls_def answers_def)
  have "no_writer c" if "m = Exclusive"
    using g that lock guards_held_none [of c] by (auto simp: rw_lock_contract_def no_writer_nth)
  then have "mem c = ?s" if "m = Exclusive"
    using inv that by (simp add: serial_inv_def)
  then have "call_ok ?s (mem c) \<lparr>todo = xs, now = In_call x m p\<rparr>"
    using inv i by (intro call_ok_enter [OF e, where th = "threads c ! i"]) (simp_all add: serial_inv_def)
  moreover have "guard_of (threads c ! j) \<noteq> Some Exclusive" if "no_writer ?c" "j < length (threads c)" for j
    using that i by (cases "j = i") (auto simp: no_writer_nth nth_list_update dest: spec [of _ j])
  then have "no_writer c" if "no_writer ?c"
    using that by (simp add: no_writer_nth)
  moreover have "exclusive_alone ?c"
    using lock inv g i(1) by (intro exclusive_alone_enters) (simp_all add: serial_inv_def)
  ultimately show ?thesis
    using inv i(1) by (auto simp: serial_inv_def h nth_list_update)
qed

lemma leave_inv:
  assumes inv: "serial_inv s0 c" and i: "i < length (threads c)" "now (threads c ! i) = In_call x m (Ret r)"
  shows "serial_inv s0 (c\<lparr>threads := (threads c)[i := (threads c ! i)\<lparr>now := Idle\<rparr>],
      history := history c @ [(i, x, r)]\<rparr>)" (is "serial_inv s0 ?c")
proof -
  let ?s = "snd (run_serial enter (past_calls c) s0)"
  have ok: "call_ok ?s (mem c) (threads c ! j)" if "j < length (threads c)" for j
    using inv that by (simp add: serial_inv_def)
  have alone: "exclusive_alone ?c"
    using inv i by (auto simp: serial_inv_def intro!: exclusive_alone_less [of c]
        simp: nth_list_update split: if_splits)
  have h: "past_calls ?c = past_calls c @ [x]" "answers ?c = answers c @ [r]"
    by (simp_all add: past_calls_def answers_def)
  have guard: "guard_of (threads c ! j) \<noteq> Some Exclusive"
    if "j < length (threads c)" "j \<noteq> i" "m \<noteq> Unguarded" for j
    using inv i that unfolding serial_inv_def exclusive_alone_def by (metis guard_of_simps(4) option.distinct(1))
  have eff: "call_alone enter x ?s = (r, if m = Exclusive then mem c else ?s)"
  proof (cases m)
    case Shared
    then have "guard_of (threads c ! j) \<noteq> Some Exclusive" if "j < length (threads c)" for j
      using guard [OF that] i(2) by (cases "j = i") auto
    then have "no_writer c" by (simp add: no_writer_nth)
    then show ?thesis using inv Shared call_ok_now(3) [OF ok [OF i(1)]] i(2) by (simp add: serial_inv_def)
  qed (use call_ok_now [OF ok [OF i(1)]] i(2) in force)+
  have s: "run_serial enter (past_calls ?c) s0 = (answers ?c, if m = Exclusive then mem c else ?s)"
    using inv eff unfolding h run_serial_snoc serial_inv_def by (auto split: prod.splits)
  have "call_ok (if m = Exclusive then mem c else ?s) (mem c) (threads c ! j)"
    if j: "j < length (threads c)" "j \<noteq> i" for j
  proof (cases "m = Exclusive")
    case True
    then have "guard_of (threads c ! j) = None"
      using inv i j unfolding serial_inv_def exclusive_alone_def by (metis guard_of_simps(4) lock_mode.distinct(3))
    then show ?thesis using call_ok_unguarded [OF ok [OF j(1)]] by blast
  qed (use ok j in simp)
  moreover have "call_ok (if m = Exclusive then mem c else ?s) (mem c) ((threads c ! i)\<lparr>now := Idle\<rparr>)"
    using ok [OF i(1)] by (simp add: call_ok_def)
  moreover have "mem c = ?s" if "no_writer ?c" "m \<noteq> Exclusive"
  proof -
    have "no_writer c"
      using that i by (auto simp: no_writer_nth nth_list_update split: if_splits)
    then show ?thesis using inv by (simp add: serial_inv_def)
  qed
  ultimately show ?thesis
    using inv alone i(1) by (auto simp: serial_inv_def s nth_list_update)
qed

lemma read_inv:
  assumes inv: "serial_inv s0 c" and i: "i < length (threads c)" "now (threads c ! i) = In_call x m (Rd l f)"
  shows "serial_inv s0 (c\<lparr>threads := (threads c)[i := (threads c ! i)\<lparr>now := In_call x m (f (mem c))\<rparr>]\<rparr>)"
    (is "serial_inv s0 ?c")
proof -
  have h: "past_calls ?c = past_calls c" "answers ?c = answers c"
    by (simp_all add: past_calls_def answers_def)
  have g: "guard_of (threads ?c ! j) = guard_of (threads c ! j)" if "j < length (threads c)" for j
    using i that by (cases "j = i") simp_all
  have "exclusive_alone c" using inv by (simp add: serial_inv_def)
  then have alone: "exclusive_alone ?c"
    by (rule exclusive_alone_less) (simp, unfold g, blast)
  have w: "no_writer ?c = no_writer c"
    using g by (simp add: no_writer_nth)
  have "call_ok s1 (mem c) ((threads c ! i)\<lparr>now := In_call x m (f (mem c))\<rparr>)"
    if "call_ok s1 (mem c) (threads c ! i)" for s1
    using that i(2) inv by (cases m) (auto simp: call_ok_def serial_inv_def)
  then have "call_ok (snd (run_serial enter (past_calls c) s0)) (mem c) (threads ?c ! j)"
    if "j < length (threads c)" for j
    using inv i(1) that by (cases "j = i") (simp_all add: serial_inv_def)
  then show ?thesis
    using inv unfolding serial_inv_def h w by (simp add: alone)
qed

lemma write_inv:
  assumes inv: "serial_inv s0 c" and i: "i < length (threads c)" "now (threads c ! i) = In_call x m (Wr l g p)"
  shows "serial_inv s0 (c\<lparr>threads := (threads c)[i := (threads c ! i)\<lparr>now := In_call x m p\<rparr>],
      mem := g (mem c)\<rparr>)" (is "serial_inv s0 ?c")
proof -
  have h: "past_calls ?c = past_calls c" "answers ?c = answers c"
    by (simp_all add: past_calls_def answers_def)
  have ok: "call_ok (snd (run_serial enter (past_calls c) s0)) (mem c) (threads c ! j)"
    if "j < length (threads c)" for j
    using inv that by (simp add: serial_inv_def)
  have m: "m = Exclusive"
    using ok [OF i(1)] i(2) by (cases m) (auto simp: call_ok_def)
  have other: "guard_of (threads c ! j) = None" if "j < length (threads c)" "j \<noteq> i" for j
    using inv i that m by (simp add: serial_inv_def exclusive_alone_def)
  have g: "guard_of (threads ?c ! j) = guard_of (threads c ! j)" if "j < length (threads c)" for j
    using i that by (cases "j = i") simp_all
  have "exclusive_alone c" using inv by (simp add: serial_inv_def)
  then have alone: "exclusive_alone ?c"
    by (rule exclusive_alone_less) (simp, unfold g, blast)
  have w: "\<not> no_writer ?c"
    using i(1) m by (auto simp: no_writer_nth)
  have "call_ok s1 (g (mem c)) ((threads c ! i)\<lparr>now := In_call x m p\<rparr>)"
    if "call_ok s1 (mem c) (threads c ! i)" for s1
    using that i(2) m by (auto simp: call_ok_def)
  then have "call_ok (snd (run_serial enter (past_calls c) s0)) (g (mem c)) (threads ?c ! j)"
    if "j < length (threads c)" for j
    using i(1) ok that call_ok_unguarded [OF ok other] by (cases "j = i") simp_all
  moreover have "quiet (g (mem c))"
    using call_ok_now(1) [OF ok [OF i(1)] i(2)] inv by (simp add: serial_inv_def)
  ultimately show ?thesis
    using inv w unfolding serial_inv_def h by (simp add: alone)
qed

lemma serial_inv_reach:
  assumes "par_reach grants enter (start_system tds s0) c" "rw_lock_contract grants" "quiet s0"
    "\<And>xs. xs \<in> set tds \<Longrightarrow> list_all allowed xs"
  shows "serial_inv s0 c"
  using assms(1)
proof (induction rule: par_reach.induct)
  case start
  have "exclusive_alone (start_system tds s0)"
    by (auto simp: exclusive_alone_def start_system_def)
  then show ?case
    using assms(3,4) by (auto simp: serial_inv_def start_system_def past_calls_def answers_def call_ok_def)
next
  case (step c i c')
  from step.hyps(2) show ?case
  proof (cases rule: thread_step_cases)
    case (enters x xs m p)
    then show ?thesis using enter_inv [OF step.IH assms(2)] by blast
  next
    case (leaves x m r)
    then show ?thesis using leave_inv [OF step.IH] by blast
  next
    case (reads x m l f)
    then show ?thesis using read_inv [OF step.IH] by blast
  next
    case (writes x m l g p)
    show ?thesis unfolding writes(3) using step.IH writes(1,2) by (rule write_inv)
  qed
qed

text \<open>
  Every interleaving gives the results, and, when nobody holds a write guard, the shared
  variables of the calls made one after the other in the order of the history.
\<close>

lemma interleaving_serial:
  assumes "par_reach grants enter (start_system tds s0) c" "rw_lock_contract grants" "quiet s0"
    "\<And>xs. xs \<in> set tds \<Longrightarrow> list_all allowed xs"
  shows "fst (run_serial enter (past_calls c) s0) = answers c"
    "no_writer c \<Longrightarrow> mem c = snd (run_serial enter (past_calls c) s0)" "quiet (mem c)"
  using serial_inv_reach [OF assms] by (simp_all add: serial_inv_def)

text \<open>No two threads are ever about to access the same location, one of them writing.\<close>

lemma no_race:
  assumes "par_reach grants enter (start_system tds s0) c" "rw_lock_contract grants" "quiet s0"
    "\<And>xs. xs \<in> set tds \<Longrightarrow> list_all allowed xs"
  shows "\<not> race c"
proof -
  have inv: "serial_inv s0 c" using serial_inv_reach [OF assms] .
  have ok: "call_ok (snd (run_serial enter (past_calls c) s0)) (mem c) (threads c ! j)"
    if "j < length (threads c)" for j
    using inv that by (simp add: serial_inv_def)
  have w: "guard_of (threads c ! i) = Some Exclusive"
    if "i < length (threads c)" "next_access (threads c ! i) = Some (l, True)" for i l
    using ok [OF that(1)] that(2)
    by (auto simp: call_ok_def next_access_def guard_of_def split: activity.splits prog.splits lock_mode.splits)
  have n: "next_access (threads c ! j) = None"
    if "j < length (threads c)" "guard_of (threads c ! j) = None" for j
    using ok [OF that(1)] that(2)
    by (auto simp: call_ok_def next_access_def guard_of_def split: activity.splits if_splits)
  have e: "guard_of (threads c ! j) = None"
    if "guard_of (threads c ! i) = Some Exclusive" "i < length (threads c)" "j < length (threads c)" "i \<noteq> j"
    for i j using inv that by (simp add: serial_inv_def exclusive_alone_def)
  have none: "\<not> conflict (Some (l, True)) (next_access (threads c ! j))"
    if "i < length (threads c)" "j < length (threads c)" "i \<noteq> j"
      "next_access (threads c ! i) = Some (l, True)" for i j l
    using n [OF that(2) e [OF w [OF that(1,4)] that(1-3)]] by (simp add: conflict_def)
  show ?thesis
  proof
    assume "race c"
    then obtain i j where ij: "i < length (threads c)" "j < length (threads c)" "i \<noteq> j"
      "conflict (next_access (threads c ! i)) (next_access (threads c ! j))"
      by (auto simp: race_def)
    then obtain l v w where a: "next_access (threads c ! i) = Some (l, v)"
      "next_access (threads c ! j) = Some (l, w)" "v \<or> w"
      by (auto simp: conflict_def split: option.splits)
    show False
    proof (cases v)
      case True
      then show ?thesis using none [OF ij(1-3)] a by (simp add: conflict_def)
    next
      case False
      then show ?thesis using none [OF ij(2,1)] ij(3) a by (simp add: conflict_def)
    qed
  qed
qed

end

section \<open>Accesses\<close>

text \<open>All accesses that a program can make satisfy \<open>P\<close>; the Boolean is true for a write.\<close>

primrec touches :: "('l \<times> bool \<Rightarrow> bool) \<Rightarrow> ('l, 's, 'r) prog \<Rightarrow> bool" where
  "touches P (Ret r) = True"
| "touches P (Rd l f) = (P (l, False) \<and> (\<forall>s. touches P (f s)))"
| "touches P (Wr l g p) = (P (l, True) \<and> touches P p)"

lemma next_access_touches:
  assumes "par_reach grants enter (start_system tds s0) c" "i < length tds"
    "\<And>x. x \<in> set (tds ! i) \<Longrightarrow> touches P (snd (enter x))"
  shows "(\<forall>x m p. now (threads c ! i) = In_call x m p \<longrightarrow> touches P p) \<and> set (todo (threads c ! i)) \<subseteq> set (tds ! i)"
  using assms(1)
proof (induction rule: par_reach.induct)
  case start
  then show ?case using assms(2) by (simp add: start_system_def)
next
  case (step c j c')
  have "length (threads c) = length tds" using program_order [OF step.hyps(1)] by blast
  then have i: "i < length (threads c)" using assms(2) by simp
  show ?case
  proof (cases "j = i")
    case True
    from step.hyps(2) show ?thesis
    proof (cases rule: thread_step_cases)
      case (enters x xs m p)
      then have "touches P p" using assms(3) [of x] step.IH True by auto
      then show ?thesis using enters step.IH True by auto
    qed (use step.IH True i in auto)
  next
    case False
    from step.hyps(2) show ?thesis
      by (cases rule: thread_step_cases) (use step.IH False in auto)
  qed
qed

text \<open>Threads whose accesses cannot collide do not race, with or without the lock.\<close>

lemma no_race_apart:
  assumes "par_reach grants enter (start_system tds s0) c"
    "\<And>i x. i < length tds \<Longrightarrow> x \<in> set (tds ! i) \<Longrightarrow> touches (P i) (snd (enter x))"
    "\<And>i j a b. i \<noteq> j \<Longrightarrow> P i a \<Longrightarrow> P j b \<Longrightarrow> \<not> conflict (Some a) (Some b)"
  shows "\<not> race c"
proof -
  have l: "length (threads c) = length tds" using program_order [OF assms(1)] by blast
  have n: "P i a" if "i < length tds" "next_access (threads c ! i) = Some a" for i a
    using next_access_touches [OF assms(1) that(1) assms(2) [OF that(1)]] that(2)
    by (auto simp: next_access_def split: activity.splits prog.splits)
  show ?thesis
  proof
    assume "race c"
    then obtain i j where ij: "i < length tds" "j < length tds" "i \<noteq> j"
      "conflict (next_access (threads c ! i)) (next_access (threads c ! j))"
      by (auto simp: race_def l)
    then obtain a b where ab: "next_access (threads c ! i) = Some a" "next_access (threads c ! j) = Some b"
      by (auto simp: conflict_def split: option.splits)
    show False using assms(3) [OF ij(3) n [OF ij(1) ab(1)] n [OF ij(2) ab(2)]] ij(4) ab by simp
  qed
qed

end
