(* ===== verification/IfThreads.thy ===== *)
theory IfThreads
  imports GuardedApi IfTable IfDump
begin

text \<open>
  The interface table of \<open>src/src/hal_if_mapping.cpp\<close> under its read-write lock \<open>db_lock\<close>: each
  function as the accesses it makes to the shared variables, with the guard it takes and what it
  does before it takes one. Run alone, the accesses are the functions of \<open>IfMapping\<close> and
  \<open>IfDump\<close>.
\<close>

section \<open>The shared variables\<close>

text \<open>
  \<open>if_mappings\<close> is a map from query types to maps. \<open>slots\<close> are the query types it has an entry
  for: \<open>if_mappings[type]\<close> inserts an empty map when there is none, also in a lookup.
\<close>

record if_shared =
  tbl :: if_db
  slots :: "intf_info set"

text \<open>
  What two accesses can collide on: the outer map of \<open>if_mappings\<close>, its inner maps, the map by
  name, the set of records, the set of indexes, the blocks and the allocator.
\<close>

datatype if_loc =
    Mappings | Inner intf_info | Names | Records | Indexes
  | Rec_at addr | Desc_at addr | Allocator

type_synonym 'a if_prog = "(if_loc, if_shared, 'a) prog"

text \<open>A type without an entry has no keys.\<close>

definition slots_ok :: "if_shared \<Rightarrow> bool" where
  "slots_ok s \<longleftrightarrow> (\<forall>t. t \<notin> slots s \<longrightarrow> if_mappings (tbl s) t = Map.empty)"

definition put :: "if_loc \<Rightarrow> (if_db \<Rightarrow> if_db) \<Rightarrow> unit if_prog" where
  "put l g = Wr l (\<lambda>s. s\<lparr>tbl := g (tbl s)\<rparr>) (Ret ())"

text \<open>Going on after a program that can fault.\<close>

definition then_ok :: "(fault + 'a) if_prog \<Rightarrow> ('a \<Rightarrow> (fault + 'b) if_prog) \<Rightarrow> (fault + 'b) if_prog" where
  "then_ok p k = bind_prog p (\<lambda>r. case r of Inl f \<Rightarrow> Ret (Inl f) | Inr v \<Rightarrow> k v)"

section \<open>The functions as accesses\<close>

text \<open>\<open>if_mappings[type]\<close>.\<close>

definition slot_prog :: "intf_info \<Rightarrow> unit if_prog" where
  "slot_prog t = Rd Mappings (\<lambda>s. if t \<in> slots s then Ret ()
     else Wr Mappings (\<lambda>s. s\<lparr>slots := insert t (slots s),
       tbl := (tbl s)\<lparr>if_mappings := (if_mappings (tbl s))(t := Map.empty)\<rparr>\<rparr>) (Ret ()))"

text \<open>The map by name is searched and read as one access.\<close>

definition locate_prog :: "intf_info \<Rightarrow> interface_ctrl \<Rightarrow> addr option if_prog" where
  "locate_prog t r =
     (if \<not> query_valid t (int_type r) then Ret None
      else if t = HAL_INTF_INFO_FROM_IF_NAME
      then look Names (\<lambda>s. if_name_map (tbl s) (if_name r))
      else if mk_key t r = INVALID_KEY then Ret None
      else bind_prog (slot_prog t)
             (\<lambda>_. look (Inner t) (\<lambda>s. if_mappings (tbl s) t (mk_key t r))))"

fun first_prog :: "intf_info list \<Rightarrow> interface_ctrl \<Rightarrow> addr option if_prog" where
  "first_prog [] r = Ret None"
| "first_prog (t # ts) r =
     bind_prog (locate_prog t r) (\<lambda>a. case a of Some b \<Rightarrow> Ret (Some b) | None \<Rightarrow> first_prog ts r)"

text \<open>The members of a record are read, and written, in one access.\<close>

definition rec_prog :: "addr \<Rightarrow> (fault + interface_ctrl) if_prog" where
  "rec_prog a = Rd (Rec_at a) (\<lambda>s. case rec_heap (tbl s) a of
     None \<Rightarrow> Ret (Inl Use_After_Free) | Some r \<Rightarrow> Ret (Inr r))"

definition set_rec :: "addr \<Rightarrow> interface_ctrl \<Rightarrow> unit if_prog" where
  "set_rec a r = put (Rec_at a) (\<lambda>db. db\<lparr>rec_heap := (rec_heap db)(a \<mapsto> r)\<rparr>)"

definition index_prog :: "interface_ctrl \<Rightarrow> unit if_prog" where
  "index_prog r = (if vrf_id r = 0
     then put Indexes (\<lambda>db. db\<lparr>if_indexes := oset_insert (sint (if_index r)) (if_indexes db)\<rparr>)
     else Ret ())"

definition add_prog :: "intf_info \<Rightarrow> addr \<Rightarrow> interface_ctrl \<Rightarrow> bool if_prog" where
  "add_prog t a r =
     (if \<not> query_valid t (int_type r) then Ret False
      else if t = HAL_INTF_INFO_FROM_IF_NAME then
        (if if_name r = [] then Ret False
         else bind_prog (put Names (\<lambda>db. db\<lparr>if_name_map := (if_name_map db)(if_name r \<mapsto> a)\<rparr>))
                (\<lambda>_. bind_prog (index_prog r) (\<lambda>_. Ret True)))
      else if mk_key t r = INVALID_KEY then Ret False
      else bind_prog (slot_prog t)
             (\<lambda>_. bind_prog (put (Inner t) (\<lambda>db. db\<lparr>if_mappings :=
                    (if_mappings db)(t := (if_mappings db t)(mk_key t r \<mapsto> a))\<rparr>))
             (\<lambda>_. bind_prog (index_prog r) (\<lambda>_. Ret True))))"

fun adds_prog :: "intf_info list \<Rightarrow> addr \<Rightarrow> interface_ctrl \<Rightarrow> bool \<Rightarrow> bool if_prog" where
  "adds_prog [] a r added = Ret added"
| "adds_prog (t # ts) a r added = bind_prog (add_prog t a r) (\<lambda>b. adds_prog ts a r (added \<or> b))"

definition erase_prog :: "intf_info \<Rightarrow> interface_ctrl \<Rightarrow> unit if_prog" where
  "erase_prog t r =
     (if \<not> query_valid t (int_type r) then Ret ()
      else if mk_key t r = INVALID_KEY then Ret ()
      else bind_prog (slot_prog t)
             (\<lambda>_. put (Inner t) (\<lambda>db. db\<lparr>if_mappings :=
                (if_mappings db)(t := (if_mappings db t)(mk_key t r := None))\<rparr>)))"

fun erases_prog :: "intf_info list \<Rightarrow> interface_ctrl \<Rightarrow> unit if_prog" where
  "erases_prog [] r = Ret ()"
| "erases_prog (t # ts) r = bind_prog (erase_prog t r) (\<lambda>_. erases_prog ts r)"

definition free_desc_prog :: "addr option \<Rightarrow> (fault + unit) if_prog" where
  "free_desc_prog d = (case d of None \<Rightarrow> Ret (Inr ())
     | Some b \<Rightarrow> Rd (Desc_at b) (\<lambda>s. case desc_heap (tbl s) b of
         None \<Rightarrow> Ret (Inl Double_Free)
       | Some _ \<Rightarrow> bind_prog (put (Desc_at b) (\<lambda>db. db\<lparr>desc_heap := (desc_heap db)(b := None)\<rparr>))
                     (\<lambda>_. Ret (Inr ()))))"

definition cleanup_prog :: "interface_ctrl option \<Rightarrow> (fault + unit) if_prog" where
  "cleanup_prog p = (case p of None \<Rightarrow> Ret (Inr ())
   | Some r \<Rightarrow> bind_prog (first_prog all_queries r) (\<lambda>loc. case loc of None \<Rightarrow> Ret (Inr ())
   | Some a \<Rightarrow> then_ok (rec_prog a) (\<lambda>r'.
       bind_prog (erases_prog has_key r') (\<lambda>_.
       bind_prog (if if_name r' \<noteq> []
                  then put Names (\<lambda>db. db\<lparr>if_name_map := (if_name_map db)(if_name r' := None)\<rparr>)
                  else Ret ()) (\<lambda>_.
       then_ok (free_desc_prog (desc r')) (\<lambda>_.
       bind_prog (put Records (\<lambda>db. db\<lparr>if_records := if_records db - {a}\<rparr>)) (\<lambda>_.
       bind_prog (if vrf_id r = 0
                  then put Indexes (\<lambda>db. db\<lparr>if_indexes := oset_erase (sint (if_index r')) (if_indexes db)\<rparr>)
                  else Ret ()) (\<lambda>_.
       bind_prog (put (Rec_at a) (\<lambda>db. db\<lparr>rec_heap := (rec_heap db)(a := None)\<rparr>)) (\<lambda>_.
       Ret (Inr ()))))))))))"

text \<open>\<open>new\<close>: the block that the allocator hands out.\<close>

definition new_prog :: "addr if_prog" where
  "new_prog = Rd Allocator (\<lambda>s. bind_prog (put Allocator (\<lambda>db. db\<lparr>next_addr := next_addr db + 1\<rparr>))
     (\<lambda>_. Ret (next_addr (tbl s))))"

definition register_prog ::
  "bool \<Rightarrow> hal_intf_reg_op_type \<Rightarrow> interface_ctrl option \<Rightarrow> (fault + t_std_error) if_prog" where
  "register_prog mem_ok reg_opt detail =
     (if reg_opt = HAL_INTF_OP_DEREG
      then then_ok (cleanup_prog detail) (\<lambda>_. Ret (Inr STD_ERR_OK))
      else case detail of None \<Rightarrow> Ret (Inl Null_Deref)
      | Some d \<Rightarrow> bind_prog (first_prog all_queries d) (\<lambda>loc.
        if loc \<noteq> None then Ret (Inr (STD_ERR INTERFACE PARAM (Priv 0)))
        else if \<not> mem_ok then Ret (Inr (STD_ERR INTERFACE PARAM (Priv 0)))
        else bind_prog new_prog (\<lambda>p.
             bind_prog (set_rec p d) (\<lambda>_.
             bind_prog (put Records (\<lambda>db. db\<lparr>if_records := insert p (if_records db)\<rparr>)) (\<lambda>_.
             bind_prog (adds_prog all_queries p d False) (\<lambda>added.
             if added then Ret (Inr STD_ERR_OK)
             else bind_prog (put Records (\<lambda>db. db\<lparr>if_records := if_records db - {p}\<rparr>)) (\<lambda>_.
                  bind_prog (put (Rec_at p) (\<lambda>db. db\<lparr>rec_heap := (rec_heap db)(p := None)\<rparr>)) (\<lambda>_.
                  Ret (Inr (STD_ERR INTERFACE PARAM (Priv 0)))))))))))"

definition get_info_prog :: "interface_ctrl \<Rightarrow> (fault + t_std_error \<times> interface_ctrl) if_prog" where
  "get_info_prog q = bind_prog (locate_prog (q_type q) q) (\<lambda>loc. case loc of
     None \<Rightarrow> Ret (Inr (STD_ERR INTERFACE PARAM (Priv 0), q))
   | Some a \<Rightarrow> then_ok (rec_prog a) (\<lambda>r. Ret (Inr (STD_ERR_OK, r))))"

definition next_ifindex_prog :: "i32 option \<Rightarrow> (fault + t_std_error \<times> int option) if_prog" where
  "next_ifindex_prog ifindex = look Indexes (\<lambda>s. dn_hal_get_next_ifindex ifindex (tbl s))"

text \<open>The three updates by query: they differ in what they do to the record they find.\<close>

definition update_prog ::
  "interface_ctrl \<Rightarrow> (interface_ctrl \<Rightarrow> addr \<Rightarrow> (fault + t_std_error) if_prog)
     \<Rightarrow> (fault + t_std_error) if_prog" where
  "update_prog q k = bind_prog (locate_prog (q_type q) q) (\<lambda>loc. case loc of
     None \<Rightarrow> Ret (Inr (STD_ERR INTERFACE PARAM (Priv 0)))
   | Some a \<Rightarrow> then_ok (rec_prog a) (\<lambda>r. k r a))"

definition set_and_ok :: "(interface_ctrl \<Rightarrow> interface_ctrl) \<Rightarrow> interface_ctrl \<Rightarrow> addr \<Rightarrow> (fault + t_std_error) if_prog" where
  "set_and_ok g r a = bind_prog (set_rec a (g r)) (\<lambda>_. Ret (Inr STD_ERR_OK))"

definition new_desc_prog ::
  "strcopy \<Rightarrow> bool \<Rightarrow> string \<Rightarrow> interface_ctrl \<Rightarrow> addr \<Rightarrow> (fault + t_std_error) if_prog" where
  "new_desc_prog cpy mem_ok s r a = then_ok (free_desc_prog (desc r)) (\<lambda>_.
     if s = [] \<or> \<not> isalnum (hd s) then set_and_ok (\<lambda>r. r\<lparr>desc := None\<rparr>) r a
     else if \<not> mem_ok then Ret (Inr (STD_ERR INTERFACE PARAM (Priv 0)))
     else bind_prog new_prog (\<lambda>d.
          bind_prog (set_rec a (r\<lparr>desc := Some d\<rparr>)) (\<lambda>_.
          bind_prog (put (Desc_at d) (\<lambda>db. db\<lparr>desc_heap := (desc_heap db)(d \<mapsto> cpy s (length s + 1))\<rparr>))
            (\<lambda>_. Ret (Inr STD_ERR_OK)))))"

text \<open>The printing of the table: the entries of a map, one record after the other.\<close>

fun entries_prog :: "('k \<Rightarrow> string) \<Rightarrow> ('k \<times> addr) list \<Rightarrow> (fault + string) if_prog" where
  "entries_prog head [] = Ret (Inr [])"
| "entries_prog head ((k, a) # es) = then_ok (rec_prog a)
     (\<lambda>r. then_ok (entries_prog head es) (\<lambda>s. Ret (Inr (head k @ print_rec r @ s))))"

definition tree_prog :: "if_orders \<Rightarrow> intf_info \<Rightarrow> (fault + string) if_prog" where
  "tree_prog ord t = Rd Mappings (\<lambda>s. if t \<in> slots s
     then Rd (Inner t) (\<lambda>s'. entries_prog idx_head (key_order ord (if_mappings (tbl s') t)))
     else Ret (Inr []))"

definition names_prog :: "if_orders \<Rightarrow> (fault + string) if_prog" where
  "names_prog ord = Rd Names (\<lambda>s. entries_prog name_head (name_order ord (if_name_map (tbl s))))"

fun sections_prog :: "(string \<times> (fault + string) if_prog) list \<Rightarrow> (fault + string) if_prog" where
  "sections_prog [] = Ret (Inr [])"
| "sections_prog ((h, p) # ps) =
     then_ok p (\<lambda>s. then_ok (sections_prog ps) (\<lambda>s'. Ret (Inr (h @ newline @ s @ s'))))"

definition dump_prog :: "if_orders \<Rightarrow> (fault + string) if_prog" where
  "dump_prog ord = sections_prog
     [(''Dumping NPU/Port mapping...'', tree_prog ord HAL_INTF_INFO_FROM_PORT),
      (newline @ ''Dumping NPU/Port ifname mapping...'', names_prog ord),
      (newline @ ''Dumping interface index mapping...'', tree_prog ord HAL_INTF_INFO_FROM_IF),
      (newline @ ''Dumping tap index mapping...'', tree_prog ord HAL_INTF_INFO_FROM_TAP),
      (newline @ ''Dumping VLAN ID mapping...'', tree_prog ord HAL_INTF_INFO_FROM_VLAN),
      (newline @ ''Dumping LAG ID mapping...'', tree_prog ord HAL_INTF_INFO_FROM_LAG),
      (newline @ ''Dumping BRIDGE ID mapping...'', tree_prog ord HAL_INTF_INFO_FROM_BRIDGE_ID)]"

section \<open>The calls\<close>

datatype if_call =
    Register bool hal_intf_reg_op_type "interface_ctrl option"
  | Get_info "interface_ctrl option"
  | Next_ifindex "i32 option"
  | Update_mac i32 string
  | Update_router u32 i32 "l3_intf_info option"
  | Update_desc bool "interface_ctrl option" "string option"
  | Dump_table

datatype if_answer =
    Rc t_std_error
  | Info t_std_error interface_ctrl
  | Next t_std_error "int option"
  | Printed string

definition as_answer :: "('a \<Rightarrow> if_answer) \<Rightarrow> (fault + 'a) if_prog \<Rightarrow> (fault + if_answer) if_prog" where
  "as_answer g p = then_ok p (\<lambda>v. Ret (Inr (g v)))"

definition mac_query :: "strcopy \<Rightarrow> i32 \<Rightarrow> string \<Rightarrow> interface_ctrl" where
  "mac_query cpy ifx mac = zero_ctrl\<lparr>if_index := ifx, q_type := HAL_INTF_INFO_FROM_IF,
     mac_addr := cpy mac MAC_STR_SZ\<rparr>"

definition router_query :: "u32 \<Rightarrow> i32 \<Rightarrow> interface_ctrl" where
  "router_query vrf ifx = zero_ctrl\<lparr>vrf_id := vrf, if_index := ifx, q_type := HAL_INTF_INFO_FROM_IF\<rparr>"

text \<open>\<open>p->port_mapped = true\<close> for a query by port, before the read guard.\<close>

definition port_query :: "interface_ctrl \<Rightarrow> interface_ctrl" where
  "port_query q = (if q_type q = HAL_INTF_INFO_FROM_PORT then set_port_mapped q else q)"

text \<open>
  A function as its guard and its accesses. The assertions and the check of the length of a
  description come before the guard.
\<close>

fun if_enter :: "strcopy \<Rightarrow> if_orders \<Rightarrow> if_call \<Rightarrow> lock_mode \<times> (fault + if_answer) if_prog" where
  "if_enter cpy ord (Register mem_ok op d) = (Exclusive, as_answer Rc (register_prog mem_ok op d))"
| "if_enter cpy ord (Get_info p) =
     (case p of None \<Rightarrow> (Unguarded, Ret (Inl Assert_Fail))
      | Some q \<Rightarrow> (Shared, as_answer (\<lambda>(rc, r). Info rc r) (get_info_prog (port_query q))))"
| "if_enter cpy ord (Next_ifindex i) = (Shared, as_answer (\<lambda>(rc, n). Next rc n) (next_ifindex_prog i))"
| "if_enter cpy ord (Update_mac ifx mac) =
     (let q = mac_query cpy ifx mac
      in (Exclusive, as_answer Rc (update_prog q
            (set_and_ok (\<lambda>r. r\<lparr>mac_addr := cpy (mac_addr q) MAC_STR_SZ\<rparr>)))))"
| "if_enter cpy ord (Update_router vrf ifx info) =
     (case info of None \<Rightarrow> (Unguarded, Ret (Inl Assert_Fail))
      | Some i \<Rightarrow> (Exclusive, as_answer Rc (update_prog (router_query vrf ifx)
            (set_and_ok (\<lambda>r. r\<lparr>l3_info := i\<rparr>)))))"
| "if_enter cpy ord (Update_desc mem_ok p dsc) =
     (case dsc of None \<Rightarrow> (Unguarded, Ret (Inl Assert_Fail))
      | Some s \<Rightarrow>
      case p of None \<Rightarrow> (Unguarded, Ret (Inl Assert_Fail))
      | Some q \<Rightarrow>
        if length s > MAX_INTF_DESC_LEN
        then (Unguarded, Ret (Inr (Rc (STD_ERR INTERFACE PARAM (Priv 0)))))
        else (Exclusive, as_answer Rc (update_prog q (new_desc_prog cpy mem_ok s))))"
| "if_enter cpy ord Dump_table = (Shared, as_answer Printed (dump_prog ord))"

text \<open>The same calls as the functions of the table, one at a time.\<close>

definition with_rc :: "fault + (t_std_error \<times> if_db) \<Rightarrow> fault + (if_answer \<times> if_db)" where
  "with_rc = map_sum id (map_prod Rc id)"

fun if_apply :: "strcopy \<Rightarrow> if_orders \<Rightarrow> if_call \<Rightarrow> if_db \<Rightarrow> fault + (if_answer \<times> if_db)" where
  "if_apply cpy ord (Register mem_ok op d) db = with_rc (dn_hal_if_register mem_ok op d db)"
| "if_apply cpy ord (Get_info p) db =
     map_sum id (\<lambda>(rc, r). (Info rc r, db)) (dn_hal_get_interface_info p db)"
| "if_apply cpy ord (Next_ifindex i) db =
     map_sum id (\<lambda>(rc, n). (Next rc n, db)) (dn_hal_get_next_ifindex i db)"
| "if_apply cpy ord (Update_mac ifx mac) db = with_rc (dn_hal_update_intf_mac cpy ifx mac db)"
| "if_apply cpy ord (Update_router vrf ifx info) db = with_rc (nas_cmn_update_router_intf_info vrf ifx info db)"
| "if_apply cpy ord (Update_desc mem_ok p s) db = with_rc (dn_hal_update_intf_desc cpy mem_ok p s db)"
| "if_apply cpy ord Dump_table db =
     map_sum id (\<lambda>s. (Printed s, db)) (dn_hal_dump_interface_mapping ord db)"

section \<open>Run alone, the accesses are the functions\<close>

lemma run_put [simp]: "run_prog (put l g) s = ((), s\<lparr>tbl := g (tbl s)\<rparr>)"
  by (simp add: put_def)

lemma run_then_ok:
  "run_prog (then_ok p k) s = (case fst (run_prog p s) of
     Inl f \<Rightarrow> (Inl f, snd (run_prog p s)) | Inr v \<Rightarrow> run_prog (k v) (snd (run_prog p s)))"
  by (simp add: then_ok_def split: sum.split)

text \<open>
  What a program gives and does to the table; a program that faults may have done a part of its
  work.
\<close>

definition computes :: "(fault + 'a) if_prog \<Rightarrow> (if_db \<Rightarrow> fault + ('a \<times> if_db)) \<Rightarrow> bool" where
  "computes p f \<longleftrightarrow> (\<forall>s. slots_ok s \<longrightarrow>
     fst (run_prog p s) = map_sum id fst (f (tbl s)) \<and> slots_ok (snd (run_prog p s)) \<and>
     (\<forall>v db. f (tbl s) = Inr (v, db) \<longrightarrow> tbl (snd (run_prog p s)) = db))"

lemma slots_ok_tbl [simp]:
  "slots_ok s \<Longrightarrow> \<forall>u. u \<notin> slots s \<longrightarrow> if_mappings db u = if_mappings (tbl s) u \<Longrightarrow> slots_ok (s\<lparr>tbl := db\<rparr>)"
  by (simp add: slots_ok_def)

lemma empty_slot: "if_mappings db t = Map.empty \<Longrightarrow> db\<lparr>if_mappings := (if_mappings db)(t := Map.empty)\<rparr> = db"
  by (cases db) (simp add: fun_upd_idem)

lemma run_slot [simp]:
  assumes "slots_ok s"
  shows "tbl (snd (run_prog (slot_prog t) s)) = tbl s" "slots_ok (snd (run_prog (slot_prog t) s))"
    "slots (snd (run_prog (slot_prog t) s)) = insert t (slots s)"
  using assms by (auto simp: slot_prog_def slots_ok_def empty_slot)

lemma run_locate [simp]:
  assumes "slots_ok s"
  shows "fst (run_prog (locate_prog t r) s) = locate t r (tbl s)"
    "tbl (snd (run_prog (locate_prog t r) s)) = tbl s" "slots_ok (snd (run_prog (locate_prog t r) s))"
  using assms by (simp_all add: locate_prog_def locate_def)

lemma run_first [simp]:
  assumes "slots_ok s"
  shows "fst (run_prog (first_prog ts r) s) = locate_first ts r (tbl s)"
    "tbl (snd (run_prog (first_prog ts r) s)) = tbl s" "slots_ok (snd (run_prog (first_prog ts r) s))"
  using assms by (induction ts arbitrary: s) (simp_all split: option.split)

lemma run_rec [simp]:
  "run_prog (rec_prog a) s = (case rec_heap (tbl s) a of None \<Rightarrow> Inl Use_After_Free | Some r \<Rightarrow> Inr r, s)"
  by (simp add: rec_prog_def split: option.split)

lemma run_index [simp]:
  "tbl (snd (run_prog (index_prog r) s)) = add_index r (tbl s)"
  "slots_ok s \<Longrightarrow> slots_ok (snd (run_prog (index_prog r) s))"
  by (simp_all add: index_prog_def add_index_def slots_ok_def)

lemma run_add [simp]:
  assumes "slots_ok s"
  shows "fst (run_prog (add_prog t a r) s) = fst (add_entry t a r (tbl s))"
    "tbl (snd (run_prog (add_prog t a r) s)) = snd (add_entry t a r (tbl s))"
    "slots_ok (snd (run_prog (add_prog t a r) s))"
  using assms by (simp_all add: add_prog_def add_entry_def)

lemma run_adds [simp]:
  assumes "slots_ok s"
  shows "fst (run_prog (adds_prog ts a r b) s) = fst (add_entries ts a r b (tbl s))"
    "tbl (snd (run_prog (adds_prog ts a r b) s)) = snd (add_entries ts a r b (tbl s))"
    "slots_ok (snd (run_prog (adds_prog ts a r b) s))"
  using assms by (induction ts arbitrary: s b) (simp_all add: add_entries.simps case_prod_beta)

lemma run_erase [simp]:
  assumes "slots_ok s"
  shows "tbl (snd (run_prog (erase_prog t r) s)) = erase_key t r (tbl s)"
    "slots_ok (snd (run_prog (erase_prog t r) s))"
  using assms by (simp_all add: erase_prog_def erase_key_def)

lemma run_erases [simp]:
  assumes "slots_ok s"
  shows "tbl (snd (run_prog (erases_prog ts r) s)) = erase_keys ts r (tbl s)"
    "slots_ok (snd (run_prog (erases_prog ts r) s))"
  using assms by (induction ts arbitrary: s) simp_all

lemma run_free_desc:
  "run_prog (free_desc_prog d) s = (case delete_desc d (desc_heap (tbl s)) of
     Inl f \<Rightarrow> (Inl f, s) | Inr h \<Rightarrow> (Inr (), s\<lparr>tbl := (tbl s)\<lparr>desc_heap := h\<rparr>\<rparr>))"
  by (auto simp: free_desc_prog_def delete_desc_def split: option.split)

lemma run_new [simp]:
  "run_prog new_prog s = (next_addr (tbl s), s\<lparr>tbl := (tbl s)\<lparr>next_addr := next_addr (tbl s) + 1\<rparr>\<rparr>)"
  by (simp add: new_prog_def)

lemma run_set_rec [simp]:
  "run_prog (set_rec a r) s = ((), s\<lparr>tbl := (tbl s)\<lparr>rec_heap := (rec_heap (tbl s))(a \<mapsto> r)\<rparr>\<rparr>)"
  by (simp add: set_rec_def)

lemma cleanup_computes:
  "computes (cleanup_prog p) (\<lambda>db. map_sum id (Pair ()) (cleanup p db))"
  unfolding computes_def
  by (auto simp: cleanup_prog_def cleanup_def run_then_ok run_free_desc Let_def
      split: option.split sum.split)

lemma register_computes: "computes (register_prog m op d) (dn_hal_if_register m op d)"
proof (cases "op = HAL_INTF_OP_DEREG")
  case True
  then show ?thesis
    using cleanup_computes [of d]
    by (auto simp: computes_def register_prog_def dn_hal_if_register_def run_then_ok
        split: sum.split sum.splits)
next
  case False
  then show ?thesis
    unfolding computes_def
    by (auto simp: register_prog_def dn_hal_if_register_def Let_def split: option.split prod.split)
qed

lemma get_info_computes:
  "computes (get_info_prog (port_query q))
     (\<lambda>db. map_sum id (\<lambda>v. (v, db)) (dn_hal_get_interface_info (Some q) db))"
  unfolding computes_def
  by (auto simp: get_info_prog_def dn_hal_get_interface_info_def port_query_def run_then_ok Let_def
      split: option.split)

lemma next_ifindex_computes:
  "computes (next_ifindex_prog i) (\<lambda>db. map_sum id (\<lambda>v. (v, db)) (dn_hal_get_next_ifindex i db))"
  by (auto simp: computes_def next_ifindex_prog_def sum.map_comp o_def sum.map_ident map_sum_def
      split: sum.splits)

text \<open>An update by query, from what its continuation does to the record that the query finds.\<close>

lemma update_computes:
  assumes "\<And>r a. computes (k r a) (f r a)"
  shows "computes (update_prog q k) (\<lambda>db. case locate (q_type q) q db of
     None \<Rightarrow> Inr (STD_ERR INTERFACE PARAM (Priv 0), db)
   | Some a \<Rightarrow> (case rec_heap db a of None \<Rightarrow> Inl Use_After_Free | Some r \<Rightarrow> f r a db))"
  using assms unfolding computes_def
  by (auto simp: update_prog_def run_then_ok split: option.splits)

lemma set_and_ok_computes:
  "computes (set_and_ok g r a) (\<lambda>db. Inr (STD_ERR_OK, db\<lparr>rec_heap := (rec_heap db)(a \<mapsto> g r)\<rparr>))"
  by (simp add: computes_def set_and_ok_def)

lemma update_mac_computes:
  "computes (update_prog (mac_query cpy ifx mac) (set_and_ok (\<lambda>r. r\<lparr>mac_addr :=
     cpy (mac_addr (mac_query cpy ifx mac)) MAC_STR_SZ\<rparr>))) (dn_hal_update_intf_mac cpy ifx mac)"
proof -
  let ?q = "mac_query cpy ifx mac"
  have "dn_hal_update_intf_mac cpy ifx mac = (\<lambda>db. case locate (q_type ?q) ?q db of
      None \<Rightarrow> Inr (STD_ERR INTERFACE PARAM (Priv 0), db)
    | Some a \<Rightarrow> (case rec_heap db a of None \<Rightarrow> Inl Use_After_Free
      | Some r \<Rightarrow> Inr (STD_ERR_OK, db\<lparr>rec_heap := (rec_heap db)
          (a \<mapsto> r\<lparr>mac_addr := cpy (mac_addr ?q) MAC_STR_SZ\<rparr>)\<rparr>)))"
    unfolding dn_hal_update_intf_mac_def dn_hal_update_interface_def mac_query_def by (rule ext) simp
  then show ?thesis
    using update_computes [OF set_and_ok_computes] by simp
qed

lemma update_router_computes:
  "computes (update_prog (router_query vrf ifx) (set_and_ok (\<lambda>r. r\<lparr>l3_info := i\<rparr>)))
     (nas_cmn_update_router_intf_info vrf ifx (Some i))"
proof -
  let ?q = "router_query vrf ifx"
  have "nas_cmn_update_router_intf_info vrf ifx (Some i) = (\<lambda>db. case locate (q_type ?q) ?q db of
      None \<Rightarrow> Inr (STD_ERR INTERFACE PARAM (Priv 0), db)
    | Some a \<Rightarrow> (case rec_heap db a of None \<Rightarrow> Inl Use_After_Free
      | Some r \<Rightarrow> Inr (STD_ERR_OK, db\<lparr>rec_heap := (rec_heap db)(a \<mapsto> r\<lparr>l3_info := i\<rparr>)\<rparr>)))"
    by (rule ext) (simp add: nas_cmn_update_router_intf_info_def router_query_def)
  then show ?thesis
    using update_computes [OF set_and_ok_computes] by simp
qed

lemma new_desc_computes:
  "computes (new_desc_prog cpy mem_ok s r a) (\<lambda>db. case delete_desc (desc r) (desc_heap db) of Inl f \<Rightarrow> Inl f
     | Inr h \<Rightarrow> (let db1 = db\<lparr>desc_heap := h\<rparr> in
        if s = [] \<or> \<not> isalnum (hd s) then
          Inr (STD_ERR_OK, db1\<lparr>rec_heap := (rec_heap db1)(a \<mapsto> r\<lparr>desc := None\<rparr>)\<rparr>)
        else if \<not> mem_ok then Inr (STD_ERR INTERFACE PARAM (Priv 0), db1)
        else (let d = next_addr db1 in Inr (STD_ERR_OK,
          db1\<lparr>next_addr := d + 1, desc_heap := (desc_heap db1)(d \<mapsto> cpy s (length s + 1)),
              rec_heap := (rec_heap db1)(a \<mapsto> r\<lparr>desc := Some d\<rparr>)\<rparr>))))"
  unfolding computes_def
  by (auto simp: new_desc_prog_def set_and_ok_def run_then_ok run_free_desc Let_def split: sum.split)

lemma update_desc_computes:
  assumes "length s \<le> MAX_INTF_DESC_LEN"
  shows "computes (update_prog q (new_desc_prog cpy mem_ok s)) (dn_hal_update_intf_desc cpy mem_ok (Some q) (Some s))"
proof -
  have "dn_hal_update_intf_desc cpy mem_ok (Some q) (Some s) = (\<lambda>db. case locate (q_type q) q db of
      None \<Rightarrow> Inr (STD_ERR INTERFACE PARAM (Priv 0), db)
    | Some a \<Rightarrow> (case rec_heap db a of None \<Rightarrow> Inl Use_After_Free
      | Some r \<Rightarrow> (case delete_desc (desc r) (desc_heap db) of Inl f \<Rightarrow> Inl f
       | Inr h \<Rightarrow> (let db1 = db\<lparr>desc_heap := h\<rparr> in
          if s = [] \<or> \<not> isalnum (hd s) then
            Inr (STD_ERR_OK, db1\<lparr>rec_heap := (rec_heap db1)(a \<mapsto> r\<lparr>desc := None\<rparr>)\<rparr>)
          else if \<not> mem_ok then Inr (STD_ERR INTERFACE PARAM (Priv 0), db1)
          else (let d = next_addr db1 in Inr (STD_ERR_OK,
            db1\<lparr>next_addr := d + 1, desc_heap := (desc_heap db1)(d \<mapsto> cpy s (length s + 1)),
                rec_heap := (rec_heap db1)(a \<mapsto> r\<lparr>desc := Some d\<rparr>)\<rparr>))))))"
    by (rule ext) (use assms in \<open>simp add: dn_hal_update_intf_desc_def not_less\<close>)
  then show ?thesis
    using update_computes [OF new_desc_computes] by simp
qed

lemma entries_run:
  "run_prog (entries_prog head es) s = (dump_entries head (tbl s) es, s)"
  by (induction head es rule: entries_prog.induct) (auto simp: run_then_ok split: option.split sum.split)

text \<open>The order of an empty map is the empty list.\<close>

lemma tree_run:
  assumes "slots_ok s" "key_order ord Map.empty = []"
  shows "run_prog (tree_prog ord t) s = (dump_tree ord t (tbl s), s)"
  using assms by (auto simp: tree_prog_def dump_tree_def entries_run slots_ok_def)

lemma names_run: "run_prog (names_prog ord) s = (dump_tree_ifname ord (tbl s), s)"
  by (simp add: names_prog_def dump_tree_ifname_def entries_run)

lemma sections_run:
  "run_prog p s = (d, s) \<Longrightarrow> run_prog (sections_prog ps) s = (dump_sections ds, s) \<Longrightarrow>
    run_prog (sections_prog ((h, p) # ps)) s = (dump_sections ((h, d) # ds), s)"
  by (simp add: run_then_ok split: sum.split)

lemma dump_run:
  assumes "slots_ok s" "key_order ord Map.empty = []"
  shows "run_prog (dump_prog ord) s = (dn_hal_dump_interface_mapping ord (tbl s), s)"
  unfolding dump_prog_def dn_hal_dump_interface_mapping_def
  by (intro sections_run tree_run [OF assms] names_run) simp

lemma as_answer_computes:
  assumes "computes p f"
  shows "computes (as_answer g p) (\<lambda>db. map_sum id (map_prod g id) (f db))"
  using assms unfolding computes_def as_answer_def
  by (fastforce simp: run_then_ok map_sum_def split: sum.splits)

lemma ret_computes:
  "computes (Ret (Inl f)) (\<lambda>db. Inl f)" "computes (Ret (Inr v)) (\<lambda>db. Inr (v, db))"
  by (simp_all add: computes_def)

lemma enter_computes:
  assumes "key_order ord Map.empty = []"
  shows "computes (snd (if_enter cpy ord x)) (if_apply cpy ord x)"
proof (cases x)
  case (Register m op d)
  then show ?thesis
    using as_answer_computes [OF register_computes] by (simp add: with_rc_def computes_def)
next
  case (Get_info p)
  have e: "(\<lambda>db. map_sum id (map_prod (\<lambda>(rc, r). Info rc r) id)
      (map_sum id (\<lambda>v. (v, db)) (dn_hal_get_interface_info (Some q) db))) = if_apply cpy ord (Get_info (Some q))" for q
    by (rule ext) (simp add: sum.map_comp o_def case_prod_unfold id_def)
  show ?thesis
  proof (cases p)
    case None
    then show ?thesis using Get_info by (auto simp: computes_def dn_hal_get_interface_info_def)
  next
    case (Some q)
    then show ?thesis
      using as_answer_computes [OF get_info_computes, of "\<lambda>(rc, r). Info rc r" q] Get_info e by simp
  qed
next
  case (Next_ifindex i)
  have e: "(\<lambda>db. map_sum id (map_prod (\<lambda>(rc, n). Next rc n) id)
      (map_sum id (\<lambda>v. (v, db)) (dn_hal_get_next_ifindex i db))) = if_apply cpy ord x"
    by (rule ext) (simp add: Next_ifindex sum.map_comp o_def case_prod_unfold id_def)
  show ?thesis
    using as_answer_computes [OF next_ifindex_computes, of "\<lambda>(rc, n). Next rc n" i] Next_ifindex e by simp
next
  case (Update_mac ifx mac)
  then show ?thesis
    using as_answer_computes [OF update_mac_computes] by (simp add: with_rc_def Let_def computes_def)
next
  case (Update_router vrf ifx info)
  then show ?thesis
    using as_answer_computes [OF update_router_computes]
    by (cases info) (auto simp: with_rc_def computes_def nas_cmn_update_router_intf_info_def)
next
  case (Update_desc m p dsc)
  then show ?thesis
    using as_answer_computes [OF update_desc_computes]
    by (cases dsc; cases p)
      (auto simp: with_rc_def computes_def dn_hal_update_intf_desc_def not_less)
next
  case Dump_table
  then show ?thesis
    using dump_run [OF _ assms]
    by (auto simp: computes_def as_answer_def run_then_ok map_sum_def split: sum.splits)
qed

end
