(* ===== verification/IfThreadsProps.thy ===== *)
theory IfThreadsProps
  imports IfThreads IfProps
begin

text \<open>
  The interface table between threads: what the guards of \<open>db_lock\<close> give, what they do not, and
  how long the description that a lookup hands out stays valid.
\<close>

section \<open>The guards of the table\<close>

text \<open>A lookup that goes through \<open>if_mappings[type]\<close>, and the calls whose lookups find the entry.\<close>

definition slot_used :: "intf_info \<Rightarrow> interface_ctrl \<Rightarrow> bool" where
  "slot_used t q \<longleftrightarrow> query_valid t (int_type q) \<and> t \<noteq> HAL_INTF_INFO_FROM_IF_NAME \<and> mk_key t q \<noteq> INVALID_KEY"

fun lookup_ready :: "intf_info set \<Rightarrow> if_call \<Rightarrow> bool" where
  "lookup_ready T (Get_info (Some q)) = (slot_used (q_type q) (port_query q) \<longrightarrow> q_type q \<in> T)"
| "lookup_ready T _ = True"

abbreviation has_slots :: "intf_info set \<Rightarrow> if_shared \<Rightarrow> bool" where
  "has_slots T \<equiv> \<lambda>s. T \<subseteq> slots s"

lemma port_query_type [simp]: "q_type (port_query q) = q_type q"
  by (simp add: port_query_def set_port_mapped_def)

lemma keeps_put [simp]: "keeps (has_slots T) (put l g)"
  by (simp add: put_def)

lemma keeps_slot [simp]: "keeps (has_slots T) (slot_prog t)"
  by (auto simp: slot_prog_def)

lemma keeps_then_ok [intro!]:
  "keeps Q p \<Longrightarrow> (\<And>v. keeps Q (k v)) \<Longrightarrow> keeps Q (then_ok p k)"
  by (auto simp: then_ok_def intro!: keeps_bind split: sum.split)

lemma reads_only_then_ok [intro!]:
  "reads_only Q p \<Longrightarrow> (\<And>v. reads_only Q (k v)) \<Longrightarrow> reads_only Q (then_ok p k)"
  by (auto simp: then_ok_def intro!: reads_only_bind split: sum.split)

lemma keeps_locate [simp]: "keeps (has_slots T) (locate_prog t r)"
  by (auto simp: locate_prog_def intro!: keeps_bind)

lemma keeps_first [simp]: "keeps (has_slots T) (first_prog ts r)"
  by (induction ts) (auto intro!: keeps_bind split: option.split)

lemma keeps_rec [simp]: "keeps (has_slots T) (rec_prog a)"
  by (auto simp: rec_prog_def split: option.split)

lemma keeps_set_rec [simp]: "keeps (has_slots T) (set_rec a r)"
  by (simp add: set_rec_def)

lemma keeps_add [simp]: "keeps (has_slots T) (add_prog t a r)"
  by (auto simp: add_prog_def index_prog_def intro!: keeps_bind)

lemma keeps_adds [simp]: "keeps (has_slots T) (adds_prog ts a r b)"
  by (induction ts arbitrary: b) (auto intro!: keeps_bind)

lemma keeps_erases [simp]: "keeps (has_slots T) (erases_prog ts r)"
  by (induction ts) (auto simp: erase_prog_def intro!: keeps_bind)

lemma keeps_free_desc [simp]: "keeps (has_slots T) (free_desc_prog d)"
  by (auto simp: free_desc_prog_def intro!: keeps_bind split: option.split)

lemma keeps_new [simp]: "keeps (has_slots T) new_prog"
  by (auto simp: new_prog_def intro!: keeps_bind)

lemma keeps_cleanup [simp]: "keeps (has_slots T) (cleanup_prog p)"
  by (auto simp: cleanup_prog_def intro!: keeps_bind split: option.split)

lemma keeps_register [simp]: "keeps (has_slots T) (register_prog m op d)"
  by (auto simp: register_prog_def intro!: keeps_bind split: option.split)

lemma keeps_set_and_ok [simp]: "keeps (has_slots T) (set_and_ok g r a)"
  by (auto simp: set_and_ok_def intro!: keeps_bind)

lemma keeps_new_desc [simp]: "keeps (has_slots T) (new_desc_prog cpy m s r a)"
  by (auto simp: new_desc_prog_def intro!: keeps_bind)

lemma keeps_update [simp]:
  "(\<And>r a. keeps (has_slots T) (k r a)) \<Longrightarrow> keeps (has_slots T) (update_prog q k)"
  by (auto simp: update_prog_def intro!: keeps_bind split: option.split)

lemma reads_only_keeps: "(\<And>s. Q s) \<Longrightarrow> reads_only Q p \<Longrightarrow> keeps Q p"
  by (induction p) auto

text \<open>The calls with a read guard do not write, except for the entry of \<open>if_mappings\<close>.\<close>

lemma reads_only_rec [simp]: "reads_only Q (rec_prog a)"
  by (auto simp: rec_prog_def split: option.split)

lemma reads_only_locate:
  "slot_used t r \<longrightarrow> t \<in> T \<Longrightarrow> reads_only (has_slots T) (locate_prog t r)"
  by (auto simp: locate_prog_def slot_used_def slot_prog_def)

lemma reads_only_get_info:
  "slot_used (q_type q) q \<longrightarrow> q_type q \<in> T \<Longrightarrow> reads_only (has_slots T) (get_info_prog q)"
  by (auto simp: get_info_prog_def intro!: reads_only_bind reads_only_locate split: option.split)

lemma reads_only_entries [simp]: "reads_only Q (entries_prog head es)"
  by (induction head es rule: entries_prog.induct) auto

lemma reads_only_dump [simp]: "reads_only Q (dump_prog ord)"
  by (auto simp: dump_prog_def tree_prog_def names_prog_def)

lemma as_answer_guards [intro!]:
  "keeps Q p \<Longrightarrow> keeps Q (as_answer g p)"
  "reads_only Q p \<Longrightarrow> reads_only Q (as_answer g p)"
  by (auto simp: as_answer_def)

lemma reads_only_any: "reads_only (\<lambda>_. True) p \<Longrightarrow> keeps Q p"
  by (induction p) auto

interpretation if_api: guarded_api "if_enter cpy ord" "lookup_ready T" "has_slots T" for cpy ord T
proof
  fix x p
  show "\<exists>r. p = Ret r" if "if_enter cpy ord x = (Unguarded, p)"
    using that by (cases x) (auto simp: Let_def split: option.splits if_splits)
  show "reads_only (has_slots T) p" if "lookup_ready T x" "if_enter cpy ord x = (Shared, p)"
    using that by (cases x) (auto simp: Let_def next_ifindex_prog_def intro!: reads_only_get_info
        split: option.splits if_splits)
next
  fix x m p
  show "keeps (has_slots T) p" if "if_enter cpy ord x = (m, p)"
  proof (cases x)
    case (Get_info q)
    then show ?thesis
      using that by (auto simp: get_info_prog_def intro!: keeps_bind split: option.splits)
  next
    case Dump_table
    then show ?thesis using that reads_only_any [OF reads_only_dump] by auto
  qed (use that in \<open>auto simp: Let_def next_ifindex_prog_def split: option.splits if_splits\<close>)
qed

section \<open>The calls one after the other\<close>

fun run_calls :: "strcopy \<Rightarrow> if_orders \<Rightarrow> if_call list \<Rightarrow> if_db \<Rightarrow> fault + (if_answer list \<times> if_db)" where
  "run_calls cpy ord [] db = Inr ([], db)"
| "run_calls cpy ord (x # xs) db =
     (case if_apply cpy ord x db of Inl f \<Rightarrow> Inl f
      | Inr (a, db1) \<Rightarrow>
        (case run_calls cpy ord xs db1 of Inl f \<Rightarrow> Inl f | Inr (as, db2) \<Rightarrow> Inr (a # as, db2)))"

text \<open>
  The calls of clients that keep to the table's rules: arguments where the code asserts or
  dereferences them, a registration without a description block, and memory for the copy of a
  description.
\<close>

fun plain_call :: "if_call \<Rightarrow> bool" where
  "plain_call (Register m op d) = (op = HAL_INTF_OP_REG \<longrightarrow> (\<exists>r. d = Some r \<and> desc r = None))"
| "plain_call (Get_info q) = (q \<noteq> None)"
| "plain_call (Next_ifindex i) = (i \<noteq> None)"
| "plain_call (Update_mac ifx mac) = True"
| "plain_call (Update_router vrf ifx info) = (info \<noteq> None)"
| "plain_call (Update_desc m p s) = (m \<and> p \<noteq> None \<and> s \<noteq> None)"
| "plain_call Dump_table = True"

lemma desc_given_none: "desc r = None \<Longrightarrow> desc_given r db"
  by (simp add: desc_given_def)

lemma with_rc_step:
  assumes "\<exists>r. f = Inr r" "\<And>rc db'. f = Inr (rc, db') \<Longrightarrow> P db'"
  shows "\<exists>a db'. with_rc f = Inr (a, db') \<and> P db'"
  using assms by (auto simp: with_rc_def)

lemma next_ifindex_given: "\<exists>r. dn_hal_get_next_ifindex (Some i) db = Inr r"
  by (auto simp: dn_hal_get_next_ifindex_def split: option.split)

lemma plain_apply:
  assumes "if_reachable db" "orders_spec ord db" "plain_call x"
  shows "\<exists>a db'. if_apply cpy ord x db = Inr (a, db') \<and> if_reachable db'"
proof -
  have i: "db_inv db" using if_reachable_db_inv [OF assms(1)] .
  then have t: "table_inv db" by (simp add: db_inv_def)
  note go = if_reachable.step [OF assms(1)]
  show ?thesis
  proof (cases x)
    case (Register m op d)
    have "\<exists>a db'. with_rc (dn_hal_if_register m op d db) = Inr (a, db') \<and> if_reachable db'"
    proof (cases op)
      case HAL_INTF_OP_REG
      then obtain r where "d = Some r" "desc r = None" using Register assms(3) by auto
      then show ?thesis
        unfolding HAL_INTF_OP_REG
        using register_no_fault [OF t, of m r]
        by (intro with_rc_step) (auto intro: go if_step.register desc_given_none)
    next
      case HAL_INTF_OP_DEREG
      show ?thesis
        unfolding HAL_INTF_OP_DEREG
        using deregister_no_fault [OF i, of m d] by (intro with_rc_step) (auto intro: go if_step.deregister)
    qed
    then show ?thesis using Register by simp
  next
    case (Get_info q)
    then obtain v where q: "q = Some v" using assms(3) by auto
    obtain rc r where "dn_hal_get_interface_info (Some v) db = Inr (rc, r)"
      using get_info_no_fault [OF t, of v] by auto
    then show ?thesis using assms(1) Get_info q by simp
  next
    case (Next_ifindex n)
    then obtain v where n: "n = Some v" using assms(3) by auto
    obtain rc j where "dn_hal_get_next_ifindex (Some v) db = Inr (rc, j)"
      using next_ifindex_given [of v db] by auto
    then show ?thesis using assms(1) Next_ifindex n by simp
  next
    case (Update_mac ifx mac)
    have "\<exists>r. dn_hal_update_intf_mac cpy ifx mac db = Inr r"
      using update_interface_no_fault [OF t] by (simp add: dn_hal_update_intf_mac_def)
    then have "\<exists>a db'. with_rc (dn_hal_update_intf_mac cpy ifx mac db) = Inr (a, db') \<and> if_reachable db'"
      by (rule with_rc_step) (auto intro: go if_step.update_mac)
    then show ?thesis using Update_mac by simp
  next
    case (Update_router vrf ifx info)
    then obtain v where "info = Some v" using assms(3) by auto
    then have "\<exists>r. nas_cmn_update_router_intf_info vrf ifx info db = Inr r"
      using update_router_no_fault [OF t] by simp
    then have "\<exists>a db'. with_rc (nas_cmn_update_router_intf_info vrf ifx info db) = Inr (a, db') \<and> if_reachable db'"
      by (rule with_rc_step) (auto intro: go if_step.update_router)
    then show ?thesis using Update_router by simp
  next
    case (Update_desc m p s)
    then obtain q v where a: "m" "p = Some q" "s = Some v" using assms(3) by auto
    then have "\<exists>r. dn_hal_update_intf_desc cpy True p s db = Inr r"
      using update_desc_no_fault [OF i] by simp
    then have "\<exists>a db'. with_rc (dn_hal_update_intf_desc cpy True p s db) = Inr (a, db') \<and> if_reachable db'"
      by (rule with_rc_step) (auto intro: go if_step.update_desc)
    then show ?thesis using Update_desc a(1) by simp
  next
    case Dump_table
    then show ?thesis using assms(1) dump_no_fault [OF assms(1,2)] by auto
  qed
qed

text \<open>The programs run one after the other do what the functions do.\<close>

lemma run_serial_calls:
  assumes "if_reachable (tbl s)" "slots_ok s" "\<And>db. if_reachable db \<Longrightarrow> orders_spec ord db"
    "\<And>x. x \<in> set xs \<Longrightarrow> plain_call x"
  shows "\<exists>as db. run_calls cpy ord xs (tbl s) = Inr (as, db) \<and> if_reachable db \<and>
    fst (run_serial (if_enter cpy ord) xs s) = map Inr as \<and>
    tbl (snd (run_serial (if_enter cpy ord) xs s)) = db"
  using assms(1,2,4)
proof (induction xs arbitrary: s)
  case Nil
  then show ?case by simp
next
  case (Cons x xs)
  have "visits_once Map.empty (key_order ord Map.empty)"
    using assms(3) [OF if_reachable.init] by (simp add: orders_spec_def empty_db_def)
  then have o: "key_order ord Map.empty = []"
    by (auto simp: visits_once_def) (metis eq_fst_iff list.set_intros(1) neq_Nil_conv)
  obtain a db1 where 1: "if_apply cpy ord x (tbl s) = Inr (a, db1)" "if_reachable db1"
    using plain_apply [OF Cons.prems(1) assms(3) [OF Cons.prems(1)]] Cons.prems(3) by force
  let ?s = "snd (run_prog (snd (if_enter cpy ord x)) s)"
  have 2: "fst (run_prog (snd (if_enter cpy ord x)) s) = Inr a" "tbl ?s = db1" "slots_ok ?s"
    using enter_computes [OF o, of cpy x] Cons.prems(2) 1(1) by (simp_all add: computes_def)
  show ?case
    using Cons.IH [of ?s] Cons.prems(3) 1 2 by (auto simp: call_alone_def case_prod_unfold)
qed

lemma past_calls_in:
  assumes "par_reach grants enter (start_system tds s) c" "x \<in> set (past_calls c)"
  shows "\<exists>xs \<in> set tds. x \<in> set xs"
proof -
  obtain i r where h: "(i, x, r) \<in> set (history c)"
    using assms(2) by (force simp: past_calls_def)
  have "i < length (threads c)"
    using assms(1) h
  proof (induction arbitrary: i x r rule: par_reach.induct)
    case start
    then show ?case by (simp add: start_system_def)
  next
    case (step c j c')
    from step.hyps(2) step.IH step.prems show ?case
      by (cases rule: thread_step_cases) auto
  qed
  moreover have "x \<in> set (calls_of i c)"
    using h by (force simp: calls_of_def)
  ultimately show ?thesis
    using program_order [OF assms(1)] by (metis Un_iff nth_mem set_append)
qed

text \<open>C3: Threads that share the interface table through its lock behave as if they had called it
  one after the other. Whatever the interleaving of their accesses, the calls that have left gave
  the answers that the functions give in the order in which the calls left, without a fault; when
  no write guard is held the table is the one those calls lead to, and a reachable one; each
  thread's calls left in the order in which it makes them; and no two threads are ever about to
  access the same variable with one of them writing. Assumed are the documented behaviour of the
  lock, clients that keep to the table's rules, and that \<open>if_mappings\<close> has the entries of the
  query types that lookups use.\<close>

theorem if_threads_serial:
  assumes "rw_lock_contract grants" "if_reachable (tbl s0)" "slots_ok s0"
    "\<And>db. if_reachable db \<Longrightarrow> orders_spec ord db"
    "\<And>xs x. xs \<in> set tds \<Longrightarrow> x \<in> set xs \<Longrightarrow> plain_call x \<and> lookup_ready (slots s0) x"
    "par_reach grants (if_enter cpy ord) (start_system tds s0) c"
  shows "\<exists>as db. answers c = map Inr as \<and> run_calls cpy ord (past_calls c) (tbl s0) = Inr (as, db) \<and>
    (no_writer c \<longrightarrow> tbl (mem c) = db) \<and> if_reachable db \<and>
    (\<forall>i < length tds. calls_of i c @ pending_of (threads c ! i) = tds ! i) \<and> \<not> race c"
proof -
  have ready: "list_all (lookup_ready (slots s0)) xs" if "xs \<in> set tds" for xs
    using assms(5) [OF that] by (simp add: list_all_iff)
  have "plain_call x" if "x \<in> set (past_calls c)" for x
    using past_calls_in [OF assms(6) that] assms(5) by blast
  then obtain as db where r: "run_calls cpy ord (past_calls c) (tbl s0) = Inr (as, db)" "if_reachable db"
    "fst (run_serial (if_enter cpy ord) (past_calls c) s0) = map Inr as"
    "tbl (snd (run_serial (if_enter cpy ord) (past_calls c) s0)) = db"
    using run_serial_calls [OF assms(2-4), of "past_calls c"] by blast
  note serial = if_api.interleaving_serial [OF assms(6,1), of "slots s0", OF subset_refl ready]
  show ?thesis
    using r serial(1) serial(2) program_order [OF assms(6)]
      if_api.no_race [OF assms(6,1), of "slots s0", OF subset_refl ready] by auto
qed

text \<open>Iteration orders exist: the maps of a reachable table are finite.\<close>

lemma visits_once_ex:
  assumes "finite (dom m)"
  shows "\<exists>es. visits_once m es"
proof -
  obtain ks where ks: "set ks = dom m" "distinct ks"
    using finite_distinct_list [OF assms] by blast
  have "visits_once m (map (\<lambda>k. (k, the (m k))) ks)"
    using ks by (auto simp: visits_once_def o_def image_iff)
  then show ?thesis by blast
qed

lemma reachable_names_finite:
  assumes "if_reachable db"
  shows "finite (dom (if_name_map db))"
proof -
  have t: "table_inv db" using if_reachable_db_inv [OF assms] by (simp add: db_inv_def)
  have "n \<in> (\<lambda>a. if_name (the (rec_heap db a))) ` {..< next_addr db}" if "if_name_map db n = Some a" for n a
  proof -
    have "index_of db HAL_INTF_INFO_FROM_IF_NAME (Inl n) = Some a" using that by (simp add: index_of_def)
    then obtain r where r: "rec_heap db a = Some r" "rec_key HAL_INTF_INFO_FROM_IF_NAME r = Some (Inl n)"
      using table_inv_index [OF t] by blast
    then have "if_name r = n" by (simp add: rec_key_def split: if_splits)
    then show ?thesis using r(1) table_inv_fresh [OF t r(1)] by force
  qed
  then have "dom (if_name_map db) \<subseteq> (\<lambda>a. if_name (the (rec_heap db a))) ` {..< next_addr db}" by auto
  then show ?thesis by (rule finite_subset) simp
qed

lemma orders_ex: "\<exists>ord. \<forall>db. if_reachable db \<longrightarrow> orders_spec ord db"
proof -
  have "\<forall>m :: u64 \<rightharpoonup> addr. \<exists>es. visits_once m es"
    by (intro allI visits_once_ex finite)
  then obtain f :: "(u64 \<rightharpoonup> addr) \<Rightarrow> (u64 \<times> addr) list" where f: "visits_once m (f m)" for m
    by metis
  have "\<forall>m :: string \<rightharpoonup> addr. \<exists>es. finite (dom m) \<longrightarrow> visits_once m es"
    using visits_once_ex by blast
  then obtain g :: "(string \<rightharpoonup> addr) \<Rightarrow> (string \<times> addr) list" where g: "finite (dom m) \<Longrightarrow> visits_once m (g m)" for m
    by metis
  have "orders_spec \<lparr>key_order = f, name_order = g\<rparr> db" if "if_reachable db" for db
    using f g reachable_names_finite [OF that] by (simp add: orders_spec_def)
  then show ?thesis by blast
qed

text \<open>Two readers whose calls overlap, on the table with one port and all entries in use.\<close>

definition port1_shared :: if_shared where
  "port1_shared = \<lparr>tbl = port1_db, slots = UNIV\<rparr>"

definition two_readers :: "if_call list list" where
  "two_readers = [[Next_ifindex (Some 0)], [Get_info (Some port1_query)]]"

lemma two_readers_run:
  "\<exists>c. run_schedule rw_grants (if_enter trunc_copy ord) [0, 1, 1, 0, 1, 0, 1, 1]
     (start_system two_readers port1_shared) = Some c \<and>
   past_calls c = [Next_ifindex (Some 0), Get_info (Some port1_query)]"
proof -
  have l: "locate_prog HAL_INTF_INFO_FROM_IF port1_query = bind_prog (slot_prog HAL_INTF_INFO_FROM_IF)
     (\<lambda>_. look (Inner HAL_INTF_INFO_FROM_IF) (\<lambda>s. if_mappings (tbl s) HAL_INTF_INFO_FROM_IF (mk_key HAL_INTF_INFO_FROM_IF port1_query)))"
    and m: "if_mappings port1_db HAL_INTF_INFO_FROM_IF (mk_key HAL_INTF_INFO_FROM_IF port1_query) = Some 0"
    using port1_query_finds
    by (auto simp: port1_query_def locate_prog_def locate_def split: if_splits)
  have t: "q_type port1_query = HAL_INTF_INFO_FROM_IF" "port_query port1_query = port1_query"
    by (simp_all add: port1_query_def port_query_def)
  have n: "dn_hal_get_next_ifindex (Some 0) port1_db = Inr (STD_ERR_OK, Some 10)"
    by (simp add: dn_hal_get_next_ifindex_def port1_indexes_eq oset_upper_bound_def)
  show ?thesis
    by (simp del: mk_key.simps add: n two_readers_def start_system_def port1_shared_def thread_step_def rw_grants_def guards_held_def
        guard_of_def map_filter_def as_answer_def then_ok_def get_info_prog_def t l m slot_prog_def rec_prog_def
        next_ifindex_prog_def port1_heap past_calls_def)
qed

lemma if_threads_serial_witness:
  "\<exists>ord c as db. par_reach rw_grants (if_enter trunc_copy ord) (start_system two_readers port1_shared) c \<and>
     past_calls c = [Next_ifindex (Some 0), Get_info (Some port1_query)] \<and> answers c = map Inr as \<and>
     run_calls trunc_copy ord (past_calls c) port1_db = Inr (as, db) \<and> \<not> race c"
proof -
  obtain ord where o: "\<And>db. if_reachable db \<Longrightarrow> orders_spec ord db" using orders_ex by blast
  obtain c where c: "run_schedule rw_grants (if_enter trunc_copy ord) [0, 1, 1, 0, 1, 0, 1, 1]
      (start_system two_readers port1_shared) = Some c"
    "past_calls c = [Next_ifindex (Some 0), Get_info (Some port1_query)]"
    using two_readers_run [of ord] by blast
  have r: "par_reach rw_grants (if_enter trunc_copy ord) (start_system two_readers port1_shared) c"
    using run_schedule_reach [OF c(1)] .
  have "if_reachable (tbl port1_shared)" "slots_ok port1_shared"
    using port1_reachable by (simp_all add: port1_shared_def slots_ok_def)
  moreover have "plain_call x \<and> lookup_ready (slots port1_shared) x"
    if "xs \<in> set two_readers" "x \<in> set xs" for xs x
    using that by (auto simp: two_readers_def port1_shared_def)
  ultimately obtain as db where "answers c = map Inr as"
    "run_calls trunc_copy ord (past_calls c) (tbl port1_shared) = Inr (as, db)" "\<not> race c"
    using if_threads_serial [OF rw_grants_contract _ _ o _ r] by blast
  moreover have "tbl port1_shared = port1_db" by (simp add: port1_shared_def)
  ultimately show ?thesis using r c(2) by metis
qed

text \<open>The orders of iteration play no part in the calls of the examples.\<close>

definition no_order :: if_orders where
  "no_order = \<lparr>key_order = (\<lambda>_. []), name_order = (\<lambda>_. [])\<rparr>"

section \<open>What the guards do not give\<close>

lemma bind_slot:
  "\<exists>u. \<forall>k. bind_prog (slot_prog t) k = Rd Mappings (\<lambda>s. if t \<in> slots s then k () else Wr Mappings u (k ()))"
  by (auto simp: slot_prog_def if_distrib [of "\<lambda>p. bind_prog p k" for k] intro!: exI)

lemma lookup_shape:
  assumes "slot_used (q_type q) (port_query q)"
  shows "\<exists>u k. if_enter cpy ord (Get_info (Some q)) =
    (Shared, Rd Mappings (\<lambda>s. if q_type q \<in> slots s then k else Wr Mappings u k))"
proof -
  let ?g = "\<lambda>(rc, r). Info rc r"
  obtain k where k: "as_answer ?g (get_info_prog (port_query q)) = bind_prog (slot_prog (q_type q)) k"
    using assms by (auto simp: as_answer_def then_ok_def get_info_prog_def locate_prog_def slot_used_def bind_assoc)
  obtain u where "bind_prog (slot_prog (q_type q)) k =
      Rd Mappings (\<lambda>s. if q_type q \<in> slots s then k () else Wr Mappings u (k ()))"
    using bind_slot by blast
  then show ?thesis using k by auto
qed

text \<open>C10: A lookup writes under a read guard. Two threads that look up by the same query type, one
  with valid keys, race exactly when \<open>if_mappings\<close> has no entry for that type: \<open>_locate\<close> reaches
  the inner map with \<open>if_mappings[type]\<close>, which inserts the entry, and the lock lets both in.\<close>

theorem lookup_race_iff:
  assumes "rw_lock_contract grants" "grants Shared [Shared]"
    "slot_used (q_type q) (port_query q)" "slot_used (q_type q) (port_query q')" "q_type q' = q_type q"
  shows "(\<exists>c. par_reach grants (if_enter cpy ord) (start_system [[Get_info (Some q)], [Get_info (Some q')]] s0) c \<and> race c)
    \<longleftrightarrow> q_type q \<notin> slots s0"
proof
  assume "\<exists>c. par_reach grants (if_enter cpy ord) (start_system [[Get_info (Some q)], [Get_info (Some q')]] s0) c \<and> race c"
  then obtain c where c: "par_reach grants (if_enter cpy ord) (start_system [[Get_info (Some q)], [Get_info (Some q')]] s0) c"
    "race c" by blast
  have "list_all (lookup_ready (slots s0)) xs"
    if "q_type q \<in> slots s0" "xs \<in> set [[Get_info (Some q)], [Get_info (Some q')]]" for xs
    using that assms(5) by auto
  then show "q_type q \<notin> slots s0"
    using if_api.no_race [OF c(1) assms(1), of "slots s0"] c(2) by blast
next
  assume n: "q_type q \<notin> slots s0"
  let ?f = "if_enter cpy ord" and ?c = "start_system [[Get_info (Some q)], [Get_info (Some q')]] s0"
  obtain u k where k: "?f (Get_info (Some q)) =
      (Shared, Rd Mappings (\<lambda>s. if q_type q \<in> slots s then k else Wr Mappings u k))"
    using lookup_shape [OF assms(3)] by blast
  obtain u' k' where k': "?f (Get_info (Some q')) =
      (Shared, Rd Mappings (\<lambda>s. if q_type q' \<in> slots s then k' else Wr Mappings u' k'))"
    using lookup_shape [of q'] assms(4,5) by metis
  show "\<exists>c. par_reach grants ?f ?c c \<and> race c"
    by (rule upgrade_race [where enter = "?f" and x = "Get_info (Some q)" and y = "Get_info (Some q')" and P = "\<lambda>s. q_type q \<in> slots s" and l = Mappings and k = k and u = u
          and f = "\<lambda>s. if q_type q' \<in> slots s then k' else Wr Mappings u' k'", OF k k'])
      (use n assms(1,2) in \<open>auto simp: rw_lock_contract_def\<close>)
qed

text \<open>The table as the process starts with it, and a query by VLAN.\<close>

definition vlan_query :: interface_ctrl where
  "vlan_query = zero_ctrl\<lparr>int_type := nas_int_type_VLAN, un := 10, q_type := HAL_INTF_INFO_FROM_VLAN\<rparr>"

lemma lookup_race_iff_witness:
  "\<exists>c. par_reach rw_grants (if_enter trunc_copy no_order)
     (start_system [[Get_info (Some vlan_query)], [Get_info (Some vlan_query)]] \<lparr>tbl = empty_db, slots = {}\<rparr>) c \<and> race c"
proof -
  have "port_query vlan_query = vlan_query" "slot_used (q_type vlan_query) vlan_query"
    by (simp_all add: port_query_def vlan_query_def slot_used_def vlan_id_def INVALID_KEY_def zero_ctrl_def)
  then show ?thesis
    using lookup_race_iff [OF rw_grants_contract, of vlan_query vlan_query trunc_copy no_order
        "\<lparr>tbl = empty_db, slots = {}\<rparr>"]
    by (simp add: rw_grants_def)
qed

end
