(* ===== verification/IfDescLife.thy ===== *)
theory IfDescLife
  imports IfThreadsProps
begin

text \<open>
  How long the description that \<open>dn_hal_get_interface_info\<close> hands out stays valid: the call
  copies the pointer of the record under its read guard and the caller follows it after the guard
  is gone.
\<close>

text \<open>The calls that free the description of the record at \<open>a\<close>.\<close>

fun frees_desc :: "addr \<Rightarrow> if_call \<Rightarrow> if_db \<Rightarrow> bool" where
  "frees_desc a (Register m op d) db =
     (op = HAL_INTF_OP_DEREG \<and> (case d of None \<Rightarrow> False | Some r \<Rightarrow> locate_first all_queries r db = Some a))"
| "frees_desc a (Update_desc m p s) db =
     (case (p, s) of (Some q, Some t) \<Rightarrow> length t \<le> MAX_INTF_DESC_LEN \<and> locate (q_type q) q db = Some a | _ \<Rightarrow> False)"
| "frees_desc a _ db = False"

lemma delete_other_desc:
  assumes "desc_inv db" "rec_heap db a = Some r" "desc r = Some b" "rec_heap db a' = Some r'"
    "delete_desc (desc r') (desc_heap db) = Inr h"
  shows "h b = (if a' = a then None else desc_heap db b)"
proof (cases "a' = a")
  case True
  then show ?thesis using assms by (auto simp: delete_desc_def split: option.splits)
next
  case False
  then have "desc r' \<noteq> Some b" using assms(1-4) unfolding desc_inv_def by blast
  then show ?thesis using assms(5) False by (auto simp: delete_desc_def split: option.splits)
qed

lemma with_rc_Inr: "with_rc f = Inr (x, db) \<longleftrightarrow> (\<exists>rc. f = Inr (rc, db) \<and> x = Rc rc)"
  by (cases f) (auto simp: with_rc_def)

lemma update_desc_frees:
  assumes "db_inv db" "rec_heap db a = Some r" "desc r = Some b"
    "dn_hal_update_intf_desc cpy m (Some q) (Some s) db = Inr (rc, db')"
  shows "desc_heap db' b = (if frees_desc a (Update_desc m (Some q) (Some s)) db then None else desc_heap db b)"
proof (cases "length s \<le> MAX_INTF_DESC_LEN \<and> locate (q_type q) q db \<noteq> None")
  case True
  then obtain a' where a': "locate (q_type q) q db = Some a'" "length s \<le> MAX_INTF_DESC_LEN" by auto
  have t: "table_inv db" and o: "desc_inv db" using assms(1) by (simp_all add: db_inv_def)
  obtain r' where r': "rec_heap db a' = Some r'"
    using locate_heap [OF t a'(1)] by auto
  obtain h where h: "delete_desc (desc r') (desc_heap db) = Inr h"
    using desc_inv_delete [OF o r'] by blast
  have "b \<noteq> next_addr db" using desc_not_fresh [OF t o assms(2)] assms(3) by auto
  then have "desc_heap db' b = h b"
    using assms(4) a' r' h by (auto simp: dn_hal_update_intf_desc_def Let_def not_less split: if_splits)
  then show ?thesis using delete_other_desc [OF o assms(2,3) r' h] a' by simp
next
  case False
  then have "db' = db"
    using assms(4) by (auto simp: dn_hal_update_intf_desc_def split: if_splits)
  then show ?thesis using False by auto
qed

lemma deregister_frees:
  assumes "db_inv db" "rec_heap db a = Some r" "desc r = Some b"
    "dn_hal_if_register m HAL_INTF_OP_DEREG d db = Inr (rc, db')"
  shows "desc_heap db' b = (if frees_desc a (Register m HAL_INTF_OP_DEREG d) db then None else desc_heap db b)"
proof (cases d)
  case None
  then show ?thesis using assms(4) by (auto simp: dereg_is_cleanup cleanup_def)
next
  case (Some q)
  have t: "table_inv db" and o: "desc_inv db" using assms(1) by (simp_all add: db_inv_def)
  from t o show ?thesis
  proof (cases rule: cleanup_cases [where q = q])
    case none
    then show ?thesis using Some assms(4) by (auto simp: dereg_is_cleanup)
  next
    case (found a' r' db1)
    then have "db' = db1" "delete_desc (desc r') (desc_heap db) = Inr (desc_heap db')"
      using Some assms(4) by (auto simp: dereg_is_cleanup deregistered_def)
    then show ?thesis using delete_other_desc [OF o assms(2,3) found(2)] Some found(1) by auto
  qed
qed

text \<open>C11: The description a lookup hands out is followed without the lock. The copy of the record
  points to the block of the table, live when the lookup returns; the next call of another thread
  takes the block away exactly when it deregisters that record or updates its description, to
  whatever text, and every other call leaves the block and its text alone. A caller that reads the
  description after such a call reads freed memory.\<close>

theorem lookup_desc_valid_iff:
  assumes "if_reachable db"
    "dn_hal_get_interface_info (Some q) db = Inr (STD_ERR_OK, r)" "desc r = Some b"
    "locate (q_type q) (port_query q) db = Some a"
    "if_apply cpy ord x db = Inr (ans, db')"
  shows "desc_heap db b \<noteq> None \<and>
    desc_heap db' b = (if frees_desc a x db then None else desc_heap db b)"
proof -
  have inv: "db_inv db" using if_reachable_db_inv [OF assms(1)] .
  then have t: "table_inv db" and o: "desc_inv db" by (simp_all add: db_inv_def)
  have r: "rec_heap db a = Some r"
    using assms(2,4) by (auto simp: dn_hal_get_interface_info_def port_query_def set_port_mapped_def Let_def split: option.splits if_splits)
  have "desc_heap db' b = (if frees_desc a x db then None else desc_heap db b)"
  proof (cases x)
    case (Register m op d)
    then obtain rc where e: "dn_hal_if_register m op d db = Inr (rc, db')"
      using assms(5) by (auto simp: with_rc_Inr)
    show ?thesis
    proof (cases op)
      case HAL_INTF_OP_REG
      then obtain d' where "d = Some d'" using Register e by (cases d) (auto simp: dn_hal_if_register_def)
      with t e HAL_INTF_OP_REG show ?thesis
        using Register by (auto elim!: register_cases simp: registered_def)
    next
      case HAL_INTF_OP_DEREG
      then show ?thesis using deregister_frees [OF inv r assms(3)] e Register by simp
    qed
  next
    case (Update_desc m p s)
    then obtain rc where e: "dn_hal_update_intf_desc cpy m p s db = Inr (rc, db')"
      using assms(5) by (auto simp: with_rc_Inr)
    then obtain u v where "p = Some u" "s = Some v"
      by (cases p; cases s) (simp_all add: dn_hal_update_intf_desc_def)
    then show ?thesis
      using update_desc_frees [OF inv r assms(3), of cpy m u v] e Update_desc by simp
  qed (use assms(5) in \<open>auto simp: with_rc_Inr dn_hal_update_intf_mac_def dn_hal_update_interface_def
      nas_cmn_update_router_intf_info_def Let_def map_sum_def split: option.splits sum.splits\<close>)
  moreover have "desc_heap db b \<noteq> None"
    using o r assms(3) by (auto simp: desc_inv_def)
  ultimately show ?thesis by blast
qed

lemma plain_update_desc:
  assumes "if_reachable db"
  shows "\<exists>ans db'. if_apply cpy ord (Update_desc m (Some q) (Some s)) db = Inr (ans, db')"
  using update_desc_no_fault [OF if_reachable_db_inv [OF assms], of cpy m q s] by (auto simp: with_rc_def)

text \<open>Port 1 with a description, the lookup of it, and another thread that clears it.\<close>

lemma lookup_desc_valid_iff_witness:
  "\<exists>db r b ans db'. if_reachable db \<and> dn_hal_get_interface_info (Some port1_query) db = Inr (STD_ERR_OK, r) \<and>
     desc r = Some b \<and> desc_heap db b = Some ''uplink'' \<and>
     if_apply trunc_copy no_order (Update_desc True (Some port1_query) (Some [])) db = Inr (ans, db') \<and>
     desc_heap db' b = None"
proof -
  let ?set = "dn_hal_update_intf_desc trunc_copy True (Some port1_query)"
  have loc: "locate (q_type port1_query) port1_query db = Some 0" if "if_mappings db = if_mappings port1_db" for db
    using port1_query_finds that by (auto simp: locate_def port1_query_def split: if_splits)
  have l: "length ''uplink'' \<le> MAX_INTF_DESC_LEN" "isalnum (hd ''uplink'')"
    by (simp_all add: MAX_INTF_DESC_LEN_def isalnum_def)
  define b where "b = next_addr port1_db"
  define r where "r = port1\<lparr>desc := Some b\<rparr>"
  define db where "db = port1_db\<lparr>next_addr := b + 1, desc_heap := (desc_heap port1_db)(b \<mapsto> ''uplink''),
      rec_heap := [0 \<mapsto> r]\<rparr>"
  have set: "?set (Some ''uplink'') port1_db = Inr (STD_ERR_OK, db)"
    using loc [OF refl] l
    by (simp add: dn_hal_update_intf_desc_def Let_def port1_heap delete_desc_def db_def b_def r_def trunc_copy_def)
  have reach: "if_reachable db"
    using port1_reachable if_step.update_desc [OF set] by (rule if_reachable.step)
  have m: "if_mappings db = if_mappings port1_db" "rec_heap db 0 = Some r" "desc_heap db b = Some ''uplink''"
    by (simp_all add: db_def)
  have q: "port_query port1_query = port1_query" "q_type port1_query \<noteq> HAL_INTF_INFO_FROM_PORT"
    by (simp_all add: port_query_def port1_query_def)
  have get: "dn_hal_get_interface_info (Some port1_query) db = Inr (STD_ERR_OK, r)"
    using loc [OF m(1)] m(2) q(2) by (simp add: dn_hal_get_interface_info_def)
  have rb: "desc r = Some b" by (simp add: r_def)
  obtain ans db' where ap: "if_apply trunc_copy no_order (Update_desc True (Some port1_query) (Some [])) db = Inr (ans, db')"
    using plain_update_desc [OF reach] by blast
  have "desc_heap db' b = None"
    using lookup_desc_valid_iff [OF reach get rb _ ap] loc [OF m(1)] q(1) by simp
  then show ?thesis using reach get rb m(3) ap by blast
qed

end
