(* ===== verification/BridgeThreads.thy ===== *)
theory BridgeThreads
  imports BridgeUtils GuardedApi
begin

text \<open>
  The bridge table of \<open>src/src/nas_com_bridge_utils.cpp\<close> between threads. Its functions hold
  the mutex \<open>bridge_to_vlan_id_map_mutex\<close>, a guard that excludes every other, with one exception:
  \<open>nas_com_get_1d_br_reserved_vid\<close> reads the reserved VLAN without it.
\<close>

datatype br_loc = Br_map | Br_reserved

datatype br_call =
    Br_get_reserved
  | Br_get_vid "string option" u16
  | Br_add_vid "string option" u16
  | Br_del_vid "string option"
  | Br_set_reserved u16

datatype br_answer = Br_vlan u16 | Br_rc t_std_error | Br_vid t_std_error u16

text \<open>
  A function as its guard and its accesses. The test for a name that is \<open>NULL\<close> comes before the
  guard.
\<close>

fun br_enter :: "br_call \<Rightarrow> lock_mode \<times> (br_loc, bridge_db, br_answer) prog" where
  "br_enter Br_get_reserved = (Unguarded, Rd Br_reserved (\<lambda>s. Ret (Br_vlan (reserved_untagged_vlanid s))))"
| "br_enter (Br_get_vid name v) =
     (case name of None \<Rightarrow> (Unguarded, Ret (Br_vid (STD_ERR INTERFACE PARAM (Priv 0)) v))
      | Some n \<Rightarrow> (Exclusive, Rd Br_map (\<lambda>s. case bridge_to_vlan_id_map s n of
          None \<Rightarrow> Rd Br_reserved (\<lambda>s. let r = reserved_untagged_vlanid s
            in Ret (if r = 0 then Br_vid (STD_ERR INTERFACE PARAM (Priv 0)) r else Br_vid STD_ERR_OK r))
        | Some w \<Rightarrow> Ret (Br_vid STD_ERR_OK w))))"
| "br_enter (Br_add_vid name v) =
     (case name of None \<Rightarrow> (Unguarded, Ret (Br_rc (STD_ERR INTERFACE PARAM (Priv 0))))
      | Some n \<Rightarrow> (Exclusive, Rd Br_map (\<lambda>s. case bridge_to_vlan_id_map s n of
          None \<Rightarrow> Wr Br_map (\<lambda>s. s\<lparr>bridge_to_vlan_id_map := (bridge_to_vlan_id_map s)(n \<mapsto> v)\<rparr>)
                    (Ret (Br_rc STD_ERR_OK))
        | Some _ \<Rightarrow> Ret (Br_rc (STD_ERR INTERFACE PARAM (Priv 0))))))"
| "br_enter (Br_del_vid name) =
     (case name of None \<Rightarrow> (Unguarded, Ret (Br_rc (STD_ERR INTERFACE PARAM (Priv 0))))
      | Some n \<Rightarrow> (Exclusive, Rd Br_map (\<lambda>s. case bridge_to_vlan_id_map s n of
          None \<Rightarrow> Ret (Br_rc (STD_ERR INTERFACE PARAM (Priv 0)))
        | Some _ \<Rightarrow> Wr Br_map (\<lambda>s. s\<lparr>bridge_to_vlan_id_map := (bridge_to_vlan_id_map s)(n := None)\<rparr>)
                      (Ret (Br_rc STD_ERR_OK)))))"
| "br_enter (Br_set_reserved v) =
     (Exclusive, Wr Br_reserved (\<lambda>s. s\<lparr>reserved_untagged_vlanid := v\<rparr>) (Ret (Br_rc STD_ERR_OK)))"

text \<open>The same calls as the functions of the table, one at a time.\<close>

fun br_apply :: "br_call \<Rightarrow> bridge_db \<Rightarrow> br_answer \<times> bridge_db" where
  "br_apply Br_get_reserved s = (Br_vlan (nas_com_get_1d_br_reserved_vid s), s)"
| "br_apply (Br_get_vid name v) s =
     (case nas_com_get_1d_br_untag_vid name v s of (rc, w) \<Rightarrow> (Br_vid rc w, s))"
| "br_apply (Br_add_vid name v) s = map_prod Br_rc id (nas_com_add_1d_br_untag_vid name v s)"
| "br_apply (Br_del_vid name) s = map_prod Br_rc id (nas_com_del_1d_br_untag_vid name s)"
| "br_apply (Br_set_reserved v) s = map_prod Br_rc id (nas_com_set_1d_br_reserved_vid v s)"

fun br_calls :: "br_call list \<Rightarrow> bridge_db \<Rightarrow> br_answer list \<times> bridge_db" where
  "br_calls [] s = ([], s)"
| "br_calls (x # xs) s =
     (case br_apply x s of (a, s1) \<Rightarrow> (case br_calls xs s1 of (as, s2) \<Rightarrow> (a # as, s2)))"

lemma br_enter_apply: "call_alone br_enter x = br_apply x"
  by (rule ext, cases x)
    (auto simp: call_alone_def Let_def nas_com_get_1d_br_reserved_vid_def nas_com_get_1d_br_untag_vid_def
      nas_com_add_1d_br_untag_vid_def nas_com_del_1d_br_untag_vid_def nas_com_set_1d_br_reserved_vid_def
      split: option.split)

lemma br_serial_calls: "run_serial br_enter xs s = br_calls xs s"
  by (induction xs arbitrary: s) (simp_all add: br_enter_apply)

interpretation br_api: guarded_api br_enter "\<lambda>x. x \<noteq> Br_get_reserved" "\<lambda>_. True"
proof
  fix x m p
  show "\<exists>r. p = Ret r" if "x \<noteq> Br_get_reserved" "br_enter x = (Unguarded, p)"
    using that by (cases x) (auto split: option.splits)
  show "reads_only (\<lambda>_. True) p" if "br_enter x = (Shared, p)"
    using that by (cases x) (auto split: option.splits)
  show "keeps (\<lambda>_. True) p" if "br_enter x = (m, p)"
    using that by (cases x) (auto simp: Let_def split: option.splits)
qed

text \<open>Threads that share the bridge table behave as if they had made their calls one after the
  other, and do not race, as long as none of them asks for the reserved VLAN by itself.\<close>

theorem bridge_threads_serial:
  assumes "rw_lock_contract grants" "\<And>xs. xs \<in> set tds \<Longrightarrow> Br_get_reserved \<notin> set xs"
    "par_reach grants br_enter (start_system tds s0) c"
  shows "fst (br_calls (past_calls c) s0) = answers c \<and>
    (no_writer c \<longrightarrow> mem c = snd (br_calls (past_calls c) s0)) \<and> \<not> race c"
proof -
  have a: "list_all (\<lambda>x. x \<noteq> Br_get_reserved) xs" if "xs \<in> set tds" for xs
    using assms(2) [OF that] by (auto simp: list_all_iff)
  show ?thesis
    using br_api.interleaving_serial [OF assms(3,1) TrueI a] br_api.no_race [OF assms(3,1) TrueI a]
    by (simp add: br_serial_calls)
qed

text \<open>The mutex.\<close>

definition mutex_grants :: "lock_mode \<Rightarrow> lock_mode list \<Rightarrow> bool" where
  "mutex_grants m H = (H = [])"

lemma mutex_contract: "rw_lock_contract mutex_grants"
  by (simp add: rw_lock_contract_def mutex_grants_def)

lemma bridge_threads_serial_witness:
  "\<exists>c. run_schedule mutex_grants br_enter [0, 0, 0, 0, 1, 1, 1]
     (start_system [[Br_add_vid (Some ''br1'') 7], [Br_get_vid (Some ''br1'') 0]] init_bridge_db) = Some c \<and>
   answers c = [Br_rc STD_ERR_OK, Br_vid STD_ERR_OK 7] \<and>
   fst (br_calls (past_calls c) init_bridge_db) = answers c"
proof -
  obtain c where c: "run_schedule mutex_grants br_enter [0, 0, 0, 0, 1, 1, 1]
      (start_system [[Br_add_vid (Some ''br1'') 7], [Br_get_vid (Some ''br1'') 0]] init_bridge_db) = Some c"
    "answers c = [Br_rc STD_ERR_OK, Br_vid STD_ERR_OK 7]"
    by (simp add: start_system_def thread_step_def mutex_grants_def guards_held_def guard_of_def map_filter_def
        init_bridge_db_def answers_def)
  have "fst (br_calls (past_calls c) init_bridge_db) = answers c"
    by (rule bridge_threads_serial [OF mutex_contract _ run_schedule_reach [OF c(1)], THEN conjunct1]) auto
  then show ?thesis using c by blast
qed

text \<open>What a call can access.\<close>

fun br_touch :: "br_call \<Rightarrow> br_loc \<times> bool \<Rightarrow> bool" where
  "br_touch (Br_set_reserved v) a = (a = (Br_reserved, True))"
| "br_touch Br_get_reserved a = (a = (Br_reserved, False))"
| "br_touch _ a = (a = (Br_reserved, False) \<or> fst a = Br_map)"

lemma br_touches: "touches (br_touch x) (snd (br_enter x))"
  by (cases x) (auto simp: Let_def split: option.split)

lemma reserved_race:
  assumes "rw_lock_contract grants"
  shows "\<exists>c. par_reach grants br_enter (start_system [[Br_get_reserved], [Br_set_reserved v]] s0) c \<and> race c"
    "\<exists>c. par_reach grants br_enter (start_system [[Br_set_reserved v], [Br_get_reserved]] s0) c \<and> race c"
proof -
  have g: "grants Exclusive []" using assms by (simp add: rw_lock_contract_def)
  let ?get = "\<lparr>todo = [], now = In_call Br_get_reserved Unguarded (snd (br_enter Br_get_reserved))\<rparr>"
    and ?set = "\<lparr>todo = [], now = In_call (Br_set_reserved v) Exclusive (snd (br_enter (Br_set_reserved v)))\<rparr>"
  have "run_schedule grants br_enter [1, 0] (start_system [[Br_get_reserved], [Br_set_reserved v]] s0) =
      Some \<lparr>threads = [?get, ?set], mem = s0, history = []\<rparr>"
    using g by (simp add: start_system_def thread_step_def guards_held_def guard_of_def map_filter_def)
  moreover have "race \<lparr>threads = [?get, ?set], mem = s0, history = []\<rparr>"
    by (rule raceI [of 0 _ 1]) (simp_all add: next_access_def conflict_def)
  ultimately show "\<exists>c. par_reach grants br_enter (start_system [[Br_get_reserved], [Br_set_reserved v]] s0) c \<and> race c"
    using run_schedule_reach by blast
  have "run_schedule grants br_enter [0, 1] (start_system [[Br_set_reserved v], [Br_get_reserved]] s0) =
      Some \<lparr>threads = [?set, ?get], mem = s0, history = []\<rparr>"
    using g by (simp add: start_system_def thread_step_def guards_held_def guard_of_def map_filter_def)
  moreover have "race \<lparr>threads = [?set, ?get], mem = s0, history = []\<rparr>"
    by (rule raceI [of 0 _ 1]) (simp_all add: next_access_def conflict_def)
  ultimately show "\<exists>c. par_reach grants br_enter (start_system [[Br_set_reserved v], [Br_get_reserved]] s0) c \<and> race c"
    using run_schedule_reach by blast
qed

text \<open>C30: Two threads that make one call each to the bridge table race exactly when one reads the
  reserved VLAN by itself and the other sets it: \<open>nas_com_get_1d_br_reserved_vid\<close> takes no
  guard.\<close>

theorem bridge_race_iff:
  assumes "rw_lock_contract grants"
  shows "(\<exists>c. par_reach grants br_enter (start_system [[x], [y]] s0) c \<and> race c) \<longleftrightarrow>
    (\<exists>v. {x, y} = {Br_get_reserved, Br_set_reserved v})"
proof
  assume "\<exists>c. par_reach grants br_enter (start_system [[x], [y]] s0) c \<and> race c"
  then obtain c where c: "par_reach grants br_enter (start_system [[x], [y]] s0) c" "race c" by blast
  have "x = Br_get_reserved \<or> y = Br_get_reserved"
  proof (rule ccontr)
    assume "\<not> ?thesis"
    then have "list_all (\<lambda>x. x \<noteq> Br_get_reserved) xs" if "xs \<in> set [[x], [y]]" for xs
      using that by auto
    then show False using br_api.no_race [OF c(1) assms TrueI] c(2) by blast
  qed
  moreover have "\<exists>a b. br_touch x a \<and> br_touch y b \<and> conflict (Some a) (Some b)"
  proof (rule ccontr)
    assume n: "\<not> ?thesis"
    let ?P = "\<lambda>i. if i = 0 then br_touch x else if i = Suc 0 then br_touch y else (\<lambda>_. False)"
    have "\<not> race c"
    proof (rule no_race_apart [OF c(1), where P = ?P])
      show "touches (?P i) (snd (br_enter z))" if "i < length [[x], [y]]" "z \<in> set ([[x], [y]] ! i)" for i z
        using that br_touches by (auto simp: less_Suc_eq)
      show "\<not> conflict (Some a) (Some b)" if "i \<noteq> j" "?P i a" "?P j b" for i j a b
        using that n conflict_sym [of "Some a" "Some b"] by (cases "i = 0"; cases "j = 0") (auto simp del: split_paired_All split_paired_Ex split: if_splits)
    qed
    then show False using c(2) by simp
  qed
  ultimately show "\<exists>v. {x, y} = {Br_get_reserved, Br_set_reserved v}"
    by (elim disjE) (auto simp: conflict_def elim!: br_touch.elims)
next
  assume "\<exists>v. {x, y} = {Br_get_reserved, Br_set_reserved v}"
  then obtain v where "x = Br_get_reserved \<and> y = Br_set_reserved v \<or> x = Br_set_reserved v \<and> y = Br_get_reserved"
    by (auto simp: doubleton_eq_iff)
  then show "\<exists>c. par_reach grants br_enter (start_system [[x], [y]] s0) c \<and> race c"
    using reserved_race [OF assms] by auto
qed

lemma bridge_race_iff_witness:
  "\<exists>c. par_reach mutex_grants br_enter (start_system [[Br_get_reserved], [Br_set_reserved 9]] init_bridge_db) c \<and> race c"
  using bridge_race_iff [OF mutex_contract, of "Br_get_reserved" "Br_set_reserved 9" init_bridge_db] by blast

end
