(* ===== verification/VrfThreads.thy ===== *)
theory VrfThreads
  imports VrfUtils GuardedApi
begin

text \<open>
  The VRF table of \<open>src/src/nas_vrf_utils.cpp\<close> between threads, under its read-write lock
  \<open>rw_lock\<close>: the functions as the accesses they make to the hash map, to the records that it
  points to and to the heap.
\<close>

datatype vrf_loc = Vrf_map | Vrf_rec string | Vrf_heap

type_synonym 'a vrf_prog = "(vrf_loc, vrf_db, 'a) prog"

datatype vrf_call =
    Vrf_update_info bool bool nas_vrf_op_t "nas_vrf_ctrl_t option"
  | Vrf_get_obj_id "string option"
  | Vrf_get_int_id "string option"
  | Vrf_get_ctrl "string option"
  | Vrf_get_all "nas_vrf_ctrl_t list"

datatype vrf_answer =
    Vrf_rc t_std_error
  | Vrf_obj t_std_error "u64 option"
  | Vrf_int t_std_error "u32 option"
  | Vrf_ctrl t_std_error "nas_vrf_ctrl_t option"
  | Vrf_list "nas_vrf_ctrl_t list"

text \<open>The record that a lookup has found, read in one access after the lookup.\<close>

definition vrf_rec_prog :: "string \<Rightarrow> (nas_vrf_ctrl_t \<Rightarrow> (fault + 'a) vrf_prog) \<Rightarrow> (fault + 'a) vrf_prog" where
  "vrf_rec_prog n k = Rd (Vrf_rec n) (\<lambda>s. case vrf_map s n of None \<Rightarrow> Ret (Inl Use_After_Free) | Some p \<Rightarrow> k p)"

definition vrf_get_prog :: "string \<Rightarrow> (nas_vrf_ctrl_t option \<Rightarrow> 'a) \<Rightarrow> (fault + 'a) vrf_prog" where
  "vrf_get_prog n g = Rd Vrf_map (\<lambda>s. if vrf_map s n = None then Ret (Inr (g None))
     else vrf_rec_prog n (\<lambda>p. Ret (Inr (g (Some p)))))"

fun vrf_list_prog :: "string list \<Rightarrow> nas_vrf_ctrl_t list \<Rightarrow> (fault + vrf_answer) vrf_prog" where
  "vrf_list_prog [] v = Ret (Inr (Vrf_list v))"
| "vrf_list_prog (n # ns) v = vrf_rec_prog n (\<lambda>p. vrf_list_prog ns (v @ [p]))"

definition vrf_add_prog :: "strcopy \<Rightarrow> bool \<Rightarrow> bool \<Rightarrow> nas_vrf_ctrl_t \<Rightarrow> (fault + vrf_answer) vrf_prog" where
  "vrf_add_prog cpy malloc_ok new_ok r =
     (if \<not> malloc_ok then Ret (Inr (Vrf_rc STD_ERR_OK))
      else if \<not> new_ok then Ret (Inl Uncaught)
      else Wr Vrf_heap (\<lambda>s. s\<lparr>vrf_blocks := vrf_blocks s + 2\<rparr>)
        (let key = cpy (vrf_ctrl_name r) (NAS_VRF_NAME_SZ + 1)
         in Rd Vrf_map (\<lambda>s. if vrf_map s key = None
              then Wr Vrf_map (\<lambda>s. s\<lparr>vrf_map := (vrf_map s)(key \<mapsto> r)\<rparr>) (Ret (Inr (Vrf_rc STD_ERR_OK)))
              else Ret (Inr (Vrf_rc STD_ERR_OK)))))"

definition vrf_update_prog :: "nas_vrf_ctrl_t \<Rightarrow> (fault + vrf_answer) vrf_prog" where
  "vrf_update_prog r = Rd Vrf_map (\<lambda>s. if vrf_map s (vrf_ctrl_name r) = None \<or> vrf_int_id r = 0
     then Ret (Inr (Vrf_rc STD_ERR_OK))
     else vrf_rec_prog (vrf_ctrl_name r) (\<lambda>p. Wr (Vrf_rec (vrf_ctrl_name r))
       (\<lambda>s. s\<lparr>vrf_map := (vrf_map s)(vrf_ctrl_name r \<mapsto> p\<lparr>vrf_int_id := vrf_int_id r\<rparr>)\<rparr>)
       (Ret (Inr (Vrf_rc STD_ERR_OK)))))"

definition vrf_cleanup_prog :: "nas_vrf_ctrl_t \<Rightarrow> (fault + vrf_answer) vrf_prog" where
  "vrf_cleanup_prog r = Rd Vrf_map (\<lambda>s. if vrf_map s (vrf_ctrl_name r) = None
     then Ret (Inr (Vrf_rc STD_ERR_OK))
     else Wr Vrf_map (\<lambda>s. s\<lparr>vrf_map := (vrf_map s)(vrf_ctrl_name r := None)\<rparr>)
       (Wr Vrf_heap (\<lambda>s. s\<lparr>vrf_blocks := vrf_blocks s - 2\<rparr>) (Ret (Inr (Vrf_rc STD_ERR_OK)))))"

text \<open>
  A function as its guard and its accesses; \<open>ord\<close> is the order in which the iterator visits the
  keys. The assertions come before the guard.
\<close>

fun vrf_enter ::
  "strcopy \<Rightarrow> ((string \<rightharpoonup> nas_vrf_ctrl_t) \<Rightarrow> string list) \<Rightarrow> vrf_call \<Rightarrow> lock_mode \<times> (fault + vrf_answer) vrf_prog" where
  "vrf_enter cpy ord (Vrf_update_info malloc_ok new_ok op p) =
     (case p of None \<Rightarrow> (Unguarded, Ret (Inl Assert_Fail))
      | Some r \<Rightarrow> (Exclusive, case op of
          NAS_VRF_OP_ADD \<Rightarrow> vrf_add_prog cpy malloc_ok new_ok r
        | NAS_VRF_OP_UPD \<Rightarrow> vrf_update_prog r
        | NAS_VRF_OP_DEL \<Rightarrow> vrf_cleanup_prog r
        | NAS_VRF_OP_OTHER \<Rightarrow> Ret (Inr (Vrf_rc STD_ERR_OK))))"
| "vrf_enter cpy ord (Vrf_get_obj_id name) =
     (case name of None \<Rightarrow> (Unguarded, Ret (Inl Assert_Fail))
      | Some n \<Rightarrow> (Shared, vrf_get_prog n (\<lambda>x. case x of
          None \<Rightarrow> Vrf_obj (STD_ERR COM PARAM (Priv 0)) None | Some p \<Rightarrow> Vrf_obj STD_ERR_OK (Some (vrf_obj_id p)))))"
| "vrf_enter cpy ord (Vrf_get_int_id name) =
     (case name of None \<Rightarrow> (Unguarded, Ret (Inl Assert_Fail))
      | Some n \<Rightarrow> (Shared, vrf_get_prog n (\<lambda>x. case x of
          None \<Rightarrow> Vrf_int (STD_ERR COM PARAM (Priv 0)) None | Some p \<Rightarrow> Vrf_int STD_ERR_OK (Some (vrf_int_id p)))))"
| "vrf_enter cpy ord (Vrf_get_ctrl name) =
     (case name of None \<Rightarrow> (Unguarded, Ret (Inl Assert_Fail))
      | Some n \<Rightarrow> (Shared, vrf_get_prog n (\<lambda>x. case x of
          None \<Rightarrow> Vrf_ctrl (STD_ERR COM PARAM (Priv 0)) None | Some p \<Rightarrow> Vrf_ctrl STD_ERR_OK (Some p))))"
| "vrf_enter cpy ord (Vrf_get_all v) = (Shared, Rd Vrf_map (\<lambda>s. vrf_list_prog (ord (vrf_map s)) v))"

text \<open>The same calls as the functions of the table, one at a time.\<close>

fun vrf_apply ::
  "strcopy \<Rightarrow> ((string \<rightharpoonup> nas_vrf_ctrl_t) \<Rightarrow> string list) \<Rightarrow> vrf_call \<Rightarrow> vrf_db \<Rightarrow> (fault + vrf_answer) \<times> vrf_db" where
  "vrf_apply cpy ord (Vrf_update_info malloc_ok new_ok op p) s =
     (case nas_update_vrf_info cpy malloc_ok new_ok op p s of
        Inl f \<Rightarrow> (Inl f, s) | Inr (rc, s') \<Rightarrow> (Inr (Vrf_rc rc), s'))"
| "vrf_apply cpy ord (Vrf_get_obj_id name) s =
     (map_sum id (\<lambda>(rc, v). Vrf_obj rc v) (nas_get_vrf_obj_id_from_vrf_name name s), s)"
| "vrf_apply cpy ord (Vrf_get_int_id name) s =
     (map_sum id (\<lambda>(rc, v). Vrf_int rc v) (nas_get_vrf_internal_id_from_vrf_name name s), s)"
| "vrf_apply cpy ord (Vrf_get_ctrl name) s =
     (map_sum id (\<lambda>(rc, v). Vrf_ctrl rc v) (nas_get_vrf_ctrl_from_vrf_name name s), s)"
| "vrf_apply cpy ord (Vrf_get_all v) s = (Inr (Vrf_list (nas_get_all_vrf_ctrl (ord (vrf_map s)) v s)), s)"

fun vrf_calls ::
  "strcopy \<Rightarrow> ((string \<rightharpoonup> nas_vrf_ctrl_t) \<Rightarrow> string list) \<Rightarrow> vrf_call list \<Rightarrow> vrf_db \<Rightarrow> (fault + vrf_answer) list \<times> vrf_db" where
  "vrf_calls cpy ord [] s = ([], s)"
| "vrf_calls cpy ord (x # xs) s =
     (case vrf_apply cpy ord x s of (a, s1) \<Rightarrow> (case vrf_calls cpy ord xs s1 of (as, s2) \<Rightarrow> (a # as, s2)))"

section \<open>Run alone, the accesses are the functions\<close>

lemma vrf_get_run:
  "run_prog (vrf_get_prog n g) s = (Inr (g (vrf_map s n)), s)"
  by (auto simp: vrf_get_prog_def vrf_rec_prog_def)

lemma vrf_list_run:
  "set ns \<subseteq> dom (vrf_map s) \<Longrightarrow>
    run_prog (vrf_list_prog ns v) s = (Inr (Vrf_list (v @ List.map_filter (vrf_map s) ns)), s)"
  by (induction ns arbitrary: v) (auto simp: vrf_rec_prog_def map_filter_simps)

lemma vrf_update_run:
  "run_prog (vrf_update_prog r) s = (Inr (Vrf_rc STD_ERR_OK), snd (vrf_update r s))"
  by (auto simp: vrf_update_prog_def vrf_rec_prog_def vrf_update_def vrf_locate_def split: option.split)

lemma vrf_cleanup_run:
  "run_prog (vrf_cleanup_prog r) s = (Inr (Vrf_rc STD_ERR_OK), vrf_cleanup r s)"
  by (auto simp: vrf_cleanup_prog_def vrf_cleanup_def split: option.split)

lemma vrf_add_run:
  "run_prog (vrf_add_prog cpy m w r) s = (case vrf_add cpy m w r s of
     Inl f \<Rightarrow> (Inl f, s) | Inr (b, s') \<Rightarrow> (Inr (Vrf_rc STD_ERR_OK), s'))"
  by (auto simp: vrf_add_prog_def vrf_add_def Let_def split: option.split)

lemma vrf_enter_apply:
  assumes "\<And>m. set (ord m) \<subseteq> dom m"
  shows "call_alone (vrf_enter cpy ord) x s = vrf_apply cpy ord x s"
proof (cases x)
  case (Vrf_update_info m w op p)
  show ?thesis
  proof (cases p)
    case None
    then show ?thesis using Vrf_update_info by (simp add: call_alone_def nas_update_vrf_info_def)
  next
    case (Some r)
    then show ?thesis
      by (cases op) (auto simp: call_alone_def Vrf_update_info nas_update_vrf_info_def vrf_update_run
          vrf_cleanup_run vrf_add_run split: sum.split)
  qed
qed (use vrf_list_run [OF assms] in \<open>auto simp: call_alone_def vrf_get_run vrf_locate_def
    nas_get_vrf_obj_id_from_vrf_name_def nas_get_vrf_internal_id_from_vrf_name_def
    nas_get_vrf_ctrl_from_vrf_name_def nas_get_all_vrf_ctrl_def split: option.split\<close>)

lemma vrf_serial_calls:
  "(\<And>m. set (ord m) \<subseteq> dom m) \<Longrightarrow> run_serial (vrf_enter cpy ord) xs s = vrf_calls cpy ord xs s"
  by (induction xs arbitrary: s) (simp_all add: vrf_enter_apply)

section \<open>The guards\<close>

lemma vrf_list_reads: "reads_only Q (vrf_list_prog ns v)"
  by (induction ns arbitrary: v) (auto simp: vrf_rec_prog_def split: option.split)

lemma vrf_get_reads: "reads_only Q (vrf_get_prog n g)"
  by (auto simp: vrf_get_prog_def vrf_rec_prog_def split: option.split)

lemma keeps_any: "keeps (\<lambda>_. True) p"
  by (induction p) auto

interpretation vrf_api: guarded_api "vrf_enter cpy ord" "\<lambda>_. True" "\<lambda>_. True" for cpy ord
proof
  fix x m p
  show "\<exists>r. p = Ret r" if "vrf_enter cpy ord x = (Unguarded, p)"
    using that by (cases x) (auto split: option.splits)
  show "reads_only (\<lambda>_. True) p" if "vrf_enter cpy ord x = (Shared, p)"
    using that by (cases x) (auto simp: vrf_get_reads vrf_list_reads split: option.splits)
  show "keeps (\<lambda>_. True) p"
    by (rule keeps_any)
qed

text \<open>C29: Threads that share the VRF table through its lock behave as if they had called it one after
  the other: whatever the interleaving, the answers are those of the functions in the order in
  which the calls left, the table is the one they lead to when no write guard is held, and no two
  threads are about to access the same map, record or heap counter with one of them writing.\<close>

theorem vrf_threads_serial:
  assumes "rw_lock_contract grants" "\<And>m. set (ord m) \<subseteq> dom m"
    "par_reach grants (vrf_enter cpy ord) (start_system tds s0) c"
  shows "fst (vrf_calls cpy ord (past_calls c) s0) = answers c \<and>
    (no_writer c \<longrightarrow> mem c = snd (vrf_calls cpy ord (past_calls c) s0)) \<and> \<not> race c"
  using vrf_api.interleaving_serial [OF assms(3,1) TrueI] vrf_api.no_race [OF assms(3,1) TrueI]
  by (simp add: vrf_serial_calls [OF assms(2)] list_all_iff)

text \<open>One thread adds a VRF, two others read it, with their calls overlapping.\<close>

definition vrf_blue :: nas_vrf_ctrl_t where
  "vrf_blue = \<lparr>vrf_ctrl_name = ''blue'', vrf_int_id = 3, vrf_obj_id = 77\<rparr>"

definition blue_order :: "(string \<rightharpoonup> nas_vrf_ctrl_t) \<Rightarrow> string list" where
  "blue_order m = filter (\<lambda>n. m n \<noteq> None) [''default'', ''blue'']"

lemma vrf_threads_serial_witness:
  "\<exists>c. run_schedule rw_grants (vrf_enter trunc_copy blue_order) [0, 0, 0, 0, 0, 1, 2, 1, 2, 1, 2, 1, 2]
     (start_system [[Vrf_update_info True True NAS_VRF_OP_ADD (Some vrf_blue)],
        [Vrf_get_int_id (Some ''blue'')], [Vrf_get_all []]] init_vrf_db) = Some c \<and>
   answers c = [Inr (Vrf_rc STD_ERR_OK), Inr (Vrf_int STD_ERR_OK (Some 3)), Inr (Vrf_list [vrf_blue])] \<and>
   fst (vrf_calls trunc_copy blue_order (past_calls c) init_vrf_db) = answers c \<and> \<not> race c"
proof -
  obtain c where c: "run_schedule rw_grants (vrf_enter trunc_copy blue_order) [0, 0, 0, 0, 0, 1, 2, 1, 2, 1, 2, 1, 2]
     (start_system [[Vrf_update_info True True NAS_VRF_OP_ADD (Some vrf_blue)],
        [Vrf_get_int_id (Some ''blue'')], [Vrf_get_all []]] init_vrf_db) = Some c"
   "answers c = [Inr (Vrf_rc STD_ERR_OK), Inr (Vrf_int STD_ERR_OK (Some 3)), Inr (Vrf_list [vrf_blue])]"
    by (simp add: start_system_def thread_step_def rw_grants_def guards_held_def guard_of_def map_filter_def
        init_vrf_db_def answers_def vrf_add_prog_def vrf_blue_def trunc_copy_def NAS_VRF_NAME_SZ_def
        vrf_get_prog_def vrf_rec_prog_def blue_order_def Let_def)
  note rw_grants_contract
  moreover have "set (blue_order m) \<subseteq> dom m" for m by (auto simp: blue_order_def)
  ultimately have "fst (vrf_calls trunc_copy blue_order (past_calls c) init_vrf_db) = answers c \<and>
      (no_writer c \<longrightarrow> mem c = snd (vrf_calls trunc_copy blue_order (past_calls c) init_vrf_db)) \<and> \<not> race c"
    by (rule vrf_threads_serial [OF _ _ run_schedule_reach [OF c(1)]])
  then show ?thesis using c by blast
qed

end
