(* ===== verification/Spec2Isabelle.thy ===== *)
theory Spec2Isabelle
  imports IfTypes IfUtils BridgeUtils VrfUtils NdiObjIdTable BaseResources BaseObjProps
    SwBootProps SwRequests NpuProfile SwAclUse SwitchProps SysMac TableTests ObjLife
    IfDump SwAclWalk SwShape SwitchTest ShellClient VrfStore
    IfDescLife BridgeThreads VrfThreads
begin

text \<open>
  The common library of the network abstraction service (\<open>opx-nas-common\<close>): the tables and
  classes that the other services of the switch share, and the start-up configuration of the
  switch. This development models its C and C++ code and proves what makes it correct.

  \<^bold>\<open>The parts, and the theories that model them\<close>

  \<^item> The interface table (\<open>src/src/hal_if_mapping.cpp\<close>): a set of records with four kinds of
    key and the name, and the ordered set of the interface indexes of the default VRF.
    \<open>IfMapping\<close> has the records, the keys (\<open>_query_valid\<close>, \<open>_mk_key\<close>, \<open>_locate\<close>) and the
    operations (\<open>dn_hal_if_register\<close>, \<open>dn_hal_get_interface_info\<close>, \<open>dn_hal_get_next_ifindex\<close>
    and the updates). The records live in an explicit heap, as do the descriptions, because
    a registration copies the caller's description pointer. \<open>IfMappingInv\<close> states the invariant, \<open>IfTable\<close> the
    steps, reachability and the abstract table, \<open>IfProps\<close> the properties; \<open>IfDump\<close> has the dump, which
    shows every live record once under each of its keys. \<open>IfTypes\<close> has the
    conversions of type names, \<open>IfUtils\<close> the helpers of \<open>nas_if_utils.cpp\<close>, which are clients
    of the table.
  \<^item> The base classes (\<open>nas_base_utils\<close>, \<open>nas_base_obj\<close>, \<open>nas_base_ndi_utl\<close>): sets of NPUs and
    attributes (\<open>BaseUtils\<close>), tracked memory and the generator of identifiers (\<open>BaseResources\<close>),
    and the object whose changes are pushed to every NPU and rolled back when one of them
    fails (\<open>BaseObj\<close>). The virtual functions are a record of functions over a world.
    \<open>NdiContract\<close> states as locales what the pushes must promise (a push that fails changes nothing; it
    may fail in a rollback as well) and proves from it that a commit that throws restores every NPU
    but those on which a push of its rollback failed, \<open>NdiCommits\<close> the ways each commit can end;
    \<open>BaseObjUt\<close> has the derived object and the NDI stub of the
    repository's tests, which provide the contract; \<open>BaseObjProps\<close> has the properties. The allocation
    of the object's image can fail in any of these places and throw \<open>bad_alloc\<close>. \<open>ObjLife\<close> puts the parts
    together: over every sequence of requests, armed failures and outcomes of the allocations the NPUs
    hold what the stored object says, until a \<open>bad_alloc\<close> ends the process.
  \<^item> Three small tables: \<open>BridgeUtils\<close>, \<open>VrfUtils\<close> and \<open>NdiObjIdTable\<close>. \<open>KeyedTable\<close> has the
    contracts they share, a table where the first entry of a key stays and one where the last
    one wins, and the lemma that relates a lookup to the history of the operations. \<open>VrfStore\<close> has the
    hash table of key pointers behind the VRF table, and that it refines the map of \<open>VrfUtils\<close>.
  \<^item> The same three tables between threads. \<open>RwLock\<close> has calls as programs of single accesses, threads
    that interleave them and a lock of which the documented behaviour is assumed. The locale
    \<open>guarded_api\<close> of \<open>GuardedApi\<close> asks that functions under a read guard do not write and gives that every
    interleaving is a sequence of whole calls and that no two accesses collide.
    \<open>IfThreads\<close> has the functions of the interface table as accesses, with the proof that run alone
    they are the functions of \<open>IfMapping\<close>; \<open>IfThreadsProps\<close> has the properties, with the lookup that
    writes under its read guard, and \<open>IfDescLife\<close> how long the description that a lookup hands out is
    valid. \<open>BridgeThreads\<close> and \<open>VrfThreads\<close> do the same for the bridges, where one
    function takes no guard, and for the VRFs.
  \<^item> The switch profile (\<open>nas_switch_profile.cpp\<close>): every value exists as the default of
    \<open>switch.xml\<close>, as the current value and as the value for the next boot. \<open>SwProfile\<close> has the
    state and the readers of the file, \<open>SwProfileOps\<close> the getters, the setters and the start
    from the data base, \<open>SwBoot\<close> the contract that all values share (\<open>boot_param\<close>: what a
    sequence of requests leaves for the next boot; \<open>db_value\<close> and \<open>db_field\<close>: what the parse
    of the data base leaves), \<open>SwBootProps\<close> and \<open>SwRequests\<close> the properties, \<open>NpuProfile\<close> the
    walk over the key and value pairs. \<open>SwAclProfile\<close>, \<open>SwAclProps\<close> and \<open>SwAclUse\<close> do the same
    for the pools of the ACL profile, whose array is indexed without a check: the properties say when
    the accesses are in bounds, over any sequence of readings, requests and starts, and that a second
    reading can leave them out of bounds; \<open>SwAclWalk\<close> has the walk over its groups.
  \<^item> The inventory of switches (\<open>nas_switch.c\<close>): \<open>Switch\<close> has the handler for the nodes of
    \<open>switch.xml\<close>, which calls the readers above, the initialisation and the lookups;
    \<open>SwitchProps\<close> shows that the lookups are exact as long as the parsing has not failed. \<open>SwShape\<close>
    has the type of the profile data, kept by initialisations, requests and starts: with it the
    loops of the getters, given there index by index, read inside their arrays.
  \<^item> The system's MAC address (\<open>nas_switch_utl.cpp\<close>): \<open>SysMac\<close> has the requests and the loops that
    wait for an answer, which may never come: a loop is a partial function, and the locale
    \<open>polling\<close> says exactly when one returns.
  \<^item> The client of the NPU shell (\<open>hal_shell_client.c\<close>): \<open>ShellClient\<close> has the options, the messages
    before the loop and the loop, as a function of what \<open>select\<close> reports and which writes succeed;
    its property gives the whole session.
  \<^item> The unit tests (\<open>src/src/unit_test\<close>): \<open>UnitTests\<close>, \<open>TableTests\<close> and \<open>ObjTests\<close> have each test as the
    sequence of its calls and assertions, and lemmas that the model passes it. They tie the model to
    what the authors of the code expect of it; the tests of the generator and of the limits are
    shown for every size. \<open>SwitchTest\<close> has the program that calls the getters and setters of the
    profile, with the text it prints: it ends with success and leaves no trace in the data.
  \<^item> \<open>CLib\<close> has \<open>strtoul\<close> and \<open>atoi\<close> as the readers use them and the printing of numbers, \<open>Prelude\<close> the return codes, the
    faults, the string copy and the ordered sets.

  \<^bold>\<open>Conventions\<close>

  A definition has the name of the function it translates. Machine integers are words; a
  \<open>size_t\<close> that only counts is a natural number. A function that can end the process or has
  undefined behaviour returns \<open>fault + 'a\<close>; a return code is a value of \<open>t_std_error\<close>. The state
  is passed explicitly; the log is left out. The functions of the tables are first given as they
  run alone; their locks come with the threads, where an access is a \<open>Rd\<close> or a \<open>Wr\<close> of one
  variable, map or block, and the members of a record, or the two lookups of one key in a map, are
  one access. Accesses are atomic: where two collide the code has a data race, which \<open>race\<close> reports.
  Whether an allocation succeeds is an argument. A pointer that a function only computes is an index
  or an address; the fault comes with the access through it.

  \<^bold>\<open>Assumptions\<close>

  The union in \<open>interface_ctrl_t\<close> is read as on a little-endian 64-bit machine with the field
  offsets of the usual ABI. The widths of \<open>hal_ifindex_t\<close>, \<open>npu_id_t\<close>, \<open>hal_vrf_id_t\<close> and
  \<open>npu_port_t\<close> are 32 bits, of \<open>hal_vlan_id_t\<close> 16. Code that is not in the repository is a
  parameter with its documented behaviour as a named hypothesis: \<open>safestrncpy\<close>
  (\<open>safestrncpy_spec\<close>), the CPS objects (\<open>cps_api_spec\<close>), the bit array (\<open>bitmap_spec\<close>, whose search
  stops at the first set bit), the
  nodes of the configuration file, the tokens of \<open>std_parse_string\<close>, the constants of generated
  headers, the locks (\<open>rw_lock_contract\<close>). Each has a concrete instance in the witnesses.

  \<^bold>\<open>Bounds\<close>

  All loops but those that wait for the platform are recursions over lists, so every operation ends; the three walks that a client
  drives (over the indexes, over the pairs and over the groups) take fuel, and the properties say how
  much is enough. The total of the pools that sizes the array of the ACL groups is an \<open>uint32_t\<close> and
  wraps; the accesses to that array are in bounds after a reading whose stages cover the counters
  (\<open>acl_covers\<close>) and whose pools add up to less than \<open>2 ^ 32\<close>. The generator of identifiers is meant for
  fewer than \<open>2 ^ 31 - 1\<close> identifiers, because it compares positions as \<open>int\<close>.

  \<^bold>\<open>Not modelled\<close>

  The memory model below the accesses: a data race is undefined in C++, and the development says when one
  can happen, not what it does. The switch profile and the inventory have no locks and are taken as used
  by one thread. The log and the dump of the VRF table, which goes there; the scripts, which are Python and shell;
  the headers of log macros and of constants that no modelled function reads. The shell client's
  socket, its \<open>getopt\<close> and \<open>select\<close> belong to the system: what they answer is an argument.
\<close>

end
